(* ===== verification/Hilog_Prelude.thy ===== *)
theory Hilog_Prelude
  imports Main "HOL-Library.Word"
begin

unbundle bit_operations_syntax

text \<open>
  Shared vocabulary of the development: names for the machine integer types of the C++ code,
  the C string and bounds-checked copy functions the code calls, rounding to single-precision
  floating point, and generic lemmas on lists, options and words that the component theories
  use through the collections \<open>hilog_defs\<close> and \<open>hilog_simps\<close>.
\<close>

section \<open>Machine integers\<close>

type_synonym u8 = "8 word"
type_synonym u16 = "16 word"
type_synonym u32 = "32 word"
type_synonym u64 = "64 word"

text \<open>\<open>size_t\<close> on the 64-bit targets of the daemon.\<close>

type_synonym size_t = "64 word"

named_theorems hilog_defs \<open>definitions unfolded when a model function is evaluated\<close>
named_theorems hilog_simps \<open>rewrite rules shared by the component proofs\<close>

section \<open>C strings and bounds-checked copies\<close>

text \<open>
  A character array is a list of bytes. \<open>c_str\<close> is what \<open>strlen\<close>, \<open>strcmp\<close> and the
  \<open>std::string\<close> constructor see of it: the bytes before the first NUL.
\<close>

abbreviation NUL :: char where
  "NUL \<equiv> CHR 0x00"

definition c_str :: "char list \<Rightarrow> string" where
  "c_str bs = takeWhile (\<lambda>c. c \<noteq> NUL) bs"

text \<open>
  Memory obtained by \<open>new char[n]\<close> is not initialised: a cell is \<open>None\<close> until it is written.
  Reading a C string out of such memory stops at the first NUL; a string that runs into an
  unwritten cell or off the end has no defined value and is cut there.
\<close>

type_synonym mem = "char option list"

fun mem_str :: "mem \<Rightarrow> string" where
  "mem_str [] = []"
| "mem_str (None # bs) = []"
| "mem_str (Some c # bs) = (if c = NUL then [] else c # mem_str bs)"

definition mem_write :: "nat \<Rightarrow> char list \<Rightarrow> mem \<Rightarrow> mem" where
  "mem_write off bs m = take off m @ map Some bs @ drop (off + length bs) m"

text \<open>
  \<open>strncpy_s(dest, destMax, src, count)\<close>: copies at most \<open>count\<close> characters of the C string
  \<open>src\<close> and terminates the copy; when the result and its terminator do not fit into
  \<open>destMax\<close> bytes nothing but an empty string is written and \<open>ERANGE\<close> is returned.
  The result is the error code and the bytes written from \<open>dest\<close> on.
\<close>

definition EOK :: int where
  [simp]: "EOK = 0"

definition ERANGE :: int where
  [simp]: "ERANGE = 34"

definition strncpy_s :: "nat \<Rightarrow> char list \<Rightarrow> nat \<Rightarrow> int \<times> char list" where
  "strncpy_s destMax src count =
     (if destMax = 0 then (ERANGE, [])
      else let s = c_str (take count src)
           in if length s < destMax then (EOK, s @ [NUL]) else (ERANGE, [NUL]))"

text \<open>
  \<open>memcpy_s(dest, destMax, src, count)\<close>: copies \<open>count\<close> bytes if they fit, otherwise clears
  the destination and returns \<open>ERANGE\<close>.
\<close>

definition memcpy_s :: "nat \<Rightarrow> char list \<Rightarrow> nat \<Rightarrow> int \<times> char list" where
  "memcpy_s destMax src count =
     (if destMax = 0 then (ERANGE, [])
      else if count \<le> destMax then (EOK, take count src)
      else (ERANGE, replicate destMax NUL))"

text \<open>Writing \<open>bs\<close> over the beginning of an array.\<close>

definition overwrite :: "'a list \<Rightarrow> 'a list \<Rightarrow> 'a list" where
  "overwrite old bs = bs @ drop (length bs) old"

section \<open>Single-precision rounding\<close>

text \<open>
  Conversion of a non-negative integer to IEEE single precision rounds to 24 significant bits,
  ties to even. Products with a constant \<open>c * 2\<^bsup>-k\<^esup>\<close> are computed on the numerator \<open>n * c\<close>
  and rounded the same way; no value of the code is subnormal or overflows.
\<close>

fun bit_length :: "nat \<Rightarrow> nat" where
  "bit_length n = (if n = 0 then 0 else Suc (bit_length (n div 2)))"

declare bit_length.simps [simp del]

definition f32_round :: "nat \<Rightarrow> nat" where
  "f32_round n =
     (let k = bit_length n - 24; q = n div 2 ^ k; r = n mod 2 ^ k; half = 2 ^ (k - 1)
      in if k = 0 then n
         else if r < half \<or> (r = half \<and> even q) then q * 2 ^ k
         else (q + 1) * 2 ^ k)"

section \<open>Lemmas on strings and copies\<close>

lemma c_str_Nil [simp]: "c_str [] = []"
  by (simp add: c_str_def)

lemma c_str_Cons [simp]: "c_str (c # bs) = (if c = NUL then [] else c # c_str bs)"
  by (simp add: c_str_def)

lemma NUL_notin_c_str [simp]: "NUL \<notin> set (c_str bs)"
  by (auto simp: c_str_def dest: set_takeWhileD)

lemma length_c_str_le: "length (c_str bs) \<le> length bs"
  by (simp add: c_str_def length_takeWhile_le)

lemma length_c_str_take: "length (c_str (take n bs)) \<le> n"
  using length_c_str_le [of "take n bs"] by simp

lemma c_str_idem: "NUL \<notin> set s \<Longrightarrow> c_str (s @ NUL # bs) = s"
  by (induction s) auto

lemma c_str_no_NUL: "NUL \<notin> set s \<Longrightarrow> c_str s = s"
  by (induction s) auto

lemma strncpy_s_fits:
  "count < destMax \<Longrightarrow> strncpy_s destMax src count = (EOK, c_str (take count src) @ [NUL])"
  using length_c_str_take [of count src]
  by (simp add: strncpy_s_def Let_def)

lemma memcpy_s_fits:
  "0 < destMax \<Longrightarrow> count \<le> destMax \<Longrightarrow> memcpy_s destMax src count = (EOK, take count src)"
  by (simp add: memcpy_s_def)

lemma length_mem_write [simp]:
  "off + length bs \<le> length m \<Longrightarrow> length (mem_write off bs m) = length m"
  by (simp add: mem_write_def)

lemma mem_str_map_Some: "NUL \<notin> set s \<Longrightarrow> mem_str (map Some s @ Some NUL # m) = s"
  by (induction s) auto

section \<open>Lemmas on rounding\<close>

lemma bit_length_0 [simp]: "bit_length 0 = 0"
  by (subst bit_length.simps) simp

lemma bit_length_bounds: "0 < n \<Longrightarrow> 2 ^ (bit_length n - 1) \<le> n \<and> n < 2 ^ bit_length n"
proof (induction n rule: bit_length.induct)
  case (1 n)
  show ?case
  proof (cases "n div 2 = 0")
    case True
    with 1 have "n = 1" by simp
    moreover have "bit_length 1 = 1" by (subst bit_length.simps) simp
    ultimately show ?thesis by simp
  next
    case False
    with 1 have IH: "2 ^ (bit_length (n div 2) - 1) \<le> n div 2" "n div 2 < 2 ^ bit_length (n div 2)"
      by auto
    from False have pos: "0 < bit_length (n div 2)"
      by (subst bit_length.simps) simp
    have len: "bit_length n = Suc (bit_length (n div 2))"
      using False by (subst bit_length.simps) auto
    obtain l where l: "bit_length (n div 2) = Suc l"
      using pos gr0_conv_Suc by blast
    from IH have "2 * 2 ^ l \<le> n" "n < 4 * 2 ^ l" unfolding l by (simp_all; linarith)+
    then show ?thesis by (simp add: len l)
  qed
qed

text \<open>The rounding error is at most half a unit in the last of 24 places.\<close>

lemma f32_round_error:
  "2 ^ 24 * f32_round n \<le> (2 ^ 24 + 1) * n" "2 ^ 24 * n \<le> 2 ^ 24 * f32_round n + n"
proof -
  define k where "k = bit_length n - 24"
  have *: "f32_round n \<le> n + 2 ^ (k - 1) \<and> n \<le> f32_round n + 2 ^ (k - 1) \<and> 2 ^ 24 * 2 ^ (k - 1) \<le> n"
    if k: "k \<noteq> 0"
  proof -
    define q where "q = n div 2 ^ k"
    define r where "r = n mod 2 ^ k"
    have n: "n = q * 2 ^ k + r" unfolding q_def r_def by (simp only: div_mult_mod_eq)
    have r: "r < 2 ^ k" by (simp add: r_def)
    obtain j where j: "k = Suc j" using k by (cases k) auto
    have pow: "(2::nat) ^ k = 2 * 2 ^ (k - 1)" by (simp add: j)
    have n0: "0 < n" using k by (cases "n = 0") (auto simp: k_def)
    have "2 ^ (24 + (k - 1)) \<le> n"
    proof -
      have "24 + (k - 1) = bit_length n - 1" using k by (simp add: k_def)
      then show ?thesis using bit_length_bounds [OF n0] by simp
    qed
    then have b: "2 ^ 24 * 2 ^ (k - 1) \<le> n" by (simp only: power_add)
    have f: "f32_round n = (if r < 2 ^ (k - 1) \<or> (r = 2 ^ (k - 1) \<and> even q) then q * 2 ^ k else (q + 1) * 2 ^ k)"
      using k by (simp add: f32_round_def Let_def k_def q_def r_def)
    show ?thesis
    proof (cases "r < 2 ^ (k - 1) \<or> (r = 2 ^ (k - 1) \<and> even q)")
      case True
      then have "f32_round n = q * 2 ^ k" "r \<le> 2 ^ (k - 1)" using f by auto
      then show ?thesis using n b by simp
    next
      case False
      then have "f32_round n = q * 2 ^ k + 2 ^ k" "2 ^ (k - 1) \<le> r" using f by auto
      then show ?thesis using n r b pow by simp
    qed
  qed
  have "2 ^ 24 * f32_round n \<le> (2 ^ 24 + 1) * n \<and> 2 ^ 24 * n \<le> 2 ^ 24 * f32_round n + n"
  proof (cases "k = 0")
    case True
    then show ?thesis by (simp add: f32_round_def k_def)
  next
    case False
    then show ?thesis using * by simp
  qed
  then show "2 ^ 24 * f32_round n \<le> (2 ^ 24 + 1) * n" "2 ^ 24 * n \<le> 2 ^ 24 * f32_round n + n"
    by auto
qed

section \<open>Words of small numbers\<close>

lemma unat_u16_small: "n < 65536 \<Longrightarrow> unat (of_nat n :: u16) = n"
  by (simp add: unat_of_nat)

lemma unat_u6_small: "n < 64 \<Longrightarrow> unat (of_nat n :: 6 word) = n"
  by (simp add: unat_of_nat)

lemma unat_size_small: "n \<le> 4096 \<Longrightarrow> unat (of_nat n :: size_t) = n"
  by (simp add: unat_of_nat)

end
