(* ===== verification/Hilog_Common.thy ===== *)
theory Hilog_Common
  imports Hilog_Prelude
begin

text \<open>
  The constants of \<open>hilog_base.h\<close>, \<open>hilog_common.h\<close>, \<open>hilog_cmd.h\<close> and the enumerations
  \<open>LogType\<close> and \<open>LogLevel\<close> of \<open>log_c.h\<close>. Enumerators are numbers, because the code
  compares them with raw bit fields and command bytes that may hold any value.
\<close>

section \<open>Log types and levels\<close>

definition LOG_TYPE_MIN :: nat where
  [simp]: "LOG_TYPE_MIN = 0"

definition LOG_APP :: nat where
  [simp]: "LOG_APP = 0"

definition LOG_INIT :: nat where
  [simp]: "LOG_INIT = 1"

definition LOG_CORE :: nat where
  [simp]: "LOG_CORE = 3"

definition LOG_KMSG :: nat where
  [simp]: "LOG_KMSG = 4"

definition LOG_ONLY_PRERELEASE :: nat where
  [simp]: "LOG_ONLY_PRERELEASE = 5"

definition LOG_TYPE_MAX :: nat where
  [simp]: "LOG_TYPE_MAX = 6"

definition LOG_LEVEL_MIN :: nat where
  [simp]: "LOG_LEVEL_MIN = 0"

definition LOG_DEBUG :: nat where
  [simp]: "LOG_DEBUG = 3"

definition LOG_INFO :: nat where
  [simp]: "LOG_INFO = 4"

definition LOG_WARN :: nat where
  [simp]: "LOG_WARN = 5"

definition LOG_ERROR :: nat where
  [simp]: "LOG_ERROR = 6"

definition LOG_FATAL :: nat where
  [simp]: "LOG_FATAL = 7"

definition LOG_LEVEL_MAX :: nat where
  [simp]: "LOG_LEVEL_MAX = 8"

text \<open>\<open>LevelBase\<close>, \<open>LevelNum\<close> and \<open>TypeNum\<close> size the statistics arrays.\<close>

definition LevelBase :: nat where
  [simp]: "LevelBase = LOG_DEBUG"

definition LevelNum :: nat where
  [simp]: "LevelNum = LOG_LEVEL_MAX - LevelBase"

definition TypeNum :: nat where
  [simp]: "TypeNum = LOG_TYPE_MAX"

section \<open>Sizes and limits\<close>

definition MAX_LOG_LEN :: nat where
  [simp]: "MAX_LOG_LEN = 4096"

definition MAX_TAG_LEN :: nat where
  [simp]: "MAX_TAG_LEN = 32"

definition MAX_REGEX_STR_LEN :: nat where
  [simp]: "MAX_REGEX_STR_LEN = 128"

definition MAX_FILE_NAME_LEN :: nat where
  [simp]: "MAX_FILE_NAME_LEN = 64"

definition MAX_STREAM_NAME_LEN :: nat where
  [simp]: "MAX_STREAM_NAME_LEN = 16"

definition MAX_PROC_NAME_LEN :: nat where
  [simp]: "MAX_PROC_NAME_LEN = 32"

definition MAX_JOBS :: nat where
  [simp]: "MAX_JOBS = 10"

definition MIN_BUFFER_SIZE :: nat where
  [simp]: "MIN_BUFFER_SIZE = 64 * 1024"

definition MAX_BUFFER_SIZE :: nat where
  [simp]: "MAX_BUFFER_SIZE = 16 * 1024 * 1024"

definition MAX_PERSISTER_BUFFER_SIZE :: nat where
  [simp]: "MAX_PERSISTER_BUFFER_SIZE = 64 * 1024"

definition MIN_LOG_FILE_SIZE :: nat where
  [simp]: "MIN_LOG_FILE_SIZE = MAX_PERSISTER_BUFFER_SIZE"

definition MAX_LOG_FILE_SIZE :: nat where
  [simp]: "MAX_LOG_FILE_SIZE = 512 * 1024 * 1024"

definition MIN_LOG_FILE_NUM :: nat where
  [simp]: "MIN_LOG_FILE_NUM = 2"

definition MAX_LOG_FILE_NUM :: nat where
  [simp]: "MAX_LOG_FILE_NUM = 1000"

definition JOB_ID_MIN :: nat where
  [simp]: "JOB_ID_MIN = 10"

definition JOB_ID_MAX :: nat where
  [simp]: "JOB_ID_MAX = 4294967295"

definition MAX_DOMAINS :: nat where
  [simp]: "MAX_DOMAINS = 5"

definition MAX_TAGS :: nat where
  [simp]: "MAX_TAGS = 10"

definition MAX_PIDS :: nat where
  [simp]: "MAX_PIDS = 5"

definition DOMAIN_OS_MIN :: u32 where
  [simp]: "DOMAIN_OS_MIN = 0xD000000"

definition DOMAIN_OS_MAX :: u32 where
  [simp]: "DOMAIN_OS_MAX = 0xD0FFFFF"

definition DOMAIN_APP_MIN :: u32 where
  [simp]: "DOMAIN_APP_MIN = 0x0"

definition DOMAIN_APP_MAX :: u32 where
  [simp]: "DOMAIN_APP_MAX = 0xFFFF"

section \<open>Return and error codes\<close>

definition RET_SUCCESS :: int where
  [simp]: "RET_SUCCESS = 0"

definition RET_FAIL :: int where
  [simp]: "RET_FAIL = - 1"

definition SUCCESS_CONTINUE :: int where
  [simp]: "SUCCESS_CONTINUE = 1"

definition ERR_LOG_LEVEL_INVALID :: int where
  [simp]: "ERR_LOG_LEVEL_INVALID = - 2"

definition ERR_LOG_TYPE_INVALID :: int where
  [simp]: "ERR_LOG_TYPE_INVALID = - 3"

definition ERR_INVALID_RQST_CMD :: int where
  [simp]: "ERR_INVALID_RQST_CMD = - 4"

definition ERR_INVALID_DOMAIN_STR :: int where
  [simp]: "ERR_INVALID_DOMAIN_STR = - 5"

definition ERR_QUERY_TYPE_INVALID :: int where
  [simp]: "ERR_QUERY_TYPE_INVALID = - 8"

definition ERR_LOG_PERSIST_FILE_SIZE_INVALID :: int where
  [simp]: "ERR_LOG_PERSIST_FILE_SIZE_INVALID = - 11"

definition ERR_LOG_PERSIST_FILE_NAME_INVALID :: int where
  [simp]: "ERR_LOG_PERSIST_FILE_NAME_INVALID = - 12"

definition ERR_LOG_PERSIST_COMPRESS_BUFFER_EXP :: int where
  [simp]: "ERR_LOG_PERSIST_COMPRESS_BUFFER_EXP = - 13"

definition ERR_LOG_PERSIST_DIR_OPEN_FAIL :: int where
  [simp]: "ERR_LOG_PERSIST_DIR_OPEN_FAIL = - 14"

definition ERR_LOG_PERSIST_COMPRESS_INIT_FAIL :: int where
  [simp]: "ERR_LOG_PERSIST_COMPRESS_INIT_FAIL = - 15"

definition ERR_LOG_PERSIST_FILE_OPEN_FAIL :: int where
  [simp]: "ERR_LOG_PERSIST_FILE_OPEN_FAIL = - 16"

definition ERR_LOG_PERSIST_JOBID_FAIL :: int where
  [simp]: "ERR_LOG_PERSIST_JOBID_FAIL = - 18"

definition ERR_DOMAIN_INVALID :: int where
  [simp]: "ERR_DOMAIN_INVALID = - 19"

definition ERR_MSG_LEN_INVALID :: int where
  [simp]: "ERR_MSG_LEN_INVALID = - 21"

definition ERR_LOG_PERSIST_FILE_PATH_INVALID :: int where
  [simp]: "ERR_LOG_PERSIST_FILE_PATH_INVALID = - 25"

definition ERR_LOG_PERSIST_JOBID_INVALID :: int where
  [simp]: "ERR_LOG_PERSIST_JOBID_INVALID = - 28"

definition ERR_BUFF_SIZE_INVALID :: int where
  [simp]: "ERR_BUFF_SIZE_INVALID = - 30"

definition ERR_COMMAND_INVALID :: int where
  [simp]: "ERR_COMMAND_INVALID = - 31"

definition ERR_LOG_PERSIST_TASK_EXISTED :: int where
  [simp]: "ERR_LOG_PERSIST_TASK_EXISTED = - 32"

definition ERR_LOG_FILE_NUM_INVALID :: int where
  [simp]: "ERR_LOG_FILE_NUM_INVALID = - 34"

definition ERR_NOT_NUMBER_STR :: int where
  [simp]: "ERR_NOT_NUMBER_STR = - 35"

definition ERR_TOO_MANY_ARGUMENTS :: int where
  [simp]: "ERR_TOO_MANY_ARGUMENTS = - 36"

definition ERR_DUPLICATE_OPTION :: int where
  [simp]: "ERR_DUPLICATE_OPTION = - 37"

definition ERR_INVALID_ARGUMENT :: int where
  [simp]: "ERR_INVALID_ARGUMENT = - 38"

definition ERR_TOO_MANY_DOMAINS :: int where
  [simp]: "ERR_TOO_MANY_DOMAINS = - 39"

definition ERR_INVALID_SIZE_STR :: int where
  [simp]: "ERR_INVALID_SIZE_STR = - 40"

definition ERR_TOO_MANY_PIDS :: int where
  [simp]: "ERR_TOO_MANY_PIDS = - 41"

definition ERR_TOO_MANY_TAGS :: int where
  [simp]: "ERR_TOO_MANY_TAGS = - 42"

definition ERR_TAG_STR_TOO_LONG :: int where
  [simp]: "ERR_TAG_STR_TOO_LONG = - 43"

definition ERR_REGEX_STR_TOO_LONG :: int where
  [simp]: "ERR_REGEX_STR_TOO_LONG = - 44"

definition ERR_FILE_NAME_TOO_LONG :: int where
  [simp]: "ERR_FILE_NAME_TOO_LONG = - 45"

definition ERR_SOCKET_CLIENT_INIT_FAIL :: int where
  [simp]: "ERR_SOCKET_CLIENT_INIT_FAIL = - 46"

definition ERR_SOCKET_WRITE_MSG_HEADER_FAIL :: int where
  [simp]: "ERR_SOCKET_WRITE_MSG_HEADER_FAIL = - 47"

definition ERR_SOCKET_WRITE_CMD_FAIL :: int where
  [simp]: "ERR_SOCKET_WRITE_CMD_FAIL = - 48"

definition ERR_SOCKET_RECEIVE_RSP :: int where
  [simp]: "ERR_SOCKET_RECEIVE_RSP = - 49"

definition ERR_PERSIST_TASK_EMPTY :: int where
  [simp]: "ERR_PERSIST_TASK_EMPTY = - 50"

definition ERR_JOBID_NOT_EXSIST :: int where
  [simp]: "ERR_JOBID_NOT_EXSIST = - 60"

definition ERR_TOO_MANY_JOBS :: int where
  [simp]: "ERR_TOO_MANY_JOBS = - 61"

definition ERR_STATS_NOT_ENABLE :: int where
  [simp]: "ERR_STATS_NOT_ENABLE = - 62"

definition ERR_NO_RUNNING_TASK :: int where
  [simp]: "ERR_NO_RUNNING_TASK = - 63"

definition ERR_NO_PID_PERMISSION :: int where
  [simp]: "ERR_NO_PID_PERMISSION = - 64"

text \<open>Error codes are pairwise distinct, so a caller can tell the failures apart.\<close>

definition ErrorCodes :: "int list" where
    "ErrorCodes = [SUCCESS_CONTINUE, RET_SUCCESS, RET_FAIL, ERR_LOG_LEVEL_INVALID,
     ERR_LOG_TYPE_INVALID, ERR_INVALID_RQST_CMD, ERR_INVALID_DOMAIN_STR, ERR_QUERY_TYPE_INVALID,
     ERR_LOG_PERSIST_FILE_SIZE_INVALID, ERR_LOG_PERSIST_FILE_NAME_INVALID,
     ERR_LOG_PERSIST_COMPRESS_BUFFER_EXP, ERR_LOG_PERSIST_DIR_OPEN_FAIL,
     ERR_LOG_PERSIST_COMPRESS_INIT_FAIL, ERR_LOG_PERSIST_FILE_OPEN_FAIL,
     ERR_LOG_PERSIST_JOBID_FAIL, ERR_DOMAIN_INVALID, ERR_MSG_LEN_INVALID,
     ERR_LOG_PERSIST_FILE_PATH_INVALID, ERR_LOG_PERSIST_JOBID_INVALID, ERR_BUFF_SIZE_INVALID,
     ERR_COMMAND_INVALID, ERR_LOG_PERSIST_TASK_EXISTED, ERR_LOG_FILE_NUM_INVALID,
     ERR_NOT_NUMBER_STR, ERR_TOO_MANY_ARGUMENTS, ERR_DUPLICATE_OPTION, ERR_INVALID_ARGUMENT,
     ERR_TOO_MANY_DOMAINS, ERR_INVALID_SIZE_STR, ERR_TOO_MANY_PIDS, ERR_TOO_MANY_TAGS,
     ERR_TAG_STR_TOO_LONG, ERR_REGEX_STR_TOO_LONG, ERR_FILE_NAME_TOO_LONG,
     ERR_SOCKET_CLIENT_INIT_FAIL, ERR_SOCKET_WRITE_MSG_HEADER_FAIL, ERR_SOCKET_WRITE_CMD_FAIL,
     ERR_SOCKET_RECEIVE_RSP, ERR_PERSIST_TASK_EMPTY, ERR_JOBID_NOT_EXSIST, ERR_TOO_MANY_JOBS,
     ERR_STATS_NOT_ENABLE, ERR_NO_RUNNING_TASK, ERR_NO_PID_PERMISSION]"

lemma ErrorCodes_distinct: "distinct ErrorCodes"
  by (simp add: ErrorCodes_def)

end
