(* ===== verification/Log_TimeStamp.thy ===== *)
theory Log_TimeStamp
  imports Hilog_Common
begin

text \<open>
  The class \<open>LogTimeStamp\<close> of \<open>log_timestamp.h\<close>: seconds and nanoseconds, both
  \<open>uint32_t\<close>, with the comparison operators, the saturating \<open>-=\<close> and \<open>+=\<close>.
  The abstraction \<open>ts_ns\<close> counts nanoseconds; on normalised stamps the comparison operators
  are the order on that number, \<open>-=\<close> is truncated subtraction and \<open>+=\<close> is addition as long
  as the seconds fit into 32 bits.
\<close>

section \<open>The operators\<close>

datatype LogTimeStamp = LogTimeStamp (tv_sec: u32) (tv_nsec: u32)

definition NS_PER_SEC :: nat where
  [simp]: "NS_PER_SEC = 1000000000"

definition ts_eq :: "LogTimeStamp \<Rightarrow> LogTimeStamp \<Rightarrow> bool" where
  "ts_eq a b \<longleftrightarrow> tv_sec a = tv_sec b \<and> tv_nsec a = tv_nsec b"

definition ts_lt :: "LogTimeStamp \<Rightarrow> LogTimeStamp \<Rightarrow> bool" where
  "ts_lt a b \<longleftrightarrow> tv_sec a < tv_sec b \<or> (tv_sec a = tv_sec b \<and> tv_nsec a < tv_nsec b)"

definition ts_ge :: "LogTimeStamp \<Rightarrow> LogTimeStamp \<Rightarrow> bool" where
  "ts_ge a b \<longleftrightarrow> \<not> ts_lt a b"

definition ts_gt :: "LogTimeStamp \<Rightarrow> LogTimeStamp \<Rightarrow> bool" where
  "ts_gt a b \<longleftrightarrow> tv_sec a > tv_sec b \<or> (tv_sec a = tv_sec b \<and> tv_nsec a > tv_nsec b)"

definition ts_le :: "LogTimeStamp \<Rightarrow> LogTimeStamp \<Rightarrow> bool" where
  "ts_le a b \<longleftrightarrow> \<not> ts_gt a b"

definition ts_minus :: "LogTimeStamp \<Rightarrow> LogTimeStamp \<Rightarrow> LogTimeStamp" where
  "ts_minus a b =
     (if ts_le a b then LogTimeStamp 0 0
      else if tv_nsec a < tv_nsec b
      then LogTimeStamp (tv_sec a - 1 - tv_sec b) (of_nat NS_PER_SEC + tv_nsec a - tv_nsec b)
      else LogTimeStamp (tv_sec a - tv_sec b) (tv_nsec a - tv_nsec b))"

definition ts_plus :: "LogTimeStamp \<Rightarrow> LogTimeStamp \<Rightarrow> LogTimeStamp" where
  "ts_plus a b =
     (let n = tv_nsec a + tv_nsec b
      in if unat n \<ge> NS_PER_SEC
         then LogTimeStamp (tv_sec a + 1 + tv_sec b) (n - of_nat NS_PER_SEC)
         else LogTimeStamp (tv_sec a + tv_sec b) n)"

lemmas ts_defs = ts_eq_def ts_lt_def ts_ge_def ts_gt_def ts_le_def ts_minus_def ts_plus_def

section \<open>The order\<close>

instantiation LogTimeStamp :: linorder
begin

definition less_LogTimeStamp :: "LogTimeStamp \<Rightarrow> LogTimeStamp \<Rightarrow> bool" where
  "less_LogTimeStamp = ts_lt"

definition less_eq_LogTimeStamp :: "LogTimeStamp \<Rightarrow> LogTimeStamp \<Rightarrow> bool" where
  "less_eq_LogTimeStamp = ts_le"

instance
proof
  fix x y z :: LogTimeStamp
  show "(x < y) = (x \<le> y \<and> \<not> y \<le> x)"
    by (auto simp: less_LogTimeStamp_def less_eq_LogTimeStamp_def ts_defs)
  show "x \<le> x"
    by (simp add: less_eq_LogTimeStamp_def ts_defs)
  show "x \<le> y \<Longrightarrow> y \<le> z \<Longrightarrow> x \<le> z"
    by (auto simp: less_eq_LogTimeStamp_def ts_defs)
  show "x \<le> y \<Longrightarrow> y \<le> x \<Longrightarrow> x = y"
    by (cases x, cases y) (auto simp: less_eq_LogTimeStamp_def ts_defs)
  show "x \<le> y \<or> y \<le> x"
    by (auto simp: less_eq_LogTimeStamp_def ts_defs)
qed

end

section \<open>Nanoseconds\<close>

definition ts_ns :: "LogTimeStamp \<Rightarrow> nat" where
  "ts_ns a = unat (tv_sec a) * NS_PER_SEC + unat (tv_nsec a)"

definition ts_ok :: "LogTimeStamp \<Rightarrow> bool" where
  "ts_ok a \<longleftrightarrow> unat (tv_nsec a) < NS_PER_SEC"

lemma ts_ok_less_u32: "ts_ok a \<Longrightarrow> unat (tv_nsec a) < 2 ^ 32 - NS_PER_SEC"
  by (simp add: ts_ok_def)

lemma ns_less_iff:
  fixes a b c d :: nat
  assumes "c < N" "d < N"
  shows "a * N + c < b * N + d \<longleftrightarrow> a < b \<or> (a = b \<and> c < d)"
proof -
  have 1: "a * N + c < b * N + d" if "a < b"
  proof -
    from that obtain k where "b = Suc (a + k)" using less_iff_Suc_add by auto
    then show ?thesis using assms by (simp add: algebra_simps)
  qed
  have 2: "b * N + d < a * N + c" if "b < a"
  proof -
    from that obtain k where "a = Suc (b + k)" using less_iff_Suc_add by auto
    then show ?thesis using assms by (simp add: algebra_simps)
  qed
  show ?thesis using 1 2 by (cases a b rule: linorder_cases) auto
qed

lemma ts_gt_ns: "ts_ok a \<Longrightarrow> ts_ok b \<Longrightarrow> ts_gt a b \<longleftrightarrow> ts_ns b < ts_ns a"
  by (auto simp: ts_gt_def ts_ns_def ts_ok_def ns_less_iff word_less_nat_alt word_unat_eq_iff simp del: NS_PER_SEC_def)

text \<open>
  Normalised stamps are ordered by their nanoseconds, so \<open>operator <\<close> is the order of time.
\<close>

lemma ts_less_ns: "ts_ok a \<Longrightarrow> ts_ok b \<Longrightarrow> a < b \<longleftrightarrow> ts_ns a < ts_ns b"
  by (auto simp: less_LogTimeStamp_def ts_lt_def ts_ns_def ts_ok_def ns_less_iff word_less_nat_alt
      word_unat_eq_iff simp del: NS_PER_SEC_def)

lemma unat_sub1_sub:
  fixes a b :: u32
  assumes "b < a"
  shows "unat (a - 1 - b) = unat a - 1 - unat b"
proof -
  have 1: "unat (a - 1) = unat a - 1"
    using assms by (metis unat_minus_one word_not_simps(1))
  have "b \<le> a - 1" using assms 1 by (simp add: word_le_nat_alt word_less_nat_alt)
  then show ?thesis by (simp add: unat_sub 1)
qed

lemma unat_borrow:
  fixes n m :: u32
  assumes "unat n < NS_PER_SEC" "n < m"
  shows "unat (of_nat NS_PER_SEC + n - m) = NS_PER_SEC + unat n - unat m \<or> NS_PER_SEC \<le> unat m"
proof (cases "NS_PER_SEC \<le> unat m")
  case False
  have s: "unat (of_nat NS_PER_SEC + n) = NS_PER_SEC + unat n"
    using assms by (simp add: unat_add_lem [THEN iffD1])
  have "m \<le> of_nat NS_PER_SEC + n"
    unfolding word_le_nat_alt s using False by simp
  then show ?thesis by (simp add: unat_sub s del: NS_PER_SEC_def of_nat_numeral)
qed simp

lemma ts_minus_zero [simp]: "ts_minus a a = LogTimeStamp 0 0"
  by (simp add: ts_minus_def ts_le_def ts_gt_def)

text \<open>
  \<open>operator -=\<close> is saturating subtraction: on normalised stamps the difference in nanoseconds
  is the truncated difference of the operands, the borrow never wraps, and the result is
  normalised again.
\<close>

theorem ts_minus_correct:
  assumes "ts_ok a" "ts_ok b"
  shows "ts_ns (ts_minus a b) = ts_ns a - ts_ns b \<and> ts_ok (ts_minus a b)"
proof (cases "ts_le a b")
  case True
  then have "ts_ns a \<le> ts_ns b"
    using assms by (simp add: ts_le_def ts_gt_ns)
  with True show ?thesis by (simp add: ts_minus_def ts_ns_def ts_ok_def)
next
  case gt: False
  then have g: "ts_gt a b" by (simp add: ts_le_def)
  show ?thesis
  proof (cases "tv_nsec a < tv_nsec b")
    case True
    with g have sec: "tv_sec b < tv_sec a" by (auto simp: ts_gt_def)
    then have s: "unat (tv_sec b) < unat (tv_sec a)" by (simp add: word_less_nat_alt)
    have n: "unat (of_nat NS_PER_SEC + tv_nsec a - tv_nsec b) = NS_PER_SEC + unat (tv_nsec a) - unat (tv_nsec b)"
      using unat_borrow [of "tv_nsec a" "tv_nsec b"] True assms by (auto simp: ts_ok_def)
    have r: "ts_minus a b = LogTimeStamp (tv_sec a - 1 - tv_sec b) (of_nat NS_PER_SEC + tv_nsec a - tv_nsec b)"
      using gt True by (simp add: ts_minus_def del: NS_PER_SEC_def)
    from s obtain k where k: "unat (tv_sec a) = Suc (unat (tv_sec b) + k)"
      using less_iff_Suc_add by auto
    show ?thesis
      unfolding r ts_ns_def ts_ok_def LogTimeStamp.sel n unat_sub1_sub [OF sec]
      using True assms by (simp add: k word_less_nat_alt ts_ok_def) arith
  next
    case False
    then have "tv_sec b \<le> tv_sec a" "tv_nsec b \<le> tv_nsec a"
      using g by (auto simp: ts_gt_def)
    then have "unat (tv_sec a - tv_sec b) = unat (tv_sec a) - unat (tv_sec b)"
      "unat (tv_nsec a - tv_nsec b) = unat (tv_nsec a) - unat (tv_nsec b)"
      "unat (tv_sec b) \<le> unat (tv_sec a)" "unat (tv_nsec b) \<le> unat (tv_nsec a)"
      by (simp_all add: unat_sub word_le_nat_alt)
    then show ?thesis
      using gt False assms by (simp add: ts_minus_def ts_ns_def ts_ok_def diff_mult_distrib)
  qed
qed

theorem ts_minus_correct_witness:
  "ts_ok (LogTimeStamp 5 100) \<and> ts_ok (LogTimeStamp 3 200) \<and>
   ts_ns (ts_minus (LogTimeStamp 5 100) (LogTimeStamp 3 200)) = 1999999900"
  using ts_minus_correct [of "LogTimeStamp 5 100" "LogTimeStamp 3 200"]
  by (simp add: ts_ok_def ts_ns_def)

text \<open>
  \<open>operator +=\<close> is addition: on normalised stamps whose sum stays below \<open>2\<^sup>3\<^sup>2\<close> seconds
  the result has the sum of the nanoseconds and is normalised.
\<close>

theorem ts_plus_correct:
  assumes "ts_ok a" "ts_ok b" "unat (tv_sec a) + unat (tv_sec b) + 1 < 2 ^ 32"
  shows "ts_ns (ts_plus a b) = ts_ns a + ts_ns b \<and> ts_ok (ts_plus a b)"
proof -
  have n: "unat (tv_nsec a + tv_nsec b) = unat (tv_nsec a) + unat (tv_nsec b)"
    using assms(1,2) by (simp add: ts_ok_def unat_word_ariths)
  have s: "unat (tv_sec a + tv_sec b) = unat (tv_sec a) + unat (tv_sec b)"
    "unat (tv_sec a + 1 + tv_sec b) = Suc (unat (tv_sec a) + unat (tv_sec b))"
    using assms(3) by (simp_all add: unat_word_ariths)
  show ?thesis
  proof (cases "unat (tv_nsec a + tv_nsec b) \<ge> NS_PER_SEC")
    case True
    then have "(of_nat NS_PER_SEC :: u32) \<le> tv_nsec a + tv_nsec b"
      by (simp add: word_le_nat_alt)
    then have "unat (tv_nsec a + tv_nsec b - of_nat NS_PER_SEC) = unat (tv_nsec a + tv_nsec b) - NS_PER_SEC"
      by (simp add: unat_sub)
    then show ?thesis
      using True n s assms(1,2) by (simp add: ts_plus_def Let_def ts_ns_def ts_ok_def)
  next
    case False
    then show ?thesis
      using n s by (simp add: ts_plus_def Let_def ts_ns_def ts_ok_def)
  qed
qed

theorem ts_plus_correct_witness:
  "ts_ok (LogTimeStamp 5 999999999) \<and> ts_ok (LogTimeStamp 1 2) \<and>
   ts_ns (ts_plus (LogTimeStamp 5 999999999) (LogTimeStamp 1 2)) = 7000000001"
  using ts_plus_correct [of "LogTimeStamp 5 999999999" "LogTimeStamp 1 2"]
  by (simp add: ts_ok_def ts_ns_def)

end
