(* ===== verification/Kv_Map.thy ===== *)
theory Kv_Map
  imports Hilog_Common
begin

text \<open>
  The class template \<open>KVMap\<close> of \<open>log_utils.h\<close> and the constant tables built on it in
  \<open>log_utils.cpp\<close> and \<open>log_compress.cpp\<close>. A table is the list of its entries in the
  iteration order of the \<open>unordered_map\<close>; the locale \<open>kv_table\<close> states what a usable table
  promises (keys occur once, values are told apart by the comparison, the default key is no
  regular answer) and proves that lookups do not depend on the iteration order and are
  inverse to each other. Each table of the code is an interpretation of it.
\<close>

section \<open>The class template\<close>

record ('k, 'v) KVMap =
  str_map :: "('k \<times> 'v) list"
  def_key :: 'k
  def_value :: 'v
  compare :: "'v \<Rightarrow> 'v \<Rightarrow> bool"

definition GetValue :: "('k, 'v) KVMap \<Rightarrow> 'k \<Rightarrow> 'v" where
  "GetValue m key = (case map_of (str_map m) key of None \<Rightarrow> def_value m | Some v \<Rightarrow> v)"

definition GetKey :: "('k, 'v) KVMap \<Rightarrow> 'v \<Rightarrow> 'k" where
  "GetKey m value =
     (case find (\<lambda>it. compare m value (snd it)) (str_map m) of
        None \<Rightarrow> def_key m | Some it \<Rightarrow> fst it)"

definition GetAllKeys :: "('k, 'v) KVMap \<Rightarrow> 'k list" where
  "GetAllKeys m = map fst (str_map m)"

definition IsValidKey :: "('k, 'v) KVMap \<Rightarrow> 'k \<Rightarrow> bool" where
  "IsValidKey m key \<longleftrightarrow> key \<in> set (map fst (str_map m))"

lemmas kv_defs = GetValue_def GetKey_def GetAllKeys_def IsValidKey_def

section \<open>Case-insensitive comparison\<close>

definition tolower :: "char \<Rightarrow> char" where
  "tolower c = (if (65::nat) \<le> of_char c \<and> (of_char c :: nat) \<le> 90 then char_of ((of_char c :: nat) + 32) else c)"

lemma tolower_Char [simp, code]:
  "tolower (Char b0 b1 b2 b3 b4 b5 b6 b7) =
     Char b0 b1 b2 b3 b4
       (b5 \<or> (b6 \<and> \<not> b7 \<and> (b0 \<or> b1 \<or> b2 \<or> b3 \<or> b4) \<and> \<not> (b4 \<and> b3 \<and> (b2 \<or> b1 \<and> b0)))) b6 b7"
  by (cases b0; cases b1; cases b2; cases b3; cases b4; cases b5; cases b6; cases b7)
    (simp_all add: tolower_def char_of_def bit_0)

definition level_cmp :: "string \<Rightarrow> string \<Rightarrow> bool" where
  "level_cmp l1 l2 \<longleftrightarrow> length l1 = length l2 \<and> map tolower l1 = map tolower l2"

definition short_level_cmp :: "string \<Rightarrow> string \<Rightarrow> bool" where
  "short_level_cmp l1 l2 \<longleftrightarrow> length l1 = 1 \<and> map tolower l1 = map tolower (take 1 l2)"

section \<open>The tables\<close>

definition g_LogTypes :: "(nat, string) KVMap" where
  "g_LogTypes = \<lparr>str_map = [(LOG_INIT, ''init''), (LOG_CORE, ''core''), (LOG_APP, ''app''),
     (LOG_KMSG, ''kmsg''), (LOG_ONLY_PRERELEASE, ''only_prerelease'')],
     def_key = LOG_TYPE_MAX, def_value = ''invalid'', compare = (=)\<rparr>"

definition g_LogLevels :: "(nat, string) KVMap" where
  "g_LogLevels = \<lparr>str_map = [(LOG_DEBUG, ''DEBUG''), (LOG_INFO, ''INFO''), (LOG_WARN, ''WARN''),
     (LOG_ERROR, ''ERROR''), (LOG_FATAL, ''FATAL''), (LOG_LEVEL_MAX, ''X'')],
     def_key = LOG_LEVEL_MIN, def_value = ''INVALID'', compare = level_cmp\<rparr>"

definition g_ShortLogLevels :: "(nat, string) KVMap" where
  "g_ShortLogLevels = \<lparr>str_map = [(LOG_DEBUG, ''D''), (LOG_INFO, ''I''), (LOG_WARN, ''W''),
     (LOG_ERROR, ''E''), (LOG_FATAL, ''F''), (LOG_LEVEL_MAX, ''X'')],
     def_key = LOG_LEVEL_MIN, def_value = ''V'', compare = short_level_cmp\<rparr>"

definition g_SizeMap :: "(char, nat) KVMap" where
  "g_SizeMap = \<lparr>str_map = [(CHR ''B'', 1), (CHR ''K'', 2 ^ 10), (CHR ''M'', 2 ^ 20),
     (CHR ''G'', 2 ^ 30), (CHR ''T'', 2 ^ 40)],
     def_key = CHR '' '', def_value = 0, compare = (=)\<rparr>"

definition COMPRESS_TYPE_NONE :: nat where
  [simp]: "COMPRESS_TYPE_NONE = 0"

definition COMPRESS_TYPE_ZSTD :: nat where
  [simp]: "COMPRESS_TYPE_ZSTD = 1"

definition COMPRESS_TYPE_ZLIB :: nat where
  [simp]: "COMPRESS_TYPE_ZLIB = 2"

definition g_CompressTypes :: "(nat, string) KVMap" where
  "g_CompressTypes = \<lparr>str_map = [(COMPRESS_TYPE_NONE, ''none''), (COMPRESS_TYPE_ZLIB, ''zlib''),
     (COMPRESS_TYPE_ZSTD, ''zstd'')],
     def_key = COMPRESS_TYPE_ZLIB, def_value = ''unknown'', compare = (=)\<rparr>"

definition LogType2Str :: "nat \<Rightarrow> string" where
  "LogType2Str logType = GetValue g_LogTypes logType"

definition Str2LogType :: "string \<Rightarrow> nat" where
  "Str2LogType str = GetKey g_LogTypes str"

definition GetAllLogTypes :: "nat list" where
  "GetAllLogTypes = GetAllKeys g_LogTypes"

definition LogLevel2Str :: "nat \<Rightarrow> string" where
  "LogLevel2Str logLevel = GetValue g_LogLevels logLevel"

definition Str2LogLevel :: "string \<Rightarrow> nat" where
  "Str2LogLevel str = GetKey g_LogLevels str"

definition LogLevel2ShortStr :: "nat \<Rightarrow> string" where
  "LogLevel2ShortStr logLevel = GetValue g_ShortLogLevels logLevel"

definition ShortStr2LogLevel :: "string \<Rightarrow> nat" where
  "ShortStr2LogLevel str = GetKey g_ShortLogLevels str"

definition PrettyStr2LogLevel :: "string \<Rightarrow> nat" where
  "PrettyStr2LogLevel str =
     (let level = ShortStr2LogLevel str
      in if level = LOG_LEVEL_MIN then Str2LogLevel str else level)"

definition CompressType2Str :: "nat \<Rightarrow> string" where
  "CompressType2Str compressType = GetValue g_CompressTypes compressType"

definition Str2CompressType :: "string \<Rightarrow> nat" where
  "Str2CompressType str = GetKey g_CompressTypes str"

lemmas kv_table_defs = g_LogTypes_def g_LogLevels_def g_ShortLogLevels_def g_SizeMap_def
  g_CompressTypes_def

lemmas kv_api_defs = LogType2Str_def Str2LogType_def GetAllLogTypes_def LogLevel2Str_def
  Str2LogLevel_def LogLevel2ShortStr_def ShortStr2LogLevel_def CompressType2Str_def
  Str2CompressType_def

section \<open>What a table promises\<close>

locale kv_table =
  fixes m :: "('k, 'v) KVMap"
  assumes distinct_keys: "distinct (map fst (str_map m))"
    and compare_values: "\<lbrakk>(k, v) \<in> set (str_map m); (k', v') \<in> set (str_map m)\<rbrakk>
      \<Longrightarrow> compare m v v' \<longleftrightarrow> k = k'"
    and default_value: "(k, v) \<in> set (str_map m) \<Longrightarrow> \<not> compare m (def_value m) v"
    and compare_trans: "\<lbrakk>(k, v) \<in> set (str_map m); (k', v') \<in> set (str_map m);
      compare m x v; compare m x v'\<rbrakk> \<Longrightarrow> k = k'"
begin

lemma GetValue_valid: "(k, v) \<in> set (str_map m) \<Longrightarrow> GetValue m k = v"
  using distinct_keys by (simp add: GetValue_def map_of_eq_Some_iff [THEN iffD2])

lemma GetKey_matches:
  assumes "(k, v) \<in> set (str_map m)" "compare m x v"
  shows "GetKey m x = k"
proof -
  obtain it where it: "find (\<lambda>it. compare m x (snd it)) (str_map m) = Some it"
    using assms by (cases "find (\<lambda>it. compare m x (snd it)) (str_map m)")
      (auto simp: find_None_iff)
  then have "it \<in> set (str_map m)" "compare m x (snd it)"
    by (auto simp: find_Some_iff)
  then show ?thesis
    using it compare_trans [of k v "fst it" "snd it" x] assms by (simp add: GetKey_def)
qed

lemma GetKey_GetValue: "IsValidKey m k \<Longrightarrow> GetKey m (GetValue m k) = k"
  by (auto simp: IsValidKey_def GetValue_valid compare_values intro: GetKey_matches)

lemma GetKey_unmatched:
  "(\<And>k v. (k, v) \<in> set (str_map m) \<Longrightarrow> \<not> compare m x v) \<Longrightarrow> GetKey m x = def_key m"
proof -
  assume "\<And>k v. (k, v) \<in> set (str_map m) \<Longrightarrow> \<not> compare m x v"
  then have "find (\<lambda>it. compare m x (snd it)) (str_map m) = None"
    by (auto simp: find_None_iff)
  then show ?thesis by (simp add: GetKey_def)
qed

lemma GetKey_default: "GetKey m (def_value m) = def_key m"
  by (rule GetKey_unmatched) (rule default_value)

text \<open>The iteration order of the hash table is irrelevant for both directions.\<close>

lemma GetValue_order:
  assumes "set es = set (str_map m)" "distinct (map fst es)"
  shows "GetValue (m\<lparr>str_map := es\<rparr>) k = GetValue m k"
proof -
  have "map_of es = map_of (str_map m)"
    using assms distinct_keys by (metis map_of_inject_set)
  then show ?thesis by (simp add: GetValue_def split: option.split)
qed

lemma GetKey_order:
  assumes "set es = set (str_map m)"
  shows "GetKey (m\<lparr>str_map := es\<rparr>) x = GetKey m x"
proof (cases "\<exists>it \<in> set (str_map m). compare m x (snd it)")
  case True
  then obtain it where it: "it \<in> set es" "compare m x (snd it)" using assms by auto
  then obtain it' where it': "find (\<lambda>it. compare m x (snd it)) es = Some it'"
    by (metis find_None_iff not_None_eq)
  then have "it' \<in> set es" "compare m x (snd it')" by (auto simp: find_Some_iff)
  then have "GetKey m x = fst it'"
    using assms by (metis GetKey_matches prod.collapse)
  then show ?thesis using it' by (simp add: GetKey_def)
next
  case False
  then have "find (\<lambda>it. compare m x (snd it)) es = None"
    "find (\<lambda>it. compare m x (snd it)) (str_map m) = None"
    using assms by (auto simp: find_None_iff)
  then show ?thesis by (simp add: GetKey_def)
qed

end

lemma kv_table_eqI:
  assumes "distinct (map fst (str_map m))" "distinct (map snd (str_map m))"
    "def_value m \<notin> set (map snd (str_map m))" "compare m = (=)"
  shows "kv_table m"
proof
  show "distinct (map fst (str_map m))" by fact
  fix k v k' v' x
  assume kv: "(k, v) \<in> set (str_map m)"
  show "\<not> compare m (def_value m) v"
    using kv assms(3,4) by force
  assume kv': "(k', v') \<in> set (str_map m)"
  have inj: "v = v' \<Longrightarrow> k = k'"
    using assms(2) kv kv' by (force simp: distinct_map inj_on_def)
  show "compare m v v' \<longleftrightarrow> k = k'"
    using inj assms(1,4) kv kv' by (auto dest: eq_key_imp_eq_value)
  show "compare m x v \<Longrightarrow> compare m x v' \<Longrightarrow> k = k'"
    using inj assms(4) by simp
qed

interpretation log_types: kv_table g_LogTypes
  by (rule kv_table_eqI) (simp_all add: g_LogTypes_def)

interpretation size_map: kv_table g_SizeMap
  by (rule kv_table_eqI) (simp_all add: g_SizeMap_def)

interpretation compress_types: kv_table g_CompressTypes
  by (rule kv_table_eqI) (simp_all add: g_CompressTypes_def)

lemma level_cmp_trans: "level_cmp x v \<Longrightarrow> level_cmp x v' \<Longrightarrow> level_cmp v v'"
  by (simp add: level_cmp_def)

lemma level_entries_told_apart:
  "list_all (\<lambda>(k, v). list_all (\<lambda>(k', v'). level_cmp v v' \<longleftrightarrow> k = k') (str_map g_LogLevels) \<and>
     \<not> level_cmp (def_value g_LogLevels) v) (str_map g_LogLevels)"
  by code_simp

interpretation log_levels: kv_table g_LogLevels
proof
  show "distinct (map fst (str_map g_LogLevels))" by (simp add: g_LogLevels_def)
  fix k v k' v' x
  assume kv: "(k, v) \<in> set (str_map g_LogLevels)"
  have cmp: "compare g_LogLevels = level_cmp" by (simp add: g_LogLevels_def)
  show "\<not> compare g_LogLevels (def_value g_LogLevels) v"
    using level_entries_told_apart kv by (auto simp: list_all_iff cmp)
  assume kv': "(k', v') \<in> set (str_map g_LogLevels)"
  show eq: "compare g_LogLevels v v' \<longleftrightarrow> k = k'"
    using level_entries_told_apart kv kv' by (auto simp: list_all_iff cmp)
  show "compare g_LogLevels x v \<Longrightarrow> compare g_LogLevels x v' \<Longrightarrow> k = k'"
    using eq level_cmp_trans [of x v v'] by (simp add: cmp)
qed

lemma short_level_cmp_trans:
  "short_level_cmp x v \<Longrightarrow> short_level_cmp x v' \<Longrightarrow> length v = 1 \<Longrightarrow> short_level_cmp v v'"
  by (cases v) (auto simp: short_level_cmp_def)

lemma short_level_entries_told_apart:
  "list_all (\<lambda>(k, v). list_all (\<lambda>(k', v'). short_level_cmp v v' \<longleftrightarrow> k = k') (str_map g_ShortLogLevels) \<and>
     \<not> short_level_cmp (def_value g_ShortLogLevels) v \<and> length v = 1) (str_map g_ShortLogLevels)"
  by code_simp

interpretation short_log_levels: kv_table g_ShortLogLevels
proof
  show "distinct (map fst (str_map g_ShortLogLevels))" by (simp add: g_ShortLogLevels_def)
  fix k v k' v' x
  assume kv: "(k, v) \<in> set (str_map g_ShortLogLevels)"
  have cmp: "compare g_ShortLogLevels = short_level_cmp" by (simp add: g_ShortLogLevels_def)
  show "\<not> compare g_ShortLogLevels (def_value g_ShortLogLevels) v"
    using short_level_entries_told_apart kv by (auto simp: list_all_iff cmp)
  assume kv': "(k', v') \<in> set (str_map g_ShortLogLevels)"
  show eq: "compare g_ShortLogLevels v v' \<longleftrightarrow> k = k'"
    using short_level_entries_told_apart kv kv' by (auto simp: list_all_iff cmp)
  have "length v = 1" using short_level_entries_told_apart kv by (auto simp: list_all_iff)
  then show "compare g_ShortLogLevels x v \<Longrightarrow> compare g_ShortLogLevels x v' \<Longrightarrow> k = k'"
    using eq short_level_cmp_trans [of x v v'] by (simp add: cmp)
qed

end
