(* ===== verification/Log_Utils.thy ===== *)
theory Log_Utils
  imports Kv_Map
begin

text \<open>
  The helper functions of \<open>log_utils.cpp\<close>: splitting of argument lists, conversion between
  bit masks of log types or levels and their comma-separated names, bit counting, number
  formatting and parsing, sizes with units, the FNV-1a checksum of the persisted job
  descriptions, reading of \<open>/proc\<close> and the bounded wait.
\<close>

section \<open>Splitting\<close>

text \<open>
  \<open>Split\<close> with its default separator; every caller uses the one-character separator
  \<open>","\<close>, for which \<open>find_first_of\<close> and \<open>find\<close> agree.
\<close>

lemma length_after_sep: "c \<in> set s \<Longrightarrow> length (tl (dropWhile (\<lambda>x. x \<noteq> c) s)) < length s"
proof -
  assume "c \<in> set s"
  then have "dropWhile (\<lambda>x. x \<noteq> c) s \<noteq> []" by (auto simp: dropWhile_eq_Nil_conv)
  then show ?thesis
    using length_dropWhile_le [of "\<lambda>x. x \<noteq> c" s] by (cases "dropWhile (\<lambda>x. x \<noteq> c) s") auto
qed

function Split_loop :: "char \<Rightarrow> string \<Rightarrow> string list" where
  "Split_loop c s =
     (if c \<in> set s
      then takeWhile (\<lambda>x. x \<noteq> c) s # Split_loop c (tl (dropWhile (\<lambda>x. x \<noteq> c) s))
      else if s \<noteq> [] then [s] else [])"
  by pat_completeness auto

termination
  by (relation "measure (\<lambda>(c, s). length s)") (simp_all add: length_after_sep del: length_tl)

declare Split_loop.simps [simp del]

definition Split :: "char \<Rightarrow> string \<Rightarrow> string list" where
  "Split c src = (if c \<in> set src then Split_loop c src else [src])"

fun join_tokens :: "char \<Rightarrow> string list \<Rightarrow> string" where
  "join_tokens c [] = []"
| "join_tokens c [t] = t"
| "join_tokens c (t # ts) = t @ c # join_tokens c ts"

section \<open>Bit masks and names\<close>

definition COMMA :: char where
  [simp]: "COMMA = CHR '',''"

definition mask_bit :: "nat \<Rightarrow> u16" where
  "mask_bit t = push_bit t 1"

definition mask_all :: "nat list \<Rightarrow> u16" where
  "mask_all keys = foldl (\<lambda>m t. m OR mask_bit t) 0 keys"

fun Combo_loop :: "(nat \<Rightarrow> string) \<Rightarrow> nat list \<Rightarrow> u16 \<Rightarrow> string \<Rightarrow> string" where
  "Combo_loop name [] shift str = str"
| "Combo_loop name (t # ts) shift str =
     (let hit = mask_bit t AND shift \<noteq> 0;
          shift' = (if hit then shift AND NOT (mask_bit t) else shift);
          str' = (if hit then str @ name t @ (if shift' \<noteq> 0 then [COMMA] else []) else str)
      in if shift' = 0 then str' else Combo_loop name ts shift' str')"

text \<open>\<open>keys\<close> is the iteration order of the hash table, as returned by \<open>GetAllKeys\<close>.\<close>

definition ComboLogType2Str :: "nat list \<Rightarrow> u16 \<Rightarrow> string" where
  "ComboLogType2Str keys shiftType = Combo_loop LogType2Str keys (shiftType AND mask_all keys) []"

definition ComboLogLevel2Str :: "nat list \<Rightarrow> u16 \<Rightarrow> string" where
  "ComboLogLevel2Str keys shiftLevel = Combo_loop LogLevel2Str keys (shiftLevel AND mask_all keys) []"

fun Str2Combo_loop :: "(string \<Rightarrow> nat) \<Rightarrow> (nat \<Rightarrow> bool) \<Rightarrow> string list \<Rightarrow> u16 \<Rightarrow> u16" where
  "Str2Combo_loop parse bad [] acc = acc"
| "Str2Combo_loop parse bad (it # vec) acc =
     (if it = [] then Str2Combo_loop parse bad vec acc
      else let t = parse it
           in if bad t then 0 else Str2Combo_loop parse bad vec (acc OR mask_bit t))"

definition Str2ComboLogType :: "string \<Rightarrow> u16" where
  "Str2ComboLogType str =
     (if str = [] then mask_bit LOG_CORE OR mask_bit LOG_APP OR mask_bit LOG_ONLY_PRERELEASE
      else Str2Combo_loop Str2LogType (\<lambda>t. t = LOG_TYPE_MAX) (Split COMMA str) 0)"

definition Str2ComboLogLevel :: "string \<Rightarrow> u16" where
  "Str2ComboLogLevel str =
     (if str = [] then 0xFFFF
      else Str2Combo_loop PrettyStr2LogLevel (\<lambda>t. t = LOG_LEVEL_MIN \<or> t \<ge> LOG_LEVEL_MAX) (Split COMMA str) 0)"

section \<open>Counting bits\<close>

lemma and_pred_less: "n \<noteq> 0 \<Longrightarrow> unat (n AND (n - 1)) < unat (n :: u64)"
proof -
  assume n: "n \<noteq> 0"
  have "unat (n AND (n - 1)) \<le> unat (n - 1)"
    by (rule word_and_le1 [THEN word_le_nat_alt [THEN iffD1]])
  also have "\<dots> < unat n" using n unat_gt_0 [of n] by (simp add: unat_minus_one)
  finally show ?thesis .
qed

function GetBitsCount_loop :: "u64 \<Rightarrow> u32 \<Rightarrow> u32" where
  "GetBitsCount_loop n count = (if n \<noteq> 0 then GetBitsCount_loop (n AND (n - 1)) (count + 1) else count)"
  by pat_completeness auto

termination
  by (relation "measure (\<lambda>(n, count). unat n)") (auto simp: and_pred_less)

declare GetBitsCount_loop.simps [simp del]

definition GetBitsCount :: "u64 \<Rightarrow> u32" where
  "GetBitsCount n = GetBitsCount_loop n 0"

text \<open>
  \<open>while (n >> (i++)) {}\<close>: a shift by the width or more is undefined behaviour and has no value.
\<close>

function GetBitPos_loop :: "u64 \<Rightarrow> nat \<Rightarrow> nat option" where
  "GetBitPos_loop n i =
     (if i \<ge> 64 then None else if drop_bit i n \<noteq> 0 then GetBitPos_loop n (i + 1) else Some (i + 1))"
  by pat_completeness auto
termination
  by (relation "measure (\<lambda>(n, i). 64 - i)") auto

declare GetBitPos_loop.simps [simp del]

definition GetBitPos :: "u64 \<Rightarrow> nat option" where
  "GetBitPos n =
     (if \<not> (n \<noteq> 0 \<and> n AND (n - 1) = 0) then Some 0
      else map_option (\<lambda>i. i - 1 - 1) (GetBitPos_loop n 0))"

section \<open>Numbers\<close>

definition digit_char :: "nat \<Rightarrow> char" where
  "digit_char d = ''0123456789abcdef'' ! d"

text \<open>Formatting by \<open>operator <<\<close> with \<open>std::dec\<close> or \<open>std::hex\<close>.\<close>

fun Num2Str :: "nat \<Rightarrow> nat \<Rightarrow> string" where
  "Num2Str radix n =
     (if radix < 2 \<or> n < radix then [digit_char n]
      else Num2Str radix (n div radix) @ [digit_char (n mod radix)])"

declare Num2Str.simps [simp del]

definition digit_val :: "char \<Rightarrow> nat option" where
  "digit_val c = find (\<lambda>d. digit_char d = tolower c) [0..<16]"

definition is_digit :: "nat \<Rightarrow> char \<Rightarrow> bool" where
  "is_digit radix c = (case digit_val c of None \<Rightarrow> False | Some d \<Rightarrow> d < radix)"

definition digits_value :: "nat \<Rightarrow> string \<Rightarrow> nat" where
  "digits_value radix ds = foldl (\<lambda>acc c. radix * acc + the (digit_val c)) 0 ds"

definition isspace :: "char \<Rightarrow> bool" where
  "isspace c \<longleftrightarrow> c \<in> {CHR '' '', CHR 0x09, CHR 0x0A, CHR 0x0B, CHR 0x0C, CHR 0x0D}"

text \<open>
  Extraction of an \<open>uint32_t\<close> by \<open>operator >>\<close>: leading white space is skipped, a sign and
  in base 16 a prefix \<open>0x\<close> are accepted, the longest run of digits is read. No digit is a
  failure with value 0; a value that does not fit is a failure with the largest value; a
  minus sign negates modulo \<open>2\<^sup>3\<^sup>2\<close>.
\<close>

definition strip_sign :: "string \<Rightarrow> bool \<times> string" where
  "strip_sign s = (case s of
      c # cs \<Rightarrow> if c = CHR ''-'' then (True, cs) else if c = CHR ''+'' then (False, cs) else (False, s)
    | [] \<Rightarrow> (False, s))"

definition strip_0x :: "nat \<Rightarrow> string \<Rightarrow> string" where
  "strip_0x radix s = (case s of
      c # d # cs \<Rightarrow> if radix = 16 \<and> c = CHR ''0'' \<and> tolower d = CHR ''x'' then cs else s
    | _ \<Rightarrow> s)"

definition Str2Num :: "nat \<Rightarrow> string \<Rightarrow> u32 \<times> bool" where
  "Str2Num radix str =
     (let (neg, s) = strip_sign (dropWhile isspace str);
          ds = takeWhile (is_digit radix) (strip_0x radix s);
          v = digits_value radix ds
      in if ds = [] then (0, False)
         else if v \<ge> 2 ^ 32 then (- 1, False)
         else (if neg then - of_nat v else of_nat v, True))"

definition Uint2DecStr :: "u32 \<Rightarrow> string" where
  "Uint2DecStr i = Num2Str 10 (unat i)"

definition DecStr2Uint :: "string \<Rightarrow> u32 \<times> bool" where
  "DecStr2Uint str = Str2Num 10 str"

definition Uint2HexStr :: "u32 \<Rightarrow> string" where
  "Uint2HexStr i = Num2Str 16 (unat i)"

definition HexStr2Uint :: "string \<Rightarrow> u32 \<times> bool" where
  "HexStr2Uint str = Str2Num 16 str"

section \<open>Sizes\<close>

definition Size_unit :: "u64 \<Rightarrow> nat" where
  "Size_unit sz =
     (if unat sz < 2 ^ 10 then 1 else if unat sz < 2 ^ 20 then 2 ^ 10
      else if unat sz < 2 ^ 30 then 2 ^ 20 else if unat sz < 2 ^ 40 then 2 ^ 30 else 2 ^ 40)"

text \<open>
  \<open>%.1f\<close> of the single-precision quotient: the unit is a power of two, so the quotient is
  exact, and the decimal is rounded to nearest with ties to even.
\<close>

definition round_half_even :: "nat \<Rightarrow> nat \<Rightarrow> nat" where
  "round_half_even a b =
     (let q = a div b; r = a mod b
      in if 2 * r < b \<or> (2 * r = b \<and> even q) then q else q + 1)"

definition Size2Str :: "u64 \<Rightarrow> string" where
  "Size2Str sz =
     (let unit = Size_unit sz;
          tenths = round_half_even (10 * f32_round (unat sz)) unit
      in Num2Str 10 (tenths div 10) @ ''.'' @ Num2Str 10 (tenths mod 10) @ [GetKey g_SizeMap unit])"

text \<open>\<open>stoull\<close> throws \<open>std::out_of_range\<close> for a number of 64 bits or more.\<close>

datatype str_error = OutOfRange

definition is_size_str :: "string \<Rightarrow> bool" where
  "is_size_str str \<longleftrightarrow>
     (let ds = takeWhile (is_digit 10) str; us = dropWhile (is_digit 10) str
      in ds \<noteq> [] \<and> (us = [] \<or> (\<exists>u \<in> set ''BKMGT''. us = [u])))"

definition Str2Size :: "string \<Rightarrow> str_error + u64" where
  "Str2Size str =
     (if \<not> is_size_str str then Inr 0
      else let unit = GetValue g_SizeMap (last str);
               value = digits_value 10 (if unit \<noteq> 0 then butlast str else str)
           in if value \<ge> 2 ^ 64 then Inl OutOfRange
              else Inr (of_nat value * of_nat (if unit \<noteq> 0 then unit else 1)))"

section \<open>The checksum\<close>

text \<open>
  \<open>ret ^= *(p + i)\<close> widens a plain \<open>char\<close>: with sign extension on targets where \<open>char\<close> is
  signed, without elsewhere. The flag \<open>csigned\<close> selects the target.
\<close>

definition byte_ext :: "bool \<Rightarrow> char \<Rightarrow> u64" where
  "byte_ext csigned c = (if csigned then scast (of_char c :: u8) else ucast (of_char c :: u8))"

definition FNV_PRIME :: u64 where
  "FNV_PRIME = 0x100000001B3"

definition FNV_BASIS :: u64 where
  "FNV_BASIS = 0xCBF29CE484222325"

definition GenerateHash :: "bool \<Rightarrow> char list \<Rightarrow> u64" where
  "GenerateHash csigned p = foldl (\<lambda>ret c. (ret XOR byte_ext csigned c) * FNV_PRIME) FNV_BASIS p"

section \<open>Processes and waiting\<close>

text \<open>
  The content of \<open>/proc/<pid>/cmdline\<close> and \<open>/proc/<pid>/status\<close> is given by the functions
  \<open>cmdline\<close> and \<open>status\<close>; \<open>None\<close> is a file that cannot be opened.
\<close>

definition isgraph :: "char \<Rightarrow> bool" where
  "isgraph c \<longleftrightarrow> (33 :: nat) \<le> of_char c \<and> (of_char c :: nat) \<le> 126"

definition CMDLINE_LEN :: nat where
  [simp]: "CMDLINE_LEN = 128"

definition GetNameByPid :: "(u32 \<Rightarrow> string option) \<Rightarrow> u32 \<Rightarrow> string" where
  "GetNameByPid cmdline pid =
     (case cmdline pid of None \<Rightarrow> [] | Some f \<Rightarrow> take (CMDLINE_LEN - 1) (takeWhile isgraph f))"

definition STATUS_LEN :: nat where
  [simp]: "STATUS_LEN = 1024"

definition SH_NAMES :: "string list" where
  "SH_NAMES = [''sh'', ''/bin/sh'', ''/system/bin/sh'', ''/xbin/sh'', ''/system/xbin/sh'']"

text \<open>\<open>strstr\<close>: the rest of the string from the first occurrence on.\<close>

fun strstr :: "string \<Rightarrow> string \<Rightarrow> string option" where
  "strstr [] sub = (if sub = [] then Some [] else None)"
| "strstr (c # s) sub = (if take (length sub) (c # s) = sub then Some (c # s) else strstr s sub)"

text \<open>
  \<open>sscanf_s(ppidLoc, "PPid:%d", &ppid)\<close>: \<open>None\<close> is an input failure (end of string before a
  number, result \<open>-1\<close>); without a digit the variable keeps its value 0.
\<close>

definition scan_ppid :: "string \<Rightarrow> u32 option" where
  "scan_ppid loc =
     (let s = dropWhile isspace (drop (length ''PPid:'') loc);
          (neg, t) = strip_sign s;
          ds = takeWhile (is_digit 10) t;
          v = of_nat (digits_value 10 ds)
      in if s = [] then None
         else if ds = [] then Some 0
         else Some (if neg then - v else v))"

text \<open>
  One level of \<open>GetPPidByPid\<close>: the value of \<open>ppid\<close> and whether the parent is a shell, so
  that the search continues with the parent of the parent.
\<close>

definition GetPPidByPid_step :: "(u32 \<Rightarrow> string option) \<Rightarrow> (u32 \<Rightarrow> string option) \<Rightarrow> u32 \<Rightarrow> u32 \<times> bool" where
  "GetPPidByPid_step cmdline status pid =
     (case status pid of
        None \<Rightarrow> (0, False)
      | Some f \<Rightarrow>
          (let buf = take (STATUS_LEN - 1) f
           in if buf = [] then (0, False)
              else case strstr (c_str buf) ''PPid:'' of
                     None \<Rightarrow> (0, False)
                   | Some ppidLoc \<Rightarrow>
                       (case scan_ppid ppidLoc of
                          None \<Rightarrow> (0, False)
                        | Some ppid \<Rightarrow> (ppid, GetNameByPid cmdline ppid \<in> set SH_NAMES))))"

partial_function (option) GetPPidByPid ::
  "(u32 \<Rightarrow> string option) \<Rightarrow> (u32 \<Rightarrow> string option) \<Rightarrow> u32 \<Rightarrow> u32 option" where
  [code]: "GetPPidByPid cmdline status pid =
     (case GetPPidByPid_step cmdline status pid of
        (ppid, sh) \<Rightarrow> if sh then GetPPidByPid cmdline status ppid else Some ppid)"

text \<open>
  \<open>WaitingToDo\<close>: each attempt is the result of \<open>func\<close> and the time in nanoseconds that has
  passed when the loop looks at the clock after it; the code gives up once more than \<open>wait\<close>
  milliseconds have passed. \<open>None\<close> means that the listed attempts do not end the wait.
\<close>

fun WaitingToDo :: "int \<Rightarrow> (int \<times> int) list \<Rightarrow> int option" where
  "WaitingToDo wait [] = None"
| "WaitingToDo wait ((ret, elapsed) # attempts) =
     (if ret \<noteq> RET_FAIL then Some RET_SUCCESS
      else if elapsed > wait * 1000000 then Some RET_FAIL
      else WaitingToDo wait attempts)"

section \<open>Properties of splitting\<close>

lemma takeWhile_sep: "c \<notin> set t \<Longrightarrow> takeWhile (\<lambda>x. x \<noteq> c) (t @ c # r) = t"
  by (induction t) auto

lemma dropWhile_sep: "c \<notin> set t \<Longrightarrow> dropWhile (\<lambda>x. x \<noteq> c) (t @ c # r) = c # r"
  by (induction t) auto

lemma Split_loop_sep: "c \<notin> set t \<Longrightarrow> Split_loop c (t @ c # r) = t # Split_loop c r"
  by (subst Split_loop.simps) (simp add: takeWhile_sep dropWhile_sep)

lemma Split_loop_last: "c \<notin> set t \<Longrightarrow> t \<noteq> [] \<Longrightarrow> Split_loop c t = [t]"
  by (subst Split_loop.simps) simp

lemma Split_loop_join:
  "ts \<noteq> [] \<Longrightarrow> (\<And>t. t \<in> set ts \<Longrightarrow> c \<notin> set t) \<Longrightarrow> last ts \<noteq> [] \<Longrightarrow>
   Split_loop c (join_tokens c ts) = ts"
  by (induction c ts rule: join_tokens.induct) (auto simp: Split_loop_sep Split_loop_last)

lemma sep_in_join: "2 \<le> length ts \<Longrightarrow> c \<in> set (join_tokens c ts)"
  by (cases "(c, ts)" rule: join_tokens.cases) auto

lemma join_tokens_Nil_iff: "join_tokens c ts = [] \<longleftrightarrow> ts = [] \<or> ts = [[]]"
  by (cases "(c, ts)" rule: join_tokens.cases) auto

lemma Split_join:
  assumes "ts \<noteq> []" "\<And>t. t \<in> set ts \<Longrightarrow> c \<notin> set t" "last ts \<noteq> []"
  shows "Split c (join_tokens c ts) = ts"
proof (cases "2 \<le> length ts")
  case True
  then show ?thesis by (simp add: Split_def sep_in_join Split_loop_join assms)
next
  case False
  with assms(1) obtain t where "ts = [t]" by (cases ts rule: list.exhaust) (auto simp: Suc_le_eq)
  then show ?thesis using assms(2) by (simp add: Split_def)
qed

section \<open>Properties of masks\<close>

lemma bit_mask_bit: "t < 16 \<Longrightarrow> bit (mask_bit t) i \<longleftrightarrow> i = t"
  by (auto simp: mask_bit_def bit_exp_iff)

lemma word_0_iff_bits: "(w :: 'a::len word) = 0 \<longleftrightarrow> (\<forall>i. \<not> bit w i)"
  by (metis bit_eqI bit_0_eq bot_apply bot_bool_def)

lemma mask_bit_and: "t < 16 \<Longrightarrow> mask_bit t AND s \<noteq> 0 \<longleftrightarrow> bit s t"
  by (simp add: word_0_iff_bits bit_and_iff bit_mask_bit)

lemma bit_clear: "t < 16 \<Longrightarrow> bit (s AND NOT (mask_bit t)) i \<longleftrightarrow> bit s i \<and> i \<noteq> t"
  by (auto simp: bit_and_iff bit_not_iff bit_mask_bit dest: bit_imp_le_length)

lemma bit_foldl_mask:
  "(\<And>t. t \<in> set ks \<Longrightarrow> t < 16) \<Longrightarrow>
   bit (foldl (\<lambda>m t. m OR mask_bit t) acc ks) i \<longleftrightarrow> bit acc i \<or> i \<in> set ks"
  by (induction ks arbitrary: acc) (auto simp: bit_or_iff bit_mask_bit)

lemma bit_mask_all: "(\<And>t. t \<in> set ks \<Longrightarrow> t < 16) \<Longrightarrow> bit (mask_all ks) i \<longleftrightarrow> i \<in> set ks"
  by (simp add: mask_all_def bit_foldl_mask)

lemma join_tokens_Cons: "ts \<noteq> [] \<Longrightarrow> join_tokens c (t # ts) = t @ c # join_tokens c ts"
  by (cases ts) auto

lemma Combo_loop_join:
  assumes "distinct ks" "\<And>t. t \<in> set ks \<Longrightarrow> t < 16" "\<And>i. bit shift i \<Longrightarrow> i \<in> set ks"
  shows "Combo_loop name ks shift str = str @ join_tokens COMMA (map name (filter (bit shift) ks))"
  using assms
proof (induction ks arbitrary: shift str)
  case Nil
  then show ?case by simp
next
  case (Cons t ts)
  define shift' where "shift' = (if bit shift t then shift AND NOT (mask_bit t) else shift)"
  have b: "bit shift' i \<longleftrightarrow> bit shift i \<and> i \<noteq> t" for i
    using Cons.prems(2) by (auto simp: shift'_def bit_clear)
  have hits: "filter (bit shift') ts = filter (bit shift) ts"
    using Cons.prems(1) by (intro filter_cong) (auto simp: b)
  have z: "shift' = 0 \<longleftrightarrow> filter (bit shift) ts = []"
    using Cons.prems(1,3) by (auto simp: word_0_iff_bits b filter_empty_conv)
  have IH: "Combo_loop name ts shift' str' = str' @ join_tokens COMMA (map name (filter (bit shift) ts))" for str'
  proof -
    have "Combo_loop name ts shift' str' = str' @ join_tokens COMMA (map name (filter (bit shift') ts))"
      using Cons.prems by (intro Cons.IH) (auto simp: b)
    then show ?thesis by (simp only: hits)
  qed
  show ?case
  proof (cases "bit shift t")
    case True
    then show ?thesis
      using IH z Cons.prems(2) by (auto simp: Let_def mask_bit_and shift'_def join_tokens_Cons)
  next
    case False
    then show ?thesis
      using IH z Cons.prems(2) by (auto simp: Let_def mask_bit_and shift'_def)
  qed
qed

lemma Str2Combo_loop_names:
  assumes "\<And>t. t \<in> set ks \<Longrightarrow> t < 16 \<and> name t \<noteq> [] \<and> parse (name t) = t \<and> \<not> bad t"
  shows "Str2Combo_loop parse bad (map name ks) acc = foldl (\<lambda>m t. m OR mask_bit t) acc ks"
  using assms by (induction ks arbitrary: acc) auto

lemma combo_roundtrip:
  assumes "distinct ks" "shift AND mask_all ks \<noteq> 0"
    and ks: "\<And>t. t \<in> set ks \<Longrightarrow> t < 16"
    and names: "\<And>t. t \<in> set ks \<Longrightarrow> bit shift t \<Longrightarrow> name t \<noteq> [] \<and> COMMA \<notin> set (name t) \<and> parse (name t) = t \<and> \<not> bad t"
  defines "s \<equiv> Combo_loop name ks (shift AND mask_all ks) []"
  shows "s \<noteq> [] \<and> Str2Combo_loop parse bad (Split COMMA s) 0 = shift AND mask_all ks"
proof -
  let ?hits = "filter (bit shift) ks"
  have m: "bit (shift AND mask_all ks) i \<longleftrightarrow> bit shift i \<and> i \<in> set ks" for i
    using ks by (simp add: bit_and_iff bit_mask_all)
  have f: "filter (bit (shift AND mask_all ks)) ks = ?hits"
    by (intro filter_cong) (auto simp: m)
  have s: "s = join_tokens COMMA (map name ?hits)"
    unfolding s_def using Combo_loop_join [OF assms(1) ks, of "shift AND mask_all ks" name "[]"] by (simp add: m f)
  have ne: "?hits \<noteq> []"
    using assms(2) by (auto simp: word_0_iff_bits m filter_empty_conv)
  have split: "Split COMMA s = map name ?hits"
    unfolding s using names ne by (intro Split_join) (auto simp: last_map dest!: last_in_set)
  have "Str2Combo_loop parse bad (map name ?hits) 0 = foldl (\<lambda>m t. m OR mask_bit t) 0 ?hits"
    using names ks by (intro Str2Combo_loop_names) auto
  also have "\<dots> = shift AND mask_all ks"
  proof (rule bit_word_eqI)
    fix i
    show "bit (foldl (\<lambda>m t. m OR mask_bit t) 0 ?hits) i = bit (shift AND mask_all ks) i"
      using bit_foldl_mask [of ?hits 0 i] ks by (auto simp: m)
  qed
  finally have "Str2Combo_loop parse bad (Split COMMA s) 0 = shift AND mask_all ks"
    by (simp only: split)
  moreover have "s \<noteq> []"
  proof -
    have "name t \<noteq> []" if "t \<in> set ?hits" for t
      using that names by auto
    then have "[] \<notin> set (map name ?hits)" by (metis (no_types, lifting) image_iff set_map)
    then show ?thesis using ne by (auto simp: s join_tokens_Nil_iff simp del: set_map)
  qed
  ultimately show ?thesis by blast
qed

lemma LogType_keys:
  "t \<in> set GetAllLogTypes \<Longrightarrow>
     t < 16 \<and> LogType2Str t \<noteq> [] \<and> COMMA \<notin> set (LogType2Str t) \<and> Str2LogType (LogType2Str t) = t \<and> t \<noteq> LOG_TYPE_MAX"
proof -
  have "list_all (\<lambda>t. t < 16 \<and> LogType2Str t \<noteq> [] \<and> COMMA \<notin> set (LogType2Str t) \<and>
      Str2LogType (LogType2Str t) = t \<and> t \<noteq> LOG_TYPE_MAX) GetAllLogTypes"
    by code_simp
  then show "t \<in> set GetAllLogTypes \<Longrightarrow> ?thesis" by (simp add: list_all_iff)
qed

lemma LogLevel_keys:
  "t \<in> set (GetAllKeys g_ShortLogLevels) \<Longrightarrow>
     t < 16 \<and> LogLevel2Str t \<noteq> [] \<and> COMMA \<notin> set (LogLevel2Str t) \<and>
     PrettyStr2LogLevel (LogLevel2Str t) = t \<and> (t = LOG_LEVEL_MAX \<or> (LOG_LEVEL_MIN < t \<and> t < LOG_LEVEL_MAX))"
proof -
  have "list_all (\<lambda>t. t < 16 \<and> LogLevel2Str t \<noteq> [] \<and> COMMA \<notin> set (LogLevel2Str t) \<and>
      PrettyStr2LogLevel (LogLevel2Str t) = t \<and> (t = LOG_LEVEL_MAX \<or> (LOG_LEVEL_MIN < t \<and> t < LOG_LEVEL_MAX)))
      (GetAllKeys g_ShortLogLevels)"
    by code_simp
  then show "t \<in> set (GetAllKeys g_ShortLogLevels) \<Longrightarrow> ?thesis" by (simp add: list_all_iff)
qed

text \<open>
  C21: For every iteration order of the type table, the comma-separated name of a mask that
  contains at least one known type parses back to exactly the known types of the mask.
\<close>

theorem ComboLogType_roundtrip:
  assumes "set keys = set GetAllLogTypes" "distinct keys" "shiftType AND mask_all keys \<noteq> 0"
  shows "Str2ComboLogType (ComboLogType2Str keys shiftType) = shiftType AND mask_all keys"
  using combo_roundtrip [of keys shiftType LogType2Str Str2LogType "\<lambda>t. t = LOG_TYPE_MAX"] assms LogType_keys
  by (auto simp: Str2ComboLogType_def ComboLogType2Str_def)

theorem ComboLogType_roundtrip_witness:
  "Str2ComboLogType (ComboLogType2Str [5, 4, 0, 3, 1] 0x1FF) = 0x3B"
proof -
  have "set [5, 4, 0, 3, 1] = set GetAllLogTypes" "distinct [5, 4, 0, 3, 1 :: nat]"
    "(0x1FF :: u16) AND mask_all [5, 4, 0, 3, 1] = 0x3B"
    by code_simp+
  then show ?thesis
    using ComboLogType_roundtrip [of "[5, 4, 0, 3, 1]" "0x1FF"] by simp
qed

text \<open>
  The same holds for level masks that do not contain the pseudo level \<open>LOG_LEVEL_MAX\<close>,
  whose name \<open>X\<close> the parser rejects.
\<close>

theorem ComboLogLevel_roundtrip:
  assumes "set keys = set (GetAllKeys g_ShortLogLevels)" "distinct keys"
    and "shiftLevel AND mask_all keys \<noteq> 0" "\<not> bit shiftLevel LOG_LEVEL_MAX"
  shows "Str2ComboLogLevel (ComboLogLevel2Str keys shiftLevel) = shiftLevel AND mask_all keys"
proof -
  have "name \<noteq> [] \<and> COMMA \<notin> set name \<and> PrettyStr2LogLevel name = t \<and> \<not> (t = LOG_LEVEL_MIN \<or> t \<ge> LOG_LEVEL_MAX)"
    if "t \<in> set keys" "bit shiftLevel t" "name = LogLevel2Str t" for t name
    using LogLevel_keys [of t] that assms(1,4) by auto
  then show ?thesis
    using combo_roundtrip [of keys shiftLevel LogLevel2Str PrettyStr2LogLevel
        "\<lambda>t. t = LOG_LEVEL_MIN \<or> t \<ge> LOG_LEVEL_MAX"] assms(1-3) LogLevel_keys
    by (simp add: Str2ComboLogLevel_def ComboLogLevel2Str_def)
qed

theorem ComboLogLevel_roundtrip_witness:
  "Str2ComboLogLevel (ComboLogLevel2Str [8, 7, 3, 4, 6, 5] 0xFE50) = 0x50"
proof -
  have "set [8, 7, 3, 4, 6, 5] = set (GetAllKeys g_ShortLogLevels)" "distinct [8, 7, 3, 4, 6, 5 :: nat]"
    "(0xFE50 :: u16) AND mask_all [8, 7, 3, 4, 6, 5] = 0x50" "\<not> bit (0xFE50 :: u16) LOG_LEVEL_MAX"
    by code_simp+
  then show ?thesis
    using ComboLogLevel_roundtrip [of "[8, 7, 3, 4, 6, 5]" "0xFE50"] by simp
qed

section \<open>Properties of the numbers\<close>

lemma digit_chars:
  "d < 16 \<Longrightarrow> digit_val (digit_char d) = Some d \<and> \<not> isspace (digit_char d) \<and>
     digit_char d \<noteq> CHR ''-'' \<and> digit_char d \<noteq> CHR ''+'' \<and> tolower (digit_char d) \<noteq> CHR ''x''"
proof -
  have "list_all (\<lambda>d. digit_val (digit_char d) = Some d \<and> \<not> isspace (digit_char d) \<and>
     digit_char d \<noteq> CHR ''-'' \<and> digit_char d \<noteq> CHR ''+'' \<and> tolower (digit_char d) \<noteq> CHR ''x'') [0..<16]"
    by code_simp
  then show "d < 16 \<Longrightarrow> ?thesis" by (auto simp: list_all_iff)
qed

lemma is_digit_digit_char: "d < radix \<Longrightarrow> radix \<le> 16 \<Longrightarrow> is_digit radix (digit_char d)"
  using digit_chars [of d] by (simp add: is_digit_def)

lemma Num2Str_nonempty [simp]: "Num2Str radix n \<noteq> []"
  by (subst Num2Str.simps) simp

lemma Num2Str_digits:
  "2 \<le> radix \<Longrightarrow> radix \<le> 16 \<Longrightarrow> c \<in> set (Num2Str radix n) \<Longrightarrow> \<exists>d < radix. c = digit_char d"
proof (induction radix n rule: Num2Str.induct)
  case (1 radix n)
  show ?case
  proof (cases "n < radix")
    case True
    then show ?thesis using 1(4) by (subst (asm) Num2Str.simps) auto
  next
    case False
    then have "c \<in> set (Num2Str radix (n div radix)) \<or> c = digit_char (n mod radix)"
      using 1(2,4) by (subst (asm) Num2Str.simps) auto
    then show ?thesis
      using 1(1) [OF _ 1(2,3)] False 1(2) by (metis gr0I leD mod_less_divisor not_numeral_le_zero)
  qed
qed

lemma digits_value_snoc: "digits_value radix (ds @ [c]) = radix * digits_value radix ds + the (digit_val c)"
  by (simp add: digits_value_def)

lemma digits_value_Num2Str: "2 \<le> radix \<Longrightarrow> radix \<le> 16 \<Longrightarrow> digits_value radix (Num2Str radix n) = n"
proof (induction radix n rule: Num2Str.induct)
  case (1 radix n)
  show ?case
  proof (cases "n < radix")
    case True
    then have "Num2Str radix n = [] @ [digit_char n]" by (subst Num2Str.simps) simp
    then show ?thesis
      using True 1(3) digit_chars [of n] by (simp only: digits_value_snoc) (simp add: digits_value_def)
  next
    case False
    then have "Num2Str radix n = Num2Str radix (n div radix) @ [digit_char (n mod radix)]"
      using 1(2) by (subst Num2Str.simps) simp
    moreover have "n mod radix < 16" using 1(2,3) by (metis gr0I less_le_trans mod_less_divisor not_numeral_le_zero)
    ultimately show ?thesis
      using 1 False digit_chars [of "n mod radix"] by (simp add: digits_value_snoc)
  qed
qed

lemma Str2Num_Num2Str:
  assumes "2 \<le> radix" "radix \<le> 16" "n < 2 ^ 32"
  shows "Str2Num radix (Num2Str radix n) = (of_nat n, True)"
proof -
  let ?s = "Num2Str radix n"
  have d: "\<exists>d < 16. c = digit_char d" if "c \<in> set ?s" for c
    using Num2Str_digits [OF assms(1,2) that] assms(2) by force
  obtain c cs where s: "?s = c # cs" by (cases ?s) simp_all
  have c: "\<not> isspace c" "c \<noteq> CHR ''-''" "c \<noteq> CHR ''+''"
    using d [of c] digit_chars by (auto simp: s)
  have "tolower x \<noteq> CHR ''x''" if "x \<in> set (c # cs)" for x
    using d [of x] digit_chars that by (auto simp: s)
  then have "strip_0x radix ?s = ?s"
    by (simp add: strip_0x_def s split: list.split)
  moreover have "takeWhile (is_digit radix) ?s = ?s"
    using Num2Str_digits [OF assms(1,2)] is_digit_digit_char assms(2)
    by (auto simp: takeWhile_eq_all_conv)
  moreover have "strip_sign (dropWhile isspace ?s) = (False, ?s)"
    using c by (simp add: s strip_sign_def)
  ultimately show ?thesis
    using assms by (simp add: Str2Num_def digits_value_Num2Str Let_def del: takeWhile_eq_all_conv)
qed

text \<open>
  Decimal and hexadecimal formatting of any 32-bit number is undone by the parsers, which
  report success.
\<close>

theorem number_roundtrip:
  "DecStr2Uint (Uint2DecStr i) = (i, True) \<and> HexStr2Uint (Uint2HexStr i) = (i, True)"
proof -
  have "unat i < 2 ^ 32" using unsigned_less [of i] by simp
  then show ?thesis
    by (simp add: DecStr2Uint_def Uint2DecStr_def HexStr2Uint_def Uint2HexStr_def Str2Num_Num2Str)
qed

section \<open>Properties of the sizes\<close>

lemma size_units: "(u, unit) \<in> set (str_map g_SizeMap) \<Longrightarrow>
   \<not> is_digit 10 u \<and> u \<in> set ''BKMGT'' \<and> unit \<noteq> 0 \<and> GetValue g_SizeMap u = unit"
proof -
  have "list_all (\<lambda>u. \<not> is_digit 10 u) ''BKMGT''"
    by code_simp
  moreover have "(u, unit) \<in> set (str_map g_SizeMap) \<Longrightarrow> u \<in> set ''BKMGT'' \<and> unit \<noteq> 0"
    by (auto simp: g_SizeMap_def)
  ultimately show "(u, unit) \<in> set (str_map g_SizeMap) \<Longrightarrow> ?thesis"
    using size_map.GetValue_valid [of u unit] by (simp only: list_all_iff) blast
qed

text \<open>
  A number followed by a unit letter parses to the number times the unit.
\<close>

theorem Str2Size_correct:
  assumes "n < 2 ^ 64" "(u, unit) \<in> set (str_map g_SizeMap)"
  shows "Str2Size (Num2Str 10 n @ [u]) = Inr (of_nat (n * unit))"
proof -
  have d: "\<forall>c \<in> set (Num2Str 10 n). is_digit 10 c"
    using Num2Str_digits [of 10] is_digit_digit_char [of _ 10] by auto
  have u: "\<not> is_digit 10 u" "u \<in> set ''BKMGT''" "GetValue g_SizeMap u = unit" "unit \<noteq> 0"
    using size_units [OF assms(2)] by auto
  have "is_size_str (Num2Str 10 n @ [u])"
    using d u(1,2) by (simp add: is_size_str_def Let_def takeWhile_append2 dropWhile_append2)
  then show ?thesis
    using assms(1) u(3,4) by (simp add: Str2Size_def digits_value_Num2Str)
qed

theorem Str2Size_correct_witness: "Str2Size ''16M'' = Inr 16777216"
proof -
  have "(CHR ''M'', 2 ^ 20) \<in> set (str_map g_SizeMap)" by (simp add: g_SizeMap_def)
  then have "Str2Size (Num2Str 10 16 @ [CHR ''M'']) = Inr (of_nat (16 * 2 ^ 20))"
    using Str2Size_correct [of 16 "CHR ''M''" "2 ^ 20"] by simp
  moreover have "Num2Str 10 16 = ''16''" by code_simp
  ultimately show ?thesis by simp
qed

section \<open>Properties of the bit operations\<close>

lemma bits_nat_rec: "{i. bit (n :: nat) i} = (if odd n then {0} else {}) \<union> Suc ` {i. bit (n div 2) i}"
  (is "?l = ?r")
proof
  show "?l \<subseteq> ?r"
  proof
    fix i assume "i \<in> ?l"
    then show "i \<in> ?r" by (cases i) (auto simp: bit_0 bit_Suc)
  qed
  show "?r \<subseteq> ?l" by (auto simp: bit_0 bit_Suc)
qed

lemma finite_bits_nat: "finite {i. bit (n :: nat) i}"
proof (induction n rule: less_induct)
  case (less n)
  then show ?case by (cases "n = 0") (simp, subst bits_nat_rec, simp)
qed

lemma card_bits_nat: "card {i. bit (n :: nat) i} = of_bool (odd n) + card {i. bit (n div 2) i}"
  using finite_bits_nat [of "n div 2"]
  by (subst bits_nat_rec) (auto simp: card_insert_disjoint card_image)

lemma card_clear_lowest: "0 < n \<Longrightarrow> Suc (card {i. bit (n AND (n - 1) :: nat) i}) = card {i. bit n i}"
proof (induction n rule: less_induct)
  case (less n)
  show ?case
  proof (cases "odd n")
    case True
    then obtain k where k: "n = 2 * k + 1" by (auto elim: oddE)
    have "n AND (n - 1) = 2 * k" by (subst and_nat_rec) (simp add: k)
    then show ?thesis
      using card_bits_nat [of n] card_bits_nat [of "2 * k"] by (simp add: k)
  next
    case False
    then obtain k where k: "n = 2 * k" "0 < k" using less.prems by (auto elim!: evenE)
    have "2 * k - 1 = 2 * (k - 1) + 1" using k by simp
    then have "n AND (n - 1) = 2 * (k AND (k - 1))"
      using k by (subst and_nat_rec) (simp add: k)
    then show ?thesis
      using less.IH [of k] k card_bits_nat [of n] card_bits_nat [of "2 * (k AND (k - 1))"] by simp
  qed
qed

lemma bits_unat: "{i. bit (unat n) i} = {i. bit (n :: u64) i}"
  by (auto simp: bit_unsigned_iff)

lemma card_clear_lowest_word: "n \<noteq> 0 \<Longrightarrow> Suc (card {i. bit (n AND (n - 1) :: u64) i}) = card {i. bit n i}"
proof -
  assume n: "n \<noteq> 0"
  have "unat (n AND (n - 1)) = unat n AND (unat n - 1)"
    using n by (simp add: unsigned_and_eq unat_minus_one)
  then show ?thesis
    using card_clear_lowest [of "unat n"] n bits_unat by (metis unat_gt_0)
qed

lemma GetBitsCount_loop_card: "GetBitsCount_loop n count = count + of_nat (card {i. bit n i})"
proof (induction n count rule: GetBitsCount_loop.induct)
  case (1 n count)
  then show ?case
    using card_clear_lowest_word [of n, symmetric]
    by (subst GetBitsCount_loop.simps) (auto simp: bot_fun_def)
qed

text \<open>
  \<open>GetBitsCount\<close>, which clears the lowest set bit until none is left, returns the number
  of set bits of its argument.
\<close>

theorem GetBitsCount_card: "unat (GetBitsCount n) = card {i. bit n i}"
proof -
  have "{i. bit n i} \<subseteq> {..<64}" using bit_imp_le_length [of n] by auto
  then have "card {i. bit n i} \<le> 64" using card_mono [of "{..<64::nat}"] by fastforce
  then show ?thesis by (simp add: GetBitsCount_def GetBitsCount_loop_card unat_of_nat)
qed

lemma GetBitPos_loop_pow2: "k < 63 \<Longrightarrow> i \<le> k + 1 \<Longrightarrow> GetBitPos_loop (2 ^ k) i = Some (k + 2)"
proof (induction "k + 1 - i" arbitrary: i)
  case 0
  then have "i = k + 1" by simp
  moreover have "drop_bit (k + 1) (2 ^ k :: u64) = 0"
    by (rule bit_word_eqI) (auto simp: bit_drop_bit_eq bit_exp_iff)
  ultimately show ?case using 0 by (subst GetBitPos_loop.simps) simp
next
  case (Suc d)
  have "drop_bit i (2 ^ k :: u64) = 2 ^ (k - i)"
    using Suc by (intro bit_word_eqI) (auto simp: bit_drop_bit_eq bit_exp_iff)
  moreover have "(2 :: u64) ^ (k - i) \<noteq> 0" using Suc.prems by (simp add: exp_eq_zero_iff)
  ultimately have "drop_bit i (2 ^ k :: u64) \<noteq> 0" by metis
  then have "GetBitPos_loop (2 ^ k) i = GetBitPos_loop (2 ^ k) (i + 1)"
    using Suc by (subst GetBitPos_loop.simps) simp
  then show ?case using Suc by simp
qed

text \<open>
  \<open>GetBitPos\<close> returns the exponent of every power of two up to \<open>2\<^sup>6\<^sup>2\<close>.
\<close>

theorem GetBitPos_pow2: "k < 63 \<Longrightarrow> GetBitPos (2 ^ k) = Some k"
proof -
  assume k: "k < 63"
  then have "(2 :: u64) ^ k \<noteq> 0" by (simp add: exp_eq_zero_iff)
  moreover have "(2 :: u64) ^ k AND (2 ^ k - 1) = 0"
    by (rule bit_word_eqI) (auto simp: bit_and_iff bit_exp_iff simp flip: mask_eq_exp_minus_1 simp: bit_mask_iff)
  ultimately show ?thesis using k GetBitPos_loop_pow2 [of k 0] by (simp add: GetBitPos_def)
qed

theorem GetBitPos_pow2_witness: "(40 :: nat) < 63 \<and> GetBitPos 0x10000000000 = Some 40"
  using GetBitPos_pow2 [of 40] by simp

section \<open>Properties of the checksum\<close>

lemma of_char_u8_inj: "(of_char a :: u8) = of_char b \<longleftrightarrow> a = b"
proof
  assume "(of_char a :: u8) = of_char b"
  then have "unat (of_nat (of_char a) :: u8) = unat (of_nat (of_char b) :: u8)"
    by (simp add: of_nat_of_char)
  moreover have "(of_char a :: nat) < 256" "(of_char b :: nat) < 256"
    by simp_all
  ultimately show "a = b" by (simp add: unat_of_nat)
qed simp

lemma byte_ext_inj: "byte_ext csigned a = byte_ext csigned b \<longleftrightarrow> a = b"
proof -
  have s: "ucast (scast x :: u64) = x" for x :: u8
  proof (rule bit_word_eqI)
    fix n assume n: "n < LENGTH(8)"
    then have "min n 7 = n" by auto
    then show "bit (ucast (scast x :: u64) :: u8) n = bit x n"
      using n by (auto simp: bit_unsigned_iff bit_signed_iff)
  qed
  have u: "ucast (ucast x :: u64) = x" for x :: u8
    by (rule bit_word_eqI) (auto simp: bit_unsigned_iff)
  have "ucast (byte_ext csigned c) = (of_char c :: u8)" for c
    by (simp add: byte_ext_def s u)
  then show ?thesis by (metis of_char_u8_inj)
qed

lemma FNV_PRIME_inverse: "FNV_PRIME * 0xCE965057AFF6957B = 1"
  by (simp add: FNV_PRIME_def)

lemma times_FNV_PRIME_inj: "x * FNV_PRIME = y * FNV_PRIME \<longleftrightarrow> x = y"
proof
  assume "x * FNV_PRIME = y * FNV_PRIME"
  then have "x * FNV_PRIME * 0xCE965057AFF6957B = y * FNV_PRIME * 0xCE965057AFF6957B"
    by (rule arg_cong)
  then show "x = y" by (simp only: mult.assoc FNV_PRIME_inverse mult_1_right)
qed simp

lemma xor_cancel: "x XOR e = y XOR e \<longleftrightarrow> x = (y :: u64)"
proof
  assume "x XOR e = y XOR e"
  then have "(x XOR e) XOR e = (y XOR e) XOR e" by simp
  then show "x = y" by (simp add: xor.assoc)
qed simp

lemma hash_step_inj:
  "foldl (\<lambda>ret c. (ret XOR byte_ext csigned c) * FNV_PRIME) x q =
   foldl (\<lambda>ret c. (ret XOR byte_ext csigned c) * FNV_PRIME) y q \<longleftrightarrow> x = y"
proof (induction q arbitrary: x y)
  case (Cons c q)
  then show ?case by (simp add: times_FNV_PRIME_inj xor_cancel)
qed simp

text \<open>
  The checksum of two buffers that differ in one byte is different, on targets with signed
  and with unsigned \<open>char\<close>.
\<close>

theorem GenerateHash_single_byte:
  "GenerateHash csigned (p @ a # q) = GenerateHash csigned (p @ b # q) \<longleftrightarrow> a = b"
  by (simp add: GenerateHash_def hash_step_inj times_FNV_PRIME_inj xor_cancel byte_ext_inj xor.commute [of "foldl f x p" for f x])

section \<open>Properties of the process lookup\<close>

text \<open>
  C22: When the chain of shells above a process is finite, \<open>GetPPidByPid\<close> returns, and the
  process it returns is not one of the known shells (or is 0, the answer for unreadable data).
\<close>

theorem GetPPidByPid_terminates:
  assumes "\<And>p q. GetPPidByPid_step cmdline status p = (q, True) \<Longrightarrow> rank q < (rank p :: nat)"
  shows "\<exists>ppid. GetPPidByPid cmdline status pid = Some ppid \<and>
    (ppid = 0 \<or> GetNameByPid cmdline ppid \<notin> set SH_NAMES)"
proof (induction "rank pid" arbitrary: pid rule: less_induct)
  case less
  obtain q sh where st: "GetPPidByPid_step cmdline status pid = (q, sh)" by fastforce
  show ?case
  proof (cases sh)
    case True
    then have "GetPPidByPid cmdline status pid = GetPPidByPid cmdline status q"
      using st by (subst GetPPidByPid.simps) simp
    then show ?thesis using less [of q] assms st True by simp
  next
    case False
    then have "GetPPidByPid cmdline status pid = Some q"
      using st by (subst GetPPidByPid.simps) simp
    moreover have "q = 0 \<or> GetNameByPid cmdline q \<notin> set SH_NAMES"
      using st False by (auto simp: GetPPidByPid_step_def Let_def split: option.splits if_splits)
    ultimately show ?thesis by simp
  qed
qed

definition demo_cmdline :: "u32 \<Rightarrow> string option" where
  "demo_cmdline p = (if p = 7 then Some (''sh'' @ [NUL]) else if p = 3 then Some (''hdcd'' @ [NUL]) else None)"

definition demo_status :: "u32 \<Rightarrow> string option" where
  "demo_status p = (if p = 9 then Some ''PPid: 7'' else if p = 7 then Some ''PPid: 3'' else None)"

lemma demo_steps:
  "GetPPidByPid_step demo_cmdline demo_status 9 = (7, True)"
  "GetPPidByPid_step demo_cmdline demo_status 7 = (3, False)"
  by code_simp+

theorem GetPPidByPid_terminates_witness:
  "\<exists>ppid. GetPPidByPid demo_cmdline demo_status 9 = Some ppid \<and>
    (ppid = 0 \<or> GetNameByPid demo_cmdline ppid \<notin> set SH_NAMES)"
proof (rule GetPPidByPid_terminates [where rank = unat])
  fix p q assume st: "GetPPidByPid_step demo_cmdline demo_status p = (q, True)"
  have "p = 9 \<or> p = 7"
    using st by (auto simp: GetPPidByPid_step_def demo_status_def split: if_splits)
  then show "unat q < unat p" using st demo_steps by auto
qed

end
