(* ===== verification/Log_Domains.thy ===== *)
theory Log_Domains
  imports Kv_Map
begin

text \<open>
  The table of registered OS domains and the check of a message's domain of
  \<open>log_domains.cpp\<close>.
\<close>

section \<open>The table and the check\<close>

definition g_DomainList :: "(u32, string) KVMap" where
  "g_DomainList = \<lparr>str_map = [
    (0xD000100, ''Bluetooth''), (0xD000300, ''NFC''), (0xD000500, ''Basic applications''),
    (0xD000F00, ''For test using''), (0xD001100, ''AppExecFwk''), (0xD001200, ''Notification''),
    (0xD001300, ''AAFwk''), (0xD001400, ''Graphics''), (0xD001500, ''Communication''),
    (0xD001600, ''DistributedData''), (0xD001700, ''Resource''), (0xD001800, ''SAMgr''),
    (0xD001B00, ''Account''), (0xD001C00, ''MiscService''), (0xD001D00, ''Barrierfree''),
    (0xD001E00, ''Global''), (0xD001F00, ''Telephony''), (0xD002100, ''AI''),
    (0xD002200, ''MSDP''), (0xD002300, ''Location''), (0xD002400, ''UserIAM''),
    (0xD002500, ''Drivers''), (0xD002600, ''Kernel''), (0xD002700, ''Sensors''),
    (0xD002800, ''MultiModelInput''), (0xD002900, ''Power''), (0xD002A00, ''USB''),
    (0xD002B00, ''MultiMedia''), (0xD002C00, ''StartUp''), (0xD002D00, ''DFX''),
    (0xD002E00, ''Update''), (0xD002F00, ''Security''), (0xD003100, ''TestSystem''),
    (0xD003200, ''TestSystem''), (0xD003300, ''DevelopmentToolchain''), (0xD003900, ''Ace''),
    (0xD003B00, ''JSConsole''), (0xD003D00, ''Utils''), (0xD003F00, ''CompilerRuntime''),
    (0xD004100, ''DistributedHardware''), (0xD004200, ''Windows''), (0xD004300, ''Storage''),
    (0xD004400, ''DeviceProfile''), (0xD004500, ''WebView''), (0xD004600, ''Interconnection''),
    (0xD004700, ''Cloud''), (0xD004800, ''Manufacture''), (0xD004900, ''HealthSport''),
    (0xD005000, ''IOT''), (0xD005100, ''PcService''), (0xD005200, ''WpaSupplicant''),
    (0xD005300, ''Push''), (0xD005400, ''CarService''), (0xD005500, ''DeviceCloudGateway''),
    (0xD005600, ''AppSecurityPrivacy''), (0xD005700, ''DSoftBus''), (0xD005800, ''FindNetwork''),
    (0xD005900, ''VirtService''), (0xD005A00, ''AccessControl''), (0xD005B00, ''Tee''),
    (0xD005C00, ''Connectivity''), (0xD005D00, ''XTS''), (0xD00AD00, ''ASystem'')],
    def_key = 0xFFFFFFFF, def_value = ''Invalid'', compare = (=)\<rparr>"

definition APP_DOMAIN_MASK :: u32 where
  [simp]: "APP_DOMAIN_MASK = 0xFFFF0000"

definition OS_SUB_DOMAIN_MASK :: u32 where
  [simp]: "OS_SUB_DOMAIN_MASK = 0xFFFFFF00"

definition IsValidDomain :: "nat \<Rightarrow> u32 \<Rightarrow> bool" where
  "IsValidDomain type domain =
     (if type = LOG_APP then (if domain AND APP_DOMAIN_MASK = 0 then True else False)
      else if domain \<ge> DOMAIN_OS_MIN \<and> domain \<le> DOMAIN_OS_MAX
      then IsValidKey g_DomainList (domain AND OS_SUB_DOMAIN_MASK)
      else False)"

section \<open>Properties\<close>

text \<open>Every registered domain lies in the OS range and has an empty sub-domain byte.\<close>

lemma domain_keys_in_range:
  "list_all (\<lambda>d. DOMAIN_OS_MIN \<le> d \<and> d \<le> DOMAIN_OS_MAX \<and> d AND OS_SUB_DOMAIN_MASK = d)
     (GetAllKeys g_DomainList)"
  by (simp add: g_DomainList_def GetAllKeys_def)

lemma key_max: "list_all (\<lambda>d. d \<le> 0xD00FF00) (GetAllKeys g_DomainList)"
  by (simp add: g_DomainList_def GetAllKeys_def)

lemma distinct_domain_keys: "distinct (GetAllKeys g_DomainList)"
  by (simp add: g_DomainList_def GetAllKeys_def)

lemma and_not_mask_unat: "unat (d AND NOT (mask n) :: u32) = unat d div 2 ^ n * 2 ^ n"
proof -
  have "unat (d AND NOT (mask n)) = push_bit n (drop_bit n (unat d))"
    by (rule bit_eqI) (auto simp: bit_simps dest: bit_imp_le_length)
  then show ?thesis by (simp add: push_bit_eq_mult drop_bit_eq_div)
qed

lemma mask_app_iff: "(d :: u32) AND APP_DOMAIN_MASK = 0 \<longleftrightarrow> d \<le> DOMAIN_APP_MAX"
proof -
  have "APP_DOMAIN_MASK = NOT (mask 16)" by (simp add: mask_eq_exp_minus_1)
  then have "d AND APP_DOMAIN_MASK = 0 \<longleftrightarrow> unat d div 2 ^ 16 * 2 ^ 16 = 0"
    by (metis and_not_mask_unat unat_eq_zero)
  also have "\<dots> \<longleftrightarrow> unat d \<le> 0xFFFF" by (simp add: div_eq_0_iff) arith
  finally show ?thesis by (simp add: word_le_nat_alt)
qed

lemma nat_256_block: "(k :: nat) = k div 256 * 256 \<Longrightarrow> d div 256 * 256 = k \<longleftrightarrow> k \<le> d \<and> d \<le> k + 255"
proof -
  assume k: "k = k div 256 * 256"
  define q where "q = k div 256"
  have "k = q * 256" using k by (simp only: q_def)
  then show ?thesis by auto
qed

lemma sub_domain_iff:
  assumes "k AND OS_SUB_DOMAIN_MASK = k"
  shows "d AND OS_SUB_DOMAIN_MASK = k \<longleftrightarrow> k \<le> d \<and> unat d \<le> unat k + 0xFF"
proof -
  have m: "OS_SUB_DOMAIN_MASK = NOT (mask 8)" by (simp add: mask_eq_exp_minus_1)
  have k: "unat k = unat k div 2 ^ 8 * 2 ^ 8" using assms and_not_mask_unat [of k 8] m by metis
  have "d AND OS_SUB_DOMAIN_MASK = k \<longleftrightarrow> unat d div 2 ^ 8 * 2 ^ 8 = unat k"
    by (metis and_not_mask_unat m word_unat_eq_iff)
  also have "\<dots> \<longleftrightarrow> unat k \<le> unat d \<and> unat d \<le> unat k + 0xFF"
    using k by (auto simp: nat_256_block)
  finally show ?thesis by (simp add: word_le_nat_alt)
qed

text \<open>
  A message of an application is accepted exactly for domains up to \<open>0xFFFF\<close>; any other
  message exactly when its domain is one of the 256 sub-domains of a registered domain.
\<close>

theorem IsValidDomain_iff:
  "IsValidDomain type d \<longleftrightarrow>
     (if type = LOG_APP then d \<le> DOMAIN_APP_MAX
      else list_ex (\<lambda>k. k \<le> d \<and> unat d \<le> unat k + 0xFF) (GetAllKeys g_DomainList))"
proof (cases "type = LOG_APP")
  case True
  then show ?thesis using mask_app_iff [of d] by (simp add: IsValidDomain_def)
next
  case False
  have keys: "DOMAIN_OS_MIN \<le> k \<and> k \<le> DOMAIN_OS_MAX \<and> k AND OS_SUB_DOMAIN_MASK = k"
    if "k \<in> set (GetAllKeys g_DomainList)" for k
    using domain_keys_in_range that by (auto simp: list_all_iff)
  have "IsValidKey g_DomainList (d AND OS_SUB_DOMAIN_MASK) \<longleftrightarrow>
      (\<exists>k \<in> set (GetAllKeys g_DomainList). d AND OS_SUB_DOMAIN_MASK = k)"
    by (auto simp: IsValidKey_def GetAllKeys_def)
  also have "\<dots> \<longleftrightarrow> (\<exists>k \<in> set (GetAllKeys g_DomainList). k \<le> d \<and> unat d \<le> unat k + 0xFF)"
    using keys sub_domain_iff by blast
  finally have valid: "IsValidKey g_DomainList (d AND OS_SUB_DOMAIN_MASK) \<longleftrightarrow>
    (\<exists>k \<in> set (GetAllKeys g_DomainList). k \<le> d \<and> unat d \<le> unat k + 0xFF)" .
  have "DOMAIN_OS_MIN \<le> d \<and> d \<le> DOMAIN_OS_MAX"
    if k: "k \<in> set (GetAllKeys g_DomainList)" "k \<le> d" "unat d \<le> unat k + 0xFF" for k
  proof -
    have "k \<le> 0xD00FF00" using key_max k(1) by (auto simp: list_all_iff)
    then show ?thesis using keys [OF k(1)] k by (auto simp: word_le_nat_alt)
  qed
  then show ?thesis using False valid by (auto simp: IsValidDomain_def list_ex_iff)
qed

end
