(* ===== verification/Log_Data.thy ===== *)
theory Log_Data
  imports Hilog_Common
begin

text \<open>
  The wire format \<open>HilogMsg\<close> of \<open>hilog_base.h\<close> and the buffered form \<open>HilogData\<close> of
  \<open>log_data.h\<close> with its constructors. Bit fields have the width of the source. The memory
  behind \<open>tag\<close> and \<open>content\<close> is one block; a cell that was never written is \<open>None\<close>. The
  allocation \<open>new (std::nothrow)\<close> is assumed to succeed.
\<close>

section \<open>Messages\<close>

text \<open>\<open>m_payload\<close> is the flexible array \<open>tag[]\<close>: everything behind the 28 bytes of the header.\<close>

record HilogMsg =
  m_len :: u16
  m_version :: "3 word"
  m_type :: "4 word"
  m_level :: "3 word"
  m_tagLen :: "6 word"
  m_tv_sec :: u32
  m_tv_nsec :: u32
  m_mono_sec :: u32
  m_pid :: u32
  m_tid :: u32
  m_domain :: u32
  m_payload :: "char list"

definition SIZEOF_HilogMsg :: nat where
  [simp]: "SIZEOF_HilogMsg = 28"

text \<open>\<open>CONTENT_LEN\<close> and \<open>CONTENT_PTR\<close>: the subtraction is done in \<open>size_t\<close> and wraps.\<close>

definition CONTENT_LEN :: "HilogMsg \<Rightarrow> size_t" where
  "CONTENT_LEN msg = ucast (m_len msg) - of_nat SIZEOF_HilogMsg - ucast (m_tagLen msg)"

definition CONTENT_PTR :: "HilogMsg \<Rightarrow> char list" where
  "CONTENT_PTR msg = drop (unat (m_tagLen msg)) (m_payload msg)"

section \<open>Buffered logs\<close>

record HilogData =
  d_len :: u16
  d_version :: "3 word"
  d_type :: "3 word"
  d_level :: "4 word"
  d_tagLen :: "6 word"
  d_tv_sec :: u32
  d_tv_nsec :: u32
  d_mono_sec :: u32
  d_pid :: u32
  d_tid :: u32
  d_domain :: u32
  d_mem :: "mem option"

definition HilogData_Init :: "char list \<Rightarrow> u16 \<Rightarrow> char list \<Rightarrow> size_t \<Rightarrow> HilogData \<Rightarrow> HilogData" where
  "HilogData_Init mtag mtagLen mfmt mfmtLen d =
     (if unat mtagLen > MAX_TAG_LEN \<or> mtagLen = 0 \<or> unat mfmtLen > MAX_LOG_LEN \<or> mfmtLen = 0 then d
      else let len = ucast (ucast mtagLen + mfmtLen) :: u16;
               tmp = replicate (unat len) None;
               (e1, bs1) = strncpy_s MAX_TAG_LEN mtag (unat mtagLen - 1);
               tmp1 = mem_write 0 bs1 tmp
           in if e1 \<noteq> EOK then d\<lparr>d_len := len, d_mem := Some tmp1\<rparr>
              else let (e2, bs2) = strncpy_s MAX_LOG_LEN mfmt (unat mfmtLen - 1)
                   in d\<lparr>d_len := len, d_mem := Some (mem_write (unat mtagLen) bs2 tmp1)\<rparr>)"

definition HilogData_of_msg :: "HilogMsg \<Rightarrow> HilogData" where
  "HilogData_of_msg msg =
     HilogData_Init (m_payload msg) (ucast (m_tagLen msg)) (CONTENT_PTR msg) (CONTENT_LEN msg)
       \<lparr>d_len = 0, d_version = m_version msg, d_type = ucast (m_type msg), d_level = ucast (m_level msg),
        d_tagLen = m_tagLen msg, d_tv_sec = m_tv_sec msg, d_tv_nsec = m_tv_nsec msg,
        d_mono_sec = m_mono_sec msg, d_pid = m_pid msg, d_tid = m_tid msg, d_domain = m_domain msg,
        d_mem = None\<rparr>"

text \<open>
  The copy constructor: \<open>memcpy_s\<close> fails for the empty block of a log that was never
  initialised and copies the whole block, written or not, otherwise.
\<close>

definition HilogData_copy :: "HilogData \<Rightarrow> HilogData" where
  "HilogData_copy c =
     (let fresh = replicate (unat (d_len c)) None
      in case d_mem c of
           None \<Rightarrow> c\<lparr>d_mem := Some fresh\<rparr>
         | Some m \<Rightarrow> c\<lparr>d_mem := Some (if d_len c = 0 then fresh else take (unat (d_len c)) m)\<rparr>)"

text \<open>What \<open>logData.tag\<close> and \<open>logData.content\<close> read as C strings.\<close>

definition d_tag :: "HilogData \<Rightarrow> string" where
  "d_tag d = (case d_mem d of None \<Rightarrow> [] | Some m \<Rightarrow> mem_str m)"

definition d_content :: "HilogData \<Rightarrow> string" where
  "d_content d = (case d_mem d of None \<Rightarrow> [] | Some m \<Rightarrow> mem_str (drop (unat (d_tagLen d)) m))"

text \<open>\<open>it->len - it->tagLen\<close>, computed in \<open>int\<close> and converted to \<open>size_t\<close>.\<close>

definition d_cLen :: "HilogData \<Rightarrow> size_t" where
  "d_cLen d = of_int (int (unat (d_len d)) - int (unat (d_tagLen d)))"

section \<open>Properties\<close>

text \<open>The guard shared by \<open>HilogBuffer::Insert\<close> and \<open>HilogData::Init\<close>.\<close>

definition msg_accepted :: "HilogMsg \<Rightarrow> bool" where
  "msg_accepted msg \<longleftrightarrow> unat (m_tagLen msg) \<le> MAX_TAG_LEN \<and> m_tagLen msg \<noteq> 0 \<and>
     unat (CONTENT_LEN msg) \<le> MAX_LOG_LEN \<and> CONTENT_LEN msg \<noteq> 0"

lemma strncpy_s_data:
  "0 < n \<Longrightarrow> n \<le> destMax \<Longrightarrow> strncpy_s destMax src (n - 1) = (EOK, c_str (take (n - 1) src) @ [NUL])"
  by (rule strncpy_s_fits) simp

lemma unat_ucast_up:
  "LENGTH('a) \<le> LENGTH('b) \<Longrightarrow> unat (ucast (t :: 'a :: len word) :: 'b :: len word) = unat t"
proof -
  assume le: "LENGTH('a) \<le> LENGTH('b)"
  have "unat t < 2 ^ LENGTH('a)" by (rule unsigned_less)
  also have "\<dots> \<le> (2 :: nat) ^ LENGTH('b)" using le by simp
  finally show ?thesis by (simp add: unsigned_ucast_eq take_bit_nat_eq_self)
qed

lemma mem_write_app:
  "length bs \<le> n \<Longrightarrow> mem_write 0 bs (replicate (n + k) None) =
     map Some bs @ replicate (n - length bs) None @ replicate k None"
  by (simp add: mem_write_def flip: replicate_add)

lemma mem_write_behind: "length a = n \<Longrightarrow> mem_write n bs (a @ m) = a @ map Some bs @ drop (length bs) m"
  by (simp add: mem_write_def)

lemma Init_data:
  assumes t: "0 < unat mtagLen" "unat mtagLen \<le> MAX_TAG_LEN" and c: "0 < unat mfmtLen" "unat mfmtLen \<le> MAX_LOG_LEN"
  shows "HilogData_Init mtag mtagLen mfmt mfmtLen d =
    d\<lparr>d_len := of_nat (unat mtagLen + unat mfmtLen),
      d_mem := Some (map Some (c_str (take (unat mtagLen - 1) mtag) @ [NUL]) @
        replicate (unat mtagLen - 1 - length (c_str (take (unat mtagLen - 1) mtag))) None @
        map Some (c_str (take (unat mfmtLen - 1) mfmt) @ [NUL]) @
        replicate (unat mfmtLen - 1 - length (c_str (take (unat mfmtLen - 1) mfmt))) None)\<rparr>"
proof -
  let ?t = "unat mtagLen" and ?c = "unat mfmtLen"
  let ?ts = "c_str (take (?t - 1) mtag)" and ?cs = "c_str (take (?c - 1) mfmt)"
  have lens: "length ?ts \<le> ?t - 1" "length ?cs \<le> ?c - 1" by (rule length_c_str_take)+
  have "unat (ucast mtagLen + mfmtLen :: size_t) = ?t + ?c"
    using t c by (simp add: unat_word_ariths unat_ucast_up)
  then have u: "(ucast (ucast mtagLen + mfmtLen :: size_t) :: u16) = of_nat (?t + ?c)"
    by (metis of_nat_unat)
  have l: "unat (of_nat (?t + ?c) :: u16) = ?t + ?c"
    using t c by (simp add: unat_of_nat del: of_nat_add)
  have s1: "strncpy_s MAX_TAG_LEN mtag (?t - 1) = (EOK, ?ts @ [NUL])"
    using t by (intro strncpy_s_data)
  have s2: "strncpy_s MAX_LOG_LEN mfmt (?c - 1) = (EOK, ?cs @ [NUL])"
    using c by (intro strncpy_s_data)
  have w1: "mem_write 0 (?ts @ [NUL]) (replicate (?t + ?c) None) =
      map Some (?ts @ [NUL]) @ replicate (?t - 1 - length ?ts) None @ replicate ?c None"
    using lens t by (subst mem_write_app) auto
  have g: "\<not> (?t > MAX_TAG_LEN \<or> mtagLen = 0 \<or> ?c > MAX_LOG_LEN \<or> mfmtLen = 0)"
    using t c by auto
  have e: "HilogData_Init mtag mtagLen mfmt mfmtLen d = d\<lparr>d_len := of_nat (?t + ?c),
      d_mem := Some (mem_write ?t (?cs @ [NUL]) (mem_write 0 (?ts @ [NUL]) (replicate (?t + ?c) None)))\<rparr>"
    unfolding HilogData_Init_def if_not_P [OF g] Let_def u l s1 s2 by simp
  have w2: "mem_write ?t (?cs @ [NUL]) (map Some (?ts @ [NUL]) @ replicate (?t - 1 - length ?ts) None @ replicate ?c None) =
      map Some (?ts @ [NUL]) @ replicate (?t - 1 - length ?ts) None @ map Some (?cs @ [NUL]) @ replicate (?c - 1 - length ?cs) None"
  proof -
    let ?a = "map Some (?ts @ [NUL]) @ replicate (?t - 1 - length ?ts) (None :: char option)"
    have "length ?a = ?t" using lens t by simp
    then have "mem_write ?t (?cs @ [NUL]) (?a @ replicate ?c None) =
        ?a @ map Some (?cs @ [NUL]) @ drop (length (?cs @ [NUL])) (replicate ?c None)"
      by (rule mem_write_behind)
    then show ?thesis by (simp add: drop_replicate)
  qed
  show ?thesis unfolding e w1 w2 by simp
qed

lemma accepted_sizes:
  assumes "msg_accepted msg"
  shows "0 < unat (m_tagLen msg)" "unat (m_tagLen msg) \<le> MAX_TAG_LEN"
    "0 < unat (CONTENT_LEN msg)" "unat (CONTENT_LEN msg) \<le> MAX_LOG_LEN"
  using assms by (auto simp: msg_accepted_def unat_gt_0)

text \<open>An accepted message is stored with the lengths of the message, and reads back as its strings.\<close>

lemma HilogData_of_msg_accepted:
  assumes "msg_accepted msg"
  defines "d \<equiv> HilogData_of_msg msg"
  shows "unat (d_len d) = unat (m_tagLen msg) + unat (CONTENT_LEN msg)"
    "d_cLen d = CONTENT_LEN msg" "d_type d = ucast (m_type msg)" "d_level d = ucast (m_level msg)"
    "d_domain d = m_domain msg" "d_pid d = m_pid msg" "d_tagLen d = m_tagLen msg"
    "d_tag d = c_str (take (unat (m_tagLen msg) - 1) (m_payload msg))"
    "d_content d = c_str (take (unat (CONTENT_LEN msg) - 1) (CONTENT_PTR msg))"
    "\<exists>m. d_mem d = Some m \<and> length m = unat (d_len d)"
proof -
  let ?t = "unat (m_tagLen msg)" and ?c = "unat (CONTENT_LEN msg)"
  let ?ts = "c_str (take (?t - 1) (m_payload msg))" and ?cs = "c_str (take (?c - 1) (CONTENT_PTR msg))"
  note b = accepted_sizes [OF assms(1)]
  have lens: "length ?ts \<le> ?t - 1" "length ?cs \<le> ?c - 1" by (rule length_c_str_take)+
  have u: "unat (ucast (m_tagLen msg) :: u16) = ?t" by (simp add: unat_ucast_up)
  note init = Init_data [of "ucast (m_tagLen msg)" "CONTENT_LEN msg", unfolded u, OF b]
  have len: "d_len d = of_nat (?t + ?c)" by (simp only: d_def HilogData_of_msg_def init) simp
  show l: "unat (d_len d) = ?t + ?c"
    unfolding len using b by (simp add: unat_of_nat del: of_nat_add)
  show "d_type d = ucast (m_type msg)" "d_level d = ucast (m_level msg)"
    "d_domain d = m_domain msg" "d_pid d = m_pid msg" and tl: "d_tagLen d = m_tagLen msg"
    by (simp_all only: d_def HilogData_of_msg_def init) simp_all
  show "d_cLen d = CONTENT_LEN msg"
    unfolding d_cLen_def l tl by simp
  let ?a = "map Some (?ts @ [NUL]) @ replicate (?t - 1 - length ?ts) None"
  let ?b = "map Some (?cs @ [NUL]) @ replicate (?c - 1 - length ?cs) None"
  have m: "d_mem d = Some (?a @ ?b)"
    by (simp only: d_def HilogData_of_msg_def init) simp
  have la: "length ?a = ?t" using lens b by simp
  show "d_tag d = ?ts"
    by (simp add: d_tag_def m mem_str_map_Some)
  show "d_content d = ?cs"
  proof -
    have "drop ?t (?a @ ?b) = ?b" using la by (metis append_eq_conv_conj)
    then show ?thesis by (simp only: d_content_def m tl option.case) (simp add: mem_str_map_Some)
  qed
  show "\<exists>m. d_mem d = Some m \<and> length m = unat (d_len d)"
    using lens b by (simp add: m l)
qed

lemma HilogData_copy_id:
  assumes "d_mem d = Some m" "length m = unat (d_len d)"
  shows "HilogData_copy d = d"
  using assms by (auto simp: HilogData_copy_def)

text \<open>
  A message whose payload is a tag and a text, each without NUL and terminated by one, is
  buffered with exactly this tag and this text when they are shorter than \<open>MAX_TAG_LEN\<close> and
  \<open>MAX_LOG_LEN\<close> and the length fields are those of the payload.
\<close>

theorem HilogData_roundtrip:
  assumes "NUL \<notin> set t" "NUL \<notin> set c" "length t < MAX_TAG_LEN" "length c < MAX_LOG_LEN"
    and "m_payload msg = t @ NUL # c @ [NUL]" "unat (m_tagLen msg) = length t + 1"
    and "unat (m_len msg) = SIZEOF_HilogMsg + length t + 1 + length c + 1"
  shows "d_tag (HilogData_of_msg msg) = t \<and> d_content (HilogData_of_msg msg) = c"
proof -
  have "unat (CONTENT_LEN msg) = length c + 1"
  proof -
    have "CONTENT_LEN msg = of_nat (SIZEOF_HilogMsg + length t + 1 + length c + 1) - of_nat SIZEOF_HilogMsg - of_nat (length t + 1)"
      unfolding CONTENT_LEN_def assms(6,7) [symmetric] by simp
    also have "\<dots> = of_nat (length c + 1)" by simp
    finally show ?thesis using assms(4) by (simp add: unat_of_nat del: of_nat_add of_nat_Suc)
  qed
  moreover from this have "msg_accepted msg"
    using assms(3,4,6) by (auto simp: msg_accepted_def)
  ultimately show ?thesis
    using assms by (simp add: HilogData_of_msg_accepted CONTENT_PTR_def c_str_no_NUL)
qed

definition demo_msg :: HilogMsg where
  "demo_msg = \<lparr>m_len = 37, m_version = 0, m_type = 3, m_level = 4, m_tagLen = 4, m_tv_sec = 1, m_tv_nsec = 2,
     m_mono_sec = 3, m_pid = 4, m_tid = 5, m_domain = 0xD002D00, m_payload = ''tag'' @ NUL # ''text'' @ [NUL]\<rparr>"

theorem HilogData_roundtrip_witness:
  "d_tag (HilogData_of_msg demo_msg) = ''tag'' \<and> d_content (HilogData_of_msg demo_msg) = ''text''"
  by (rule HilogData_roundtrip) (simp_all add: demo_msg_def)

end
