(* ===== verification/Log_Filter.thy ===== *)
theory Log_Filter
  imports Log_Data
begin

text \<open>
  The filter of a reader: \<open>LogFilter\<close> of \<open>log_filter.h\<close>, and \<open>WildcardToRegex\<close> and
  \<open>LogMatchFilter\<close> of \<open>log_buffer.cpp\<close>. The regular expression engine is the parameter
  \<open>regex_search\<close>: it takes the expression and the text, and \<open>None\<close> is a
  \<open>std::regex_error\<close> thrown for an expression that is not well formed.
\<close>

section \<open>Filters\<close>

record LogFilter =
  types :: u16
  levels :: u16
  blackDomain :: bool
  domainCount :: nat
  domains :: "u32 list"
  blackTag :: bool
  tagCount :: nat
  tags :: "char list list"
  blackPid :: bool
  pidCount :: int
  pids :: "u32 list"
  regex :: "char list"

definition WILDCARDS :: string where
  "WILDCARDS = ''*?[]+.^&''"

definition BACKSLASH :: char where
  "BACKSLASH = CHR 0x5C"

definition REPLACEMENT_S :: "string list" where
  "REPLACEMENT_S = [''.*'', ''.'', [BACKSLASH, CHR ''['' ], [BACKSLASH, CHR '']''], [BACKSLASH, CHR ''+''],
     [BACKSLASH, CHR ''.''], [BACKSLASH, CHR ''^''], [BACKSLASH, CHR ''&'']]"

fun strchr_index :: "string \<Rightarrow> char \<Rightarrow> nat option" where
  "strchr_index [] c = None"
| "strchr_index (x # xs) c = (if x = c then Some 0 else map_option Suc (strchr_index xs c))"

definition WildcardToRegex :: "string \<Rightarrow> string" where
  "WildcardToRegex wildcard =
     concat (map (\<lambda>c. case strchr_index WILDCARDS c of Some index \<Rightarrow> REPLACEMENT_S ! index | None \<Rightarrow> [c]) wildcard)"

section \<open>Matching\<close>

definition domain_match :: "u32 \<Rightarrow> u32 \<Rightarrow> bool" where
  "domain_match log_domain d \<longleftrightarrow>
     log_domain = d \<or> ((ucast d :: u8) = 0xFF \<and> log_domain AND NOT 0xFF = d AND NOT 0xFF)"

definition domains_match :: "LogFilter \<Rightarrow> HilogData \<Rightarrow> bool" where
  "domains_match f logData = list_ex (\<lambda>i. domain_match (d_domain logData) (domains f ! i)) [0..<domainCount f]"

definition tags_match :: "LogFilter \<Rightarrow> HilogData \<Rightarrow> bool" where
  "tags_match f logData = list_ex (\<lambda>i. d_tag logData = c_str (tags f ! i)) [0..<tagCount f]"

definition pids_match :: "LogFilter \<Rightarrow> HilogData \<Rightarrow> bool" where
  "pids_match f logData = list_ex (\<lambda>i. d_pid logData = pids f ! i) [0..<nat (pidCount f)]"

definition LogMatchFilter :: "(string \<Rightarrow> string \<Rightarrow> bool option) \<Rightarrow> LogFilter \<Rightarrow> HilogData \<Rightarrow> bool option" where
  "LogMatchFilter regex_search f logData =
     (if push_bit (unat (d_type logData)) 1 AND types f = 0 then Some False
      else if push_bit (unat (d_level logData)) 1 AND levels f = 0 then Some False
      else if domainCount f \<noteq> 0 \<and> domains_match f logData = blackDomain f then Some False
      else if tagCount f \<noteq> 0 \<and> tags_match f logData = blackTag f then Some False
      else if pidCount f \<noteq> 0 \<and> pids_match f logData = blackPid f then Some False
      else if c_str (regex f) \<noteq> []
      then regex_search (WildcardToRegex (c_str (regex f))) (d_content logData)
      else Some True)"

section \<open>Properties\<close>

text \<open>
  The filter as a conjunction of criteria: a black list rejects what it names, a white list
  rejects what it does not name, an empty list accepts everything.
\<close>

definition list_admits :: "bool \<Rightarrow> 'a list \<Rightarrow> ('a \<Rightarrow> bool) \<Rightarrow> bool" where
  "list_admits black xs hit \<longleftrightarrow> xs = [] \<or> (if black then list_all (\<lambda>x. \<not> hit x) xs else list_ex hit xs)"

definition filter_wf :: "LogFilter \<Rightarrow> bool" where
  "filter_wf f \<longleftrightarrow> domainCount f \<le> length (domains f) \<and> tagCount f \<le> length (tags f) \<and>
     0 \<le> pidCount f \<and> nat (pidCount f) \<le> length (pids f)"

definition filter_admits :: "LogFilter \<Rightarrow> HilogData \<Rightarrow> bool" where
  "filter_admits f d \<longleftrightarrow>
     bit (types f) (unat (d_type d)) \<and> bit (levels f) (unat (d_level d)) \<and>
     list_admits (blackDomain f) (take (domainCount f) (domains f)) (domain_match (d_domain d)) \<and>
     list_admits (blackTag f) (take (tagCount f) (tags f)) (\<lambda>t. d_tag d = c_str t) \<and>
     list_admits (blackPid f) (take (nat (pidCount f)) (pids f)) (\<lambda>p. d_pid d = p)"

lemma list_ex_nth: "n \<le> length xs \<Longrightarrow> list_ex (\<lambda>i. P (xs ! i)) [0..<n] \<longleftrightarrow> list_ex P (take n xs)"
  by (auto simp: list_ex_iff in_set_conv_nth Bex_def)

lemma push_bit_1_and: "push_bit n 1 AND (w :: u16) = 0 \<longleftrightarrow> \<not> bit w n"
proof -
  have "push_bit n 1 AND w = 0 \<longleftrightarrow> (\<forall>i. \<not> bit (push_bit n 1 AND w) i)"
    by (metis bit_0_eq bit_word_eqI bot_apply bot_bool_def)
  also have "\<dots> \<longleftrightarrow> \<not> bit w n"
    by (auto simp: bit_and_iff bit_exp_iff dest: bit_imp_le_length)
  finally show ?thesis .
qed

lemma list_admits_match:
  assumes "n \<le> length xs"
  shows "(0 < n \<and> list_ex (\<lambda>i. hit (xs ! i)) [0..<n] = black) \<longleftrightarrow> \<not> list_admits black (take n xs) hit"
proof -
  have "list_all (\<lambda>x. \<not> hit x) ys \<longleftrightarrow> \<not> list_ex hit ys" for ys
    by (auto simp: list_all_iff list_ex_iff)
  moreover have "n \<noteq> 0 \<Longrightarrow> take n xs \<noteq> []" using assms by (cases xs) auto
  ultimately show ?thesis
    unfolding list_ex_nth [OF assms] list_admits_def by (cases "n = 0") auto
qed

text \<open>
  C18: \<open>LogMatchFilter\<close> is the conjunction of the type mask, the level mask, the three
  black or white lists and, when the filter has an expression, the search of the translated
  expression in the text.
\<close>

theorem LogMatchFilter_correct:
  assumes "filter_wf f"
  shows "LogMatchFilter regex_search f d =
    (if \<not> filter_admits f d then Some False
     else if c_str (regex f) = [] then Some True
     else regex_search (WildcardToRegex (c_str (regex f))) (d_content d))"
proof -
  note m = list_admits_match [unfolded neq0_conv [symmetric]]
  have d: "(domainCount f \<noteq> 0 \<and> domains_match f d = blackDomain f) =
      (\<not> list_admits (blackDomain f) (take (domainCount f) (domains f)) (domain_match (d_domain d)))"
    unfolding domains_match_def using assms by (intro m) (simp add: filter_wf_def)
  have t: "(tagCount f \<noteq> 0 \<and> tags_match f d = blackTag f) =
      (\<not> list_admits (blackTag f) (take (tagCount f) (tags f)) (\<lambda>t. d_tag d = c_str t))"
    unfolding tags_match_def using assms by (intro m) (simp add: filter_wf_def)
  have p: "(pidCount f \<noteq> 0 \<and> pids_match f d = blackPid f) =
      (\<not> list_admits (blackPid f) (take (nat (pidCount f)) (pids f)) (\<lambda>p. d_pid d = p))"
  proof -
    have "pidCount f \<noteq> 0 \<longleftrightarrow> nat (pidCount f) \<noteq> 0" using assms by (auto simp: filter_wf_def)
    then show ?thesis
      unfolding pids_match_def using assms m [of "nat (pidCount f)" "pids f" "\<lambda>p. d_pid d = p"]
      by (simp add: filter_wf_def)
  qed
  show ?thesis
    unfolding LogMatchFilter_def filter_admits_def d t p push_bit_1_and by simp
qed

definition demo_filter :: LogFilter where
  "demo_filter = \<lparr>types = 0x3B, levels = 0xFFFF, blackDomain = False, domainCount = 1, domains = [0xD002DFF],
     blackTag = True, tagCount = 1, tags = [''noise'' @ [NUL]], blackPid = False, pidCount = 0, pids = [],
     regex = [NUL]\<rparr>"

theorem LogMatchFilter_correct_witness:
  "filter_wf demo_filter \<and> filter_admits demo_filter (HilogData_of_msg demo_msg) \<and>
   LogMatchFilter (\<lambda>_ _. None) demo_filter (HilogData_of_msg demo_msg) = Some True"
proof -
  have "filter_wf demo_filter" "filter_admits demo_filter (HilogData_of_msg demo_msg)"
    "c_str (regex demo_filter) = []"
    by code_simp+
  then show ?thesis using LogMatchFilter_correct [of demo_filter "\<lambda>_ _. None"] by simp
qed

end
