(* ===== verification/Log_Stats.thy ===== *)
theory Log_Stats
  imports Complex_Main "HOL-Library.AList" Log_TimeStamp Log_Utils
begin

text \<open>
  The statistics of \<open>log_stats.h\<close> and \<open>log_stats.cpp\<close>: counters per level, per domain of
  each log type and per process, with tables of tags below both. A hash table is an
  association list with distinct keys. A write through an index outside an array is undefined
  behaviour and has no value: the operations return \<open>None\<close> there. Single-precision numbers
  are rationals; every operation rounds with \<open>f32\<close>.
\<close>

section \<open>Single-precision numbers\<close>

definition f32_scaled :: "rat \<Rightarrow> int \<Rightarrow> rat" where
  "f32_scaled x e = (if e \<ge> 0 then x / 2 ^ nat e else x * 2 ^ nat (- e))"

definition round_half_even_rat :: "rat \<Rightarrow> int" where
  "round_half_even_rat x =
     (let q = \<lfloor>x\<rfloor>; r = x - of_int q
      in if r < 1 / 2 \<or> (r = 1 / 2 \<and> even q) then q else q + 1)"

definition f32 :: "rat \<Rightarrow> rat" where
  "f32 x =
     (if x \<le> 0 then 0
      else let (n, d) = quotient_of x;
               s = int (bit_length (nat n)) - int (bit_length (nat d));
               e = (if f32_scaled x s \<ge> 1 then s - 23 else s - 24)
           in f32_scaled (of_int (round_half_even_rat (f32_scaled x e))) (- e))"

definition FloatSecs :: "LogTimeStamp \<Rightarrow> rat" where
  "FloatSecs t = f32 (f32 (of_nat (unat (tv_sec t))) + f32 (f32 (of_nat (unat (tv_nsec t))) / of_nat NS_PER_SEC))"

section \<open>Entries\<close>

record StatsInfo =
  s_level :: nat
  s_type :: nat
  s_len :: u16
  s_dropped :: u16
  s_domain :: u32
  s_pid :: u32
  s_tv_sec :: u32
  s_tv_nsec :: u32
  s_mono_sec :: u32
  s_tag :: string

record StatsEntry =
  e_lines :: "u32 list"
  e_len :: "u64 list"
  e_dropped :: u32
  tmpLines :: u32
  freqMax :: rat
  realTimeFreqMax :: LogTimeStamp
  tmpLen :: u32
  throughputMax :: rat
  realTimeThroughputMax :: LogTimeStamp
  realTimeLast :: LogTimeStamp
  monoTimeLast :: LogTimeStamp
  monoTimeAuditStart :: LogTimeStamp

definition GetFreqMax :: "StatsEntry \<Rightarrow> rat" where
  "GetFreqMax e =
     (if freqMax e = 0
      then let secs = FloatSecs (ts_minus (monoTimeLast e) (monoTimeAuditStart e))
           in if secs > 1 then f32 (f32 (of_nat (unat (tmpLines e))) / secs) else f32 (of_nat (unat (tmpLines e)))
      else freqMax e)"

definition GetThroughputMax :: "StatsEntry \<Rightarrow> rat" where
  "GetThroughputMax e =
     (if throughputMax e = 0
      then let secs = FloatSecs (ts_minus (monoTimeLast e) (monoTimeAuditStart e))
           in if secs > 1 then f32 (f32 (of_nat (unat (tmpLen e))) / secs) else f32 (of_nat (unat (tmpLen e)))
      else throughputMax e)"

definition GetTotalLines :: "StatsEntry \<Rightarrow> u32" where
  "GetTotalLines e = foldl (+) 0 (e_lines e)"

definition GetTotalLen :: "StatsEntry \<Rightarrow> u64" where
  "GetTotalLen e = foldl (+) 0 (e_len e)"

definition IdxLvl :: "nat \<Rightarrow> int" where
  "IdxLvl lvl = int lvl - int LevelBase"

text \<open>\<open>array_add a i v\<close> is \<open>a[i] += v\<close>, undefined outside the array.\<close>

definition array_add :: "'a :: plus list \<Rightarrow> int \<Rightarrow> 'a \<Rightarrow> 'a list option" where
  "array_add a i v = (if 0 \<le> i \<and> i < int (length a) then Some (a[nat i := a ! nat i + v]) else None)"

text \<open>The end of an audit period in \<open>UpdateStats\<close>.\<close>

definition CloseAudit :: "StatsInfo \<Rightarrow> StatsEntry \<Rightarrow> StatsEntry" where
  "CloseAudit info entry =
     (let last = ts_minus (monoTimeLast entry) (monoTimeAuditStart entry);
          secs = (if FloatSecs last < 1 then 1 else FloatSecs last);
          freq = f32 (f32 (of_nat (unat (tmpLines entry))) / secs);
          entry1 = (if freq > freqMax entry
                    then entry\<lparr>freqMax := freq, realTimeFreqMax := realTimeLast entry\<rparr> else entry);
          throughput = f32 (f32 (of_nat (unat (tmpLen entry))) / secs);
          entry2 = (if throughput > throughputMax entry1
                    then entry1\<lparr>throughputMax := throughput, realTimeThroughputMax := realTimeLast entry\<rparr> else entry1)
      in entry2\<lparr>tmpLines := 0, tmpLen := 0, monoTimeLast := last,
           monoTimeAuditStart := LogTimeStamp (s_mono_sec info) (s_tv_nsec info)\<rparr>)"

definition UpdateStats :: "StatsInfo \<Rightarrow> StatsEntry \<Rightarrow> StatsEntry option" where
  "UpdateStats info entry =
     (let now = LogTimeStamp (s_mono_sec info) (s_tv_nsec info);
          ts_mono = ts_minus now (monoTimeLast entry);
          entry1 = (if ts_gt ts_mono (LogTimeStamp 1 0) then CloseAudit info entry else entry);
          lvl = IdxLvl (s_level info)
      in case (array_add (e_lines entry1) lvl 1, array_add (e_len entry1) lvl (ucast (s_len info))) of
           (Some lines', Some len') \<Rightarrow>
             Some (entry1\<lparr>e_lines := lines', e_len := len',
               e_dropped := e_dropped entry1 + ucast (s_dropped info),
               tmpLines := tmpLines entry1 + 1,
               tmpLen := tmpLen entry1 + ucast (s_len info),
               monoTimeLast := now,
               realTimeLast := LogTimeStamp (s_tv_sec info) (s_tv_nsec info)\<rparr>)
         | _ \<Rightarrow> None)"

definition ResetStatsEntry :: StatsEntry where
  "ResetStatsEntry =
     \<lparr>e_lines = replicate LevelNum 0, e_len = replicate LevelNum 0, e_dropped = 0, tmpLines = 0, freqMax = 0,
      realTimeFreqMax = LogTimeStamp 0 0, tmpLen = 0, throughputMax = 0,
      realTimeThroughputMax = LogTimeStamp 0 0, realTimeLast = LogTimeStamp 0 0,
      monoTimeLast = LogTimeStamp 0 0, monoTimeAuditStart = LogTimeStamp 0 0\<rparr>"

definition StatsInfo2NewStatsEntry :: "StatsInfo \<Rightarrow> StatsEntry option" where
  "StatsInfo2NewStatsEntry info =
     (let real = LogTimeStamp (s_tv_sec info) (s_tv_nsec info);
          mono = LogTimeStamp (s_mono_sec info) (s_tv_nsec info);
          lvl = IdxLvl (s_level info)
      in case (array_add (replicate LevelNum 0) lvl 1, array_add (replicate LevelNum 0) lvl (ucast (s_len info))) of
           (Some lines', Some len') \<Rightarrow>
             Some \<lparr>e_lines = lines', e_len = len', e_dropped = ucast (s_dropped info), tmpLines = 1, freqMax = 0,
               realTimeFreqMax = real, tmpLen = ucast (s_len info), throughputMax = 0,
               realTimeThroughputMax = real, realTimeLast = real, monoTimeLast = mono, monoTimeAuditStart = mono\<rparr>
         | _ \<Rightarrow> None)"

section \<open>Tables\<close>

type_synonym TagTable = "(string \<times> StatsEntry) list"

record DomainStatsEntry =
  ds_stats :: StatsEntry
  ds_tagStats :: TagTable

type_synonym DomainTable = "(u32 \<times> DomainStatsEntry) list"

record PidStatsEntry =
  ps_statsAll :: StatsEntry
  ps_stats :: "StatsEntry list"
  ps_name :: string
  ps_tagStats :: TagTable

type_synonym PidTable = "(u32 \<times> PidStatsEntry) list"

record LogStats =
  domainStats :: "DomainTable list"
  pidStats :: PidTable
  tsBegin :: LogTimeStamp
  monoBegin :: LogTimeStamp
  totalLines :: "u32 list"
  totalLens :: "u64 list"
  enable :: bool
  tagEnable :: bool

definition UpdateTagTable :: "bool \<Rightarrow> TagTable \<Rightarrow> StatsInfo \<Rightarrow> TagTable option" where
  "UpdateTagTable tagEnabled tt info =
     (if \<not> tagEnabled then Some tt
      else case map_of tt (s_tag info) of
             Some entry \<Rightarrow> map_option (\<lambda>e. AList.update (s_tag info) e tt) (UpdateStats info entry)
           | None \<Rightarrow> map_option (\<lambda>e. AList.update (s_tag info) e tt) (StatsInfo2NewStatsEntry info))"

definition UpdateDomainEntry :: "bool \<Rightarrow> StatsInfo \<Rightarrow> DomainStatsEntry option \<Rightarrow> DomainStatsEntry option" where
  "UpdateDomainEntry tagEnabled info it =
     (case (case it of
              Some d \<Rightarrow> map_option (\<lambda>e. d\<lparr>ds_stats := e\<rparr>) (UpdateStats info (ds_stats d))
            | None \<Rightarrow> map_option (\<lambda>e. \<lparr>ds_stats = e, ds_tagStats = []\<rparr>) (StatsInfo2NewStatsEntry info)) of
        None \<Rightarrow> None
      | Some d \<Rightarrow> map_option (\<lambda>tt. d\<lparr>ds_tagStats := tt\<rparr>) (UpdateTagTable tagEnabled (ds_tagStats d) info))"

definition UpdateDomainTable :: "StatsInfo \<Rightarrow> LogStats \<Rightarrow> LogStats option" where
  "UpdateDomainTable info st =
     (if s_type info < length (domainStats st)
      then let t = domainStats st ! s_type info
           in map_option (\<lambda>d. st\<lparr>domainStats := (domainStats st)[s_type info := AList.update (s_domain info) d t]\<rparr>)
                (UpdateDomainEntry (tagEnable st) info (map_of t (s_domain info)))
      else None)"

definition UpdatePidEntry ::
  "(u32 \<Rightarrow> string option) \<Rightarrow> bool \<Rightarrow> StatsInfo \<Rightarrow> PidStatsEntry option \<Rightarrow> PidStatsEntry option" where
  "UpdatePidEntry cmdline tagEnabled info it =
     (case (case it of
              Some p \<Rightarrow>
                (if s_type info < length (ps_stats p)
                 then case (UpdateStats info (ps_statsAll p), UpdateStats info (ps_stats p ! s_type info)) of
                        (Some a, Some e) \<Rightarrow> Some (p\<lparr>ps_statsAll := a, ps_stats := (ps_stats p)[s_type info := e]\<rparr>)
                      | _ \<Rightarrow> None
                 else None)
            | None \<Rightarrow>
                (if s_type info < TypeNum
                 then map_option (\<lambda>a. \<lparr>ps_statsAll = a, ps_stats = (replicate TypeNum ResetStatsEntry)[s_type info := a],
                        ps_name = GetNameByPid cmdline (s_pid info), ps_tagStats = []\<rparr>) (StatsInfo2NewStatsEntry info)
                 else None)) of
        None \<Rightarrow> None
      | Some p \<Rightarrow> map_option (\<lambda>tt. p\<lparr>ps_tagStats := tt\<rparr>) (UpdateTagTable tagEnabled (ps_tagStats p) info))"

definition UpdatePidTable :: "(u32 \<Rightarrow> string option) \<Rightarrow> StatsInfo \<Rightarrow> LogStats \<Rightarrow> LogStats option" where
  "UpdatePidTable cmdline info st =
     map_option (\<lambda>p. st\<lparr>pidStats := AList.update (s_pid info) p (pidStats st)\<rparr>)
       (UpdatePidEntry cmdline (tagEnable st) info (map_of (pidStats st) (s_pid info)))"

definition Count :: "(u32 \<Rightarrow> string option) \<Rightarrow> StatsInfo \<Rightarrow> LogStats \<Rightarrow> LogStats option" where
  "Count cmdline info st =
     (if \<not> enable st then Some st
      else let index = IdxLvl (s_level info)
           in case (array_add (totalLines st) index 1, array_add (totalLens st) index (ucast (s_len info))) of
                (Some lines', Some lens') \<Rightarrow>
                  Option.bind (UpdateDomainTable info (st\<lparr>totalLines := lines', totalLens := lens'\<rparr>))
                    (UpdatePidTable cmdline info)
              | _ \<Rightarrow> None)"

definition Reset :: "LogTimeStamp \<Rightarrow> LogTimeStamp \<Rightarrow> LogStats \<Rightarrow> LogStats" where
  "Reset realtime monotonic st =
     st\<lparr>domainStats := map (\<lambda>t. []) (domainStats st), pidStats := [], tsBegin := realtime, monoBegin := monotonic,
        totalLines := replicate LevelNum 0, totalLens := replicate LevelNum 0\<rparr>"

definition LogStats_new :: "LogTimeStamp \<Rightarrow> LogTimeStamp \<Rightarrow> bool \<Rightarrow> bool \<Rightarrow> LogStats" where
  "LogStats_new realtime monotonic isStatsEnable isTagStatsEnable =
     (Reset realtime monotonic
        \<lparr>domainStats = replicate TypeNum [], pidStats = [], tsBegin = LogTimeStamp 0 0, monoBegin = LogTimeStamp 0 0,
         totalLines = [], totalLens = [], enable = False, tagEnable = False\<rparr>)
       \<lparr>enable := isStatsEnable, tagEnable := isTagStatsEnable\<rparr>"

section \<open>Sums over tables\<close>

lemma sum_alist_update:
  fixes f :: "'e \<Rightarrow> 'w :: comm_monoid_add"
  assumes "f e' = (case map_of t k of None \<Rightarrow> 0 | Some e \<Rightarrow> f e) + v"
  shows "sum_list (map (f \<circ> snd) (AList.update k e' t)) = sum_list (map (f \<circ> snd) t) + v"
  using assms
proof (induction t)
  case (Cons a t)
  then show ?case by (cases a) (auto simp: algebra_simps split: if_splits)
qed simp

lemma sum_list_update_at:
  fixes f :: "'e \<Rightarrow> 'w :: comm_monoid_add"
  assumes "i < length xs" "f y = f (xs ! i) + v"
  shows "sum_list (map f (xs[i := y])) = sum_list (map f xs) + v"
  using assms
proof (induction xs arbitrary: i)
  case (Cons a xs)
  then show ?case by (cases i) (auto simp: algebra_simps)
qed simp

lemma array_add_Some:
  "array_add a i v = Some a' \<longleftrightarrow> 0 \<le> i \<and> i < int (length a) \<and> a' = a[nat i := a ! nat i + v]"
  by (auto simp: array_add_def)

lemma array_add_nth:
  "array_add a i v = Some a' \<Longrightarrow> l < length a \<Longrightarrow> a' ! l = (if int l = i then a ! l + v else a ! l)"
  by (auto simp: array_add_Some nth_list_update)

section \<open>The accounting invariant\<close>

definition entry_wf :: "StatsEntry \<Rightarrow> bool" where
  "entry_wf e \<longleftrightarrow> length (e_lines e) = LevelNum \<and> length (e_len e) = LevelNum"

definition lines_of :: "StatsInfo \<Rightarrow> nat \<Rightarrow> u32" where
  "lines_of info l = (if int l = IdxLvl (s_level info) then 1 else 0)"

definition bytes_of :: "StatsInfo \<Rightarrow> nat \<Rightarrow> u64" where
  "bytes_of info l = (if int l = IdxLvl (s_level info) then ucast (s_len info) else 0)"

text \<open>\<open>bump info e e'\<close>: the counters of \<open>e'\<close> are those of \<open>e\<close> plus the log described by \<open>info\<close>.\<close>

definition bump :: "StatsInfo \<Rightarrow> StatsEntry \<Rightarrow> StatsEntry \<Rightarrow> bool" where
  "bump info e e' \<longleftrightarrow> entry_wf e' \<and>
     (\<forall>l < LevelNum. e_lines e' ! l = e_lines e ! l + lines_of info l \<and> e_len e' ! l = e_len e ! l + bytes_of info l)"

definition info_ok :: "StatsInfo \<Rightarrow> bool" where
  "info_ok info \<longleftrightarrow> LevelBase \<le> s_level info \<and> s_level info < LOG_LEVEL_MAX \<and> s_type info < TypeNum"

definition lvl_ok :: "StatsInfo \<Rightarrow> bool" where
  "lvl_ok info \<longleftrightarrow> 0 \<le> IdxLvl (s_level info) \<and> IdxLvl (s_level info) < int LevelNum"

lemma lvl_ok_iff: "lvl_ok info \<longleftrightarrow> LevelBase \<le> s_level info \<and> s_level info < LOG_LEVEL_MAX"
  by (auto simp: lvl_ok_def IdxLvl_def)

lemma array_add_defined:
  "length a = LevelNum \<Longrightarrow> array_add a (IdxLvl (s_level info)) v = None \<longleftrightarrow> \<not> lvl_ok info"
  by (auto simp: array_add_def lvl_ok_def)

lemma entry_wf_Reset: "entry_wf ResetStatsEntry"
  by (simp add: entry_wf_def ResetStatsEntry_def)

lemma CloseAudit_counters: "e_lines (CloseAudit info e) = e_lines e" "e_len (CloseAudit info e) = e_len e"
  by (simp_all add: CloseAudit_def Let_def)

lemma UpdateStats_bump:
  assumes "entry_wf e" "UpdateStats info e = Some e'"
  shows "bump info e e'"
proof -
  define e1 where "e1 = (if ts_gt (ts_minus (LogTimeStamp (s_mono_sec info) (s_tv_nsec info)) (monoTimeLast e)) (LogTimeStamp 1 0)
    then CloseAudit info e else e)"
  have e1: "e_lines e1 = e_lines e" "e_len e1 = e_len e" by (simp_all add: e1_def CloseAudit_counters)
  obtain ls ln where a: "array_add (e_lines e) (IdxLvl (s_level info)) 1 = Some ls"
    "array_add (e_len e) (IdxLvl (s_level info)) (ucast (s_len info)) = Some ln"
    and e': "e_lines e' = ls" "e_len e' = ln"
    using assms(2) unfolding UpdateStats_def Let_def e1_def [symmetric] e1
    by (auto split: option.splits)
  then show ?thesis
    using assms(1) array_add_nth [OF a(1)] array_add_nth [OF a(2)]
    by (auto simp: bump_def entry_wf_def lines_of_def bytes_of_def array_add_Some)
qed

lemma New_bump:
  assumes "StatsInfo2NewStatsEntry info = Some e'"
  shows "bump info ResetStatsEntry e'"
proof -
  obtain ls ln where a: "array_add (replicate LevelNum 0) (IdxLvl (s_level info)) 1 = Some ls"
    "array_add (replicate LevelNum 0) (IdxLvl (s_level info)) (ucast (s_len info)) = Some ln"
    and e': "e_lines e' = ls" "e_len e' = ln"
    using assms unfolding StatsInfo2NewStatsEntry_def Let_def by (auto split: option.splits)
  then show ?thesis
    using array_add_nth [OF a(1)] array_add_nth [OF a(2)]
    by (auto simp: bump_def entry_wf_def lines_of_def bytes_of_def array_add_Some ResetStatsEntry_def)
qed

lemma UpdateStats_defined: "entry_wf e \<Longrightarrow> UpdateStats info e = None \<longleftrightarrow> \<not> lvl_ok info"
  using array_add_defined [of "e_lines e" info "1 :: u32"] array_add_defined [of "e_len e" info "ucast (s_len info) :: u64"]
  by (auto simp: UpdateStats_def Let_def entry_wf_def CloseAudit_counters split: option.splits)

lemma New_defined: "StatsInfo2NewStatsEntry info = None \<longleftrightarrow> \<not> lvl_ok info"
  using array_add_defined [of "replicate LevelNum 0" info "1 :: u32"]
    array_add_defined [of "replicate LevelNum 0" info "ucast (s_len info) :: u64"]
  by (auto simp: StatsInfo2NewStatsEntry_def Let_def split: option.splits)

definition tags_wf :: "TagTable \<Rightarrow> bool" where
  "tags_wf tt \<longleftrightarrow> list_all (\<lambda>(k, e). entry_wf e) tt"

definition pid_wf :: "PidStatsEntry \<Rightarrow> bool" where
  "pid_wf p \<longleftrightarrow> entry_wf (ps_statsAll p) \<and> length (ps_stats p) = TypeNum \<and> list_all entry_wf (ps_stats p) \<and>
     tags_wf (ps_tagStats p) \<and>
     (\<forall>l < LevelNum. e_lines (ps_statsAll p) ! l = sum_list (map (\<lambda>e. e_lines e ! l) (ps_stats p)) \<and>
        e_len (ps_statsAll p) ! l = sum_list (map (\<lambda>e. e_len e ! l) (ps_stats p)))"

definition domain_wf :: "DomainStatsEntry \<Rightarrow> bool" where
  "domain_wf d \<longleftrightarrow> entry_wf (ds_stats d) \<and> tags_wf (ds_tagStats d)"

definition domain_lines :: "nat \<Rightarrow> DomainTable \<Rightarrow> u32" where
  "domain_lines l t = sum_list (map ((\<lambda>d. e_lines (ds_stats d) ! l) \<circ> snd) t)"

definition domain_len :: "nat \<Rightarrow> DomainTable \<Rightarrow> u64" where
  "domain_len l t = sum_list (map ((\<lambda>d. e_len (ds_stats d) ! l) \<circ> snd) t)"

definition pid_lines :: "nat \<Rightarrow> PidTable \<Rightarrow> u32" where
  "pid_lines l t = sum_list (map ((\<lambda>p. e_lines (ps_statsAll p) ! l) \<circ> snd) t)"

definition pid_len :: "nat \<Rightarrow> PidTable \<Rightarrow> u64" where
  "pid_len l t = sum_list (map ((\<lambda>p. e_len (ps_statsAll p) ! l) \<circ> snd) t)"

text \<open>
  The totals per level, the sums over all domains of all types and the sums over all processes
  agree, and within a process the sum over the types is the process total.
\<close>

definition stats_shape :: "LogStats \<Rightarrow> bool" where
  "stats_shape st \<longleftrightarrow> length (totalLines st) = LevelNum \<and> length (totalLens st) = LevelNum \<and>
     length (domainStats st) = TypeNum \<and>
     list_all (list_all (\<lambda>(k, d). domain_wf d)) (domainStats st) \<and> list_all (\<lambda>(k, p). pid_wf p) (pidStats st)"

definition stats_inv :: "LogStats \<Rightarrow> bool" where
  "stats_inv st \<longleftrightarrow> stats_shape st \<and>
     (\<forall>l < LevelNum.
        totalLines st ! l = sum_list (map (domain_lines l) (domainStats st)) \<and>
        totalLens st ! l = sum_list (map (domain_len l) (domainStats st)) \<and>
        totalLines st ! l = pid_lines l (pidStats st) \<and> totalLens st ! l = pid_len l (pidStats st))"

lemma bump_Reset_zero: "l < LevelNum \<Longrightarrow> e_lines ResetStatsEntry ! l = 0 \<and> e_len ResetStatsEntry ! l = 0"
  by (simp add: ResetStatsEntry_def)

lemma list_all_update: "list_all P t \<Longrightarrow> P (k, v) \<Longrightarrow> list_all P (AList.update k v t)"
  by (induction t) auto

lemma map_of_list_all: "list_all (\<lambda>(k, e). P e) t \<Longrightarrow> map_of t k = Some e \<Longrightarrow> P e"
  by (auto simp: list_all_iff dest!: map_of_SomeD)

lemma bump_wf: "bump info e e' \<Longrightarrow> entry_wf e'"
  by (simp add: bump_def)

lemma UpdateStats_wf: "entry_wf e \<Longrightarrow> UpdateStats info e = Some e' \<Longrightarrow> entry_wf e'"
  by (rule bump_wf) (rule UpdateStats_bump)

lemma New_wf: "StatsInfo2NewStatsEntry info = Some e' \<Longrightarrow> entry_wf e'"
  by (rule bump_wf) (rule New_bump)

lemma UpdateTagTable_wf:
  assumes "tags_wf tt" "UpdateTagTable en tt info = Some tt'"
  shows "tags_wf tt'"
proof (cases "map_of tt (s_tag info)")
  case None
  then show ?thesis
    using assms by (auto simp: UpdateTagTable_def tags_wf_def New_wf intro!: list_all_update split: if_splits)
next
  case (Some e)
  then have "entry_wf e" using assms(1) map_of_list_all by (fastforce simp: tags_wf_def)
  then show ?thesis
    using Some assms by (auto simp: UpdateTagTable_def tags_wf_def UpdateStats_wf intro!: list_all_update split: if_splits)
qed

lemma UpdateTagTable_defined:
  assumes "tags_wf tt" "lvl_ok info"
  shows "UpdateTagTable en tt info \<noteq> None"
proof (cases "map_of tt (s_tag info)")
  case None
  then show ?thesis
    using assms New_defined [of info] by (auto simp: UpdateTagTable_def)
next
  case (Some e)
  then have "entry_wf e" using assms(1) map_of_list_all by (fastforce simp: tags_wf_def)
  then show ?thesis
    using Some assms UpdateStats_defined [of e info] by (auto simp: UpdateTagTable_def)
qed

lemma UpdateDomainEntry_bump:
  assumes "pred_option domain_wf it" "UpdateDomainEntry en info it = Some d"
  shows "domain_wf d \<and> bump info (case it of None \<Rightarrow> ResetStatsEntry | Some d \<Rightarrow> ds_stats d) (ds_stats d)"
proof (cases it)
  case None
  then show ?thesis
    using assms(2) New_bump [of info] UpdateTagTable_wf [of "[]" en info]
    by (auto simp: UpdateDomainEntry_def domain_wf_def tags_wf_def intro: bump_wf split: option.splits)
next
  case (Some d0)
  then show ?thesis
    using assms UpdateStats_bump [of "ds_stats d0" info] UpdateTagTable_wf [of "ds_tagStats d0" en info]
    by (auto simp: UpdateDomainEntry_def domain_wf_def intro: bump_wf split: option.splits)
qed

lemma UpdateDomainEntry_defined:
  assumes "pred_option domain_wf it"
  shows "UpdateDomainEntry en info it = None \<longleftrightarrow> \<not> lvl_ok info"
proof (cases it)
  case None
  then show ?thesis
    using New_defined [of info] UpdateTagTable_defined [of "[]" info en]
    by (auto simp: UpdateDomainEntry_def tags_wf_def split: option.splits)
next
  case (Some d0)
  then show ?thesis
    using assms UpdateStats_defined [of "ds_stats d0" info] UpdateTagTable_defined [of "ds_tagStats d0" info en]
    by (auto simp: UpdateDomainEntry_def domain_wf_def split: option.splits)
qed

lemma pid_sums_bump:
  assumes "pid_wf p" "s_type info < TypeNum" "bump info (ps_statsAll p) a" "bump info (ps_stats p ! s_type info) e"
  shows "pid_wf (p\<lparr>ps_statsAll := a, ps_stats := (ps_stats p)[s_type info := e]\<rparr>)"
proof -
  have t: "s_type info < length (ps_stats p)" using assms(1,2) by (simp add: pid_wf_def)
  have "e_lines a ! l = sum_list (map (\<lambda>e. e_lines e ! l) ((ps_stats p)[s_type info := e])) \<and>
      e_len a ! l = sum_list (map (\<lambda>e. e_len e ! l) ((ps_stats p)[s_type info := e]))" if "l < LevelNum" for l
    using sum_list_update_at [OF t, of "\<lambda>e. e_lines e ! l" e "lines_of info l"]
      sum_list_update_at [OF t, of "\<lambda>e. e_len e ! l" e "bytes_of info l"] that assms
    by (simp add: bump_def pid_wf_def)
  moreover have "list_all entry_wf ((ps_stats p)[s_type info := e])"
    using assms(1,4) by (auto simp: pid_wf_def bump_def list_all_iff dest!: set_update_subset_insert [THEN subsetD])
  ultimately show ?thesis
    using assms by (simp add: pid_wf_def bump_def)
qed

lemma new_pid_wf:
  assumes "s_type info < TypeNum" "bump info ResetStatsEntry a"
  shows "pid_wf \<lparr>ps_statsAll = a, ps_stats = (replicate TypeNum ResetStatsEntry)[s_type info := a],
    ps_name = nm, ps_tagStats = []\<rparr>"
proof -
  let ?p = "\<lparr>ps_statsAll = ResetStatsEntry, ps_stats = replicate TypeNum ResetStatsEntry, ps_name = nm, ps_tagStats = []\<rparr>"
  have "pid_wf ?p"
    using entry_wf_Reset bump_Reset_zero
    by (simp add: pid_wf_def tags_wf_def list_all_iff sum_list_replicate map_replicate_const)
  from pid_sums_bump [OF this assms(1), of a a] assms show ?thesis by simp
qed

lemma UpdatePidEntry_bump:
  assumes "pred_option pid_wf it" "UpdatePidEntry cmdline en info it = Some p"
  shows "pid_wf p \<and> bump info (case it of None \<Rightarrow> ResetStatsEntry | Some p \<Rightarrow> ps_statsAll p) (ps_statsAll p)"
proof -
  obtain q tt where q: "(case it of
              Some p \<Rightarrow>
                (if s_type info < length (ps_stats p)
                 then case (UpdateStats info (ps_statsAll p), UpdateStats info (ps_stats p ! s_type info)) of
                        (Some a, Some e) \<Rightarrow> Some (p\<lparr>ps_statsAll := a, ps_stats := (ps_stats p)[s_type info := e]\<rparr>)
                      | _ \<Rightarrow> None
                 else None)
            | None \<Rightarrow>
                (if s_type info < TypeNum
                 then map_option (\<lambda>a. \<lparr>ps_statsAll = a, ps_stats = (replicate TypeNum ResetStatsEntry)[s_type info := a],
                        ps_name = GetNameByPid cmdline (s_pid info), ps_tagStats = []\<rparr>) (StatsInfo2NewStatsEntry info)
                 else None)) = Some q"
    and tt: "UpdateTagTable en (ps_tagStats q) info = Some tt" and p: "p = q\<lparr>ps_tagStats := tt\<rparr>"
    using assms(2) unfolding UpdatePidEntry_def by (auto split: option.splits)
  have *: "pid_wf q \<and> bump info (case it of None \<Rightarrow> ResetStatsEntry | Some p \<Rightarrow> ps_statsAll p) (ps_statsAll q)"
  proof (cases it)
    case None
    then show ?thesis using q New_bump [of info] new_pid_wf [of info] by (auto split: if_splits)
  next
    case (Some p0)
    then have wf: "pid_wf p0" using assms(1) by simp
    then have "entry_wf (ps_statsAll p0)" "s_type info < TypeNum \<Longrightarrow> entry_wf (ps_stats p0 ! s_type info)"
      by (auto simp: pid_wf_def list_all_length)
    then show ?thesis
      using q Some wf UpdateStats_bump pid_sums_bump [of p0 info]
      by (auto simp: pid_wf_def [of p0] split: if_splits option.splits)
  qed
  then have "tags_wf tt" using tt UpdateTagTable_wf by (auto simp: pid_wf_def)
  then show ?thesis using * by (simp add: p pid_wf_def)
qed

lemma UpdatePidEntry_defined:
  assumes "pred_option pid_wf it" "info_ok info"
  shows "UpdatePidEntry cmdline en info it \<noteq> None"
proof -
  have ok: "lvl_ok info" "s_type info < TypeNum" using assms(2) by (simp_all add: info_ok_def lvl_ok_iff)
  show ?thesis
  proof (cases it)
    case None
    then show ?thesis
      using ok New_defined [of info] UpdateTagTable_defined [of "[]" info en]
      by (auto simp: UpdatePidEntry_def tags_wf_def split: option.splits)
  next
    case (Some p0)
    then have wf: "pid_wf p0" using assms(1) by simp
    then have "entry_wf (ps_statsAll p0)" "entry_wf (ps_stats p0 ! s_type info)" "length (ps_stats p0) = TypeNum"
      "tags_wf (ps_tagStats p0)"
      using ok by (auto simp: pid_wf_def list_all_length)
    then show ?thesis
      using Some ok UpdateStats_defined [of "ps_statsAll p0" info] UpdateStats_defined [of "ps_stats p0 ! s_type info" info]
        UpdateTagTable_defined [of "ps_tagStats p0" info en]
      by (auto simp: UpdatePidEntry_def split: option.splits)
  qed
qed

lemma UpdateDomainTable_sums:
  assumes "stats_shape st" "UpdateDomainTable info st = Some st'"
  shows "stats_shape st'"
    "l < LevelNum \<Longrightarrow> sum_list (map (domain_lines l) (domainStats st')) = sum_list (map (domain_lines l) (domainStats st)) + lines_of info l"
    "l < LevelNum \<Longrightarrow> sum_list (map (domain_len l) (domainStats st')) = sum_list (map (domain_len l) (domainStats st)) + bytes_of info l"
    "totalLines st' = totalLines st" "totalLens st' = totalLens st" "pidStats st' = pidStats st"
    "enable st' = enable st" "tagEnable st' = tagEnable st"
proof -
  let ?t = "domainStats st ! s_type info"
  obtain d where t: "s_type info < length (domainStats st)"
    and d: "UpdateDomainEntry (tagEnable st) info (map_of ?t (s_domain info)) = Some d"
    and st': "st' = st\<lparr>domainStats := (domainStats st)[s_type info := AList.update (s_domain info) d ?t]\<rparr>"
    using assms(2) by (auto simp: UpdateDomainTable_def Let_def split: if_splits)
  have all: "list_all (\<lambda>(k, d). domain_wf d) ?t"
    using assms(1) t by (simp add: stats_shape_def list_all_length)
  then have "pred_option domain_wf (map_of ?t (s_domain info))"
    by (cases "map_of ?t (s_domain info)") (auto dest: map_of_list_all)
  from UpdateDomainEntry_bump [OF this d]
  have dw: "domain_wf d" and b: "bump info (case map_of ?t (s_domain info) of None \<Rightarrow> ResetStatsEntry | Some d \<Rightarrow> ds_stats d) (ds_stats d)"
    by auto
  have "list_all (\<lambda>(k, d). domain_wf d) (AList.update (s_domain info) d ?t)"
    using all dw by (intro list_all_update) auto
  then show "stats_shape st'"
    using assms(1) t by (auto simp: st' stats_shape_def list_all_length nth_list_update)
  show "sum_list (map (domain_lines l) (domainStats st')) = sum_list (map (domain_lines l) (domainStats st)) + lines_of info l"
    if l: "l < LevelNum"
  proof -
    have "domain_lines l (AList.update (s_domain info) d ?t) = domain_lines l ?t + lines_of info l"
      unfolding domain_lines_def using b l bump_Reset_zero [OF l]
      by (intro sum_alist_update) (auto simp: bump_def split: option.splits)
    then show ?thesis using sum_list_update_at [OF t, of "domain_lines l"] by (simp add: st')
  qed
  show "sum_list (map (domain_len l) (domainStats st')) = sum_list (map (domain_len l) (domainStats st)) + bytes_of info l"
    if l: "l < LevelNum"
  proof -
    have "domain_len l (AList.update (s_domain info) d ?t) = domain_len l ?t + bytes_of info l"
      unfolding domain_len_def using b l bump_Reset_zero [OF l]
      by (intro sum_alist_update) (auto simp: bump_def split: option.splits)
    then show ?thesis using sum_list_update_at [OF t, of "domain_len l"] by (simp add: st')
  qed
qed (use assms(2) in \<open>auto simp: UpdateDomainTable_def Let_def split: if_splits\<close>)

lemma UpdatePidTable_sums:
  assumes "stats_shape st" "UpdatePidTable cmdline info st = Some st'"
  shows "stats_shape st'"
    "l < LevelNum \<Longrightarrow> pid_lines l (pidStats st') = pid_lines l (pidStats st) + lines_of info l"
    "l < LevelNum \<Longrightarrow> pid_len l (pidStats st') = pid_len l (pidStats st) + bytes_of info l"
    "totalLines st' = totalLines st" "totalLens st' = totalLens st" "domainStats st' = domainStats st"
    "enable st' = enable st"
proof -
  let ?t = "pidStats st"
  obtain p where p: "UpdatePidEntry cmdline (tagEnable st) info (map_of ?t (s_pid info)) = Some p"
    and st': "st' = st\<lparr>pidStats := AList.update (s_pid info) p ?t\<rparr>"
    using assms(2) by (auto simp: UpdatePidTable_def)
  have all: "list_all (\<lambda>(k, p). pid_wf p) ?t" using assms(1) by (simp add: stats_shape_def)
  then have "pred_option pid_wf (map_of ?t (s_pid info))"
    by (cases "map_of ?t (s_pid info)") (auto dest: map_of_list_all)
  from UpdatePidEntry_bump [OF this p]
  have pw: "pid_wf p" and b: "bump info (case map_of ?t (s_pid info) of None \<Rightarrow> ResetStatsEntry | Some p \<Rightarrow> ps_statsAll p) (ps_statsAll p)"
    by auto
  have "list_all (\<lambda>(k, p). pid_wf p) (AList.update (s_pid info) p ?t)"
    using all pw by (intro list_all_update) auto
  then show "stats_shape st'" using assms(1) by (simp add: st' stats_shape_def)
  show "pid_lines l (pidStats st') = pid_lines l (pidStats st) + lines_of info l" if l: "l < LevelNum"
    unfolding pid_lines_def st' using b l bump_Reset_zero [OF l]
    by (simp, intro sum_alist_update) (auto simp: bump_def split: option.splits)
  show "pid_len l (pidStats st') = pid_len l (pidStats st) + bytes_of info l" if l: "l < LevelNum"
    unfolding pid_len_def st' using b l bump_Reset_zero [OF l]
    by (simp, intro sum_alist_update) (auto simp: bump_def split: option.splits)
qed (use assms(2) in \<open>auto simp: UpdatePidTable_def\<close>)

section \<open>Counting\<close>

lemma Count_inv:
  assumes "stats_inv st" "Count cmdline info st = Some st'"
  shows "stats_inv st' \<and> enable st' = enable st \<and>
    (\<forall>l < LevelNum. totalLines st' ! l = totalLines st ! l + (if enable st then lines_of info l else 0))"
proof (cases "enable st")
  case False
  then show ?thesis using assms by (simp add: Count_def)
next
  case True
  obtain ls ln st1 where a: "array_add (totalLines st) (IdxLvl (s_level info)) 1 = Some ls"
    "array_add (totalLens st) (IdxLvl (s_level info)) (ucast (s_len info)) = Some ln"
    and st1: "UpdateDomainTable info (st\<lparr>totalLines := ls, totalLens := ln\<rparr>) = Some st1"
    and st': "UpdatePidTable cmdline info st1 = Some st'"
    using assms(2) True by (auto simp: Count_def Let_def bind_eq_Some_conv split: option.splits)
  have shape: "stats_shape st" using assms(1) by (simp add: stats_inv_def)
  then have "stats_shape (st\<lparr>totalLines := ls, totalLens := ln\<rparr>)"
    using a by (auto simp: stats_shape_def array_add_Some)
  note d = UpdateDomainTable_sums [OF this st1]
  note p = UpdatePidTable_sums [OF d(1) st']
  have nth: "l < LevelNum \<Longrightarrow> ls ! l = totalLines st ! l + lines_of info l"
    "l < LevelNum \<Longrightarrow> ln ! l = totalLens st ! l + bytes_of info l" for l
    using array_add_nth [OF a(1), of l] array_add_nth [OF a(2), of l] shape
    by (simp_all add: stats_shape_def lines_of_def bytes_of_def)
  have inv: "l < LevelNum \<Longrightarrow> sum_list (map (domain_lines l) (domainStats st)) = totalLines st ! l"
    "l < LevelNum \<Longrightarrow> sum_list (map (domain_len l) (domainStats st)) = totalLens st ! l"
    "l < LevelNum \<Longrightarrow> pid_lines l (pidStats st) = totalLines st ! l"
    "l < LevelNum \<Longrightarrow> pid_len l (pidStats st) = totalLens st ! l" for l
    using assms(1) unfolding stats_inv_def by metis+
  show ?thesis
    unfolding stats_inv_def using d p nth inv True by simp
qed

lemma Reset_inv: "length (domainStats st) = TypeNum \<Longrightarrow> stats_inv (Reset rt mt st)"
  by (simp add: stats_inv_def stats_shape_def Reset_def list_all_length domain_lines_def domain_len_def
      pid_lines_def pid_len_def comp_def map_replicate_const sum_list_replicate)

lemma LogStats_new_inv: "stats_inv (LogStats_new rt mt en ten)"
  by (simp add: LogStats_new_def stats_inv_def stats_shape_def Reset_def list_all_length domain_lines_def
      domain_len_def pid_lines_def pid_len_def comp_def map_replicate_const sum_list_replicate)

text \<open>Counting a sequence of logs, one after the other.\<close>

fun count_all :: "(u32 \<Rightarrow> string option) \<Rightarrow> StatsInfo list \<Rightarrow> LogStats \<Rightarrow> LogStats option" where
  "count_all cmdline [] st = Some st"
| "count_all cmdline (info # infos) st = Option.bind (Count cmdline info st) (count_all cmdline infos)"

lemma count_all_inv:
  "stats_inv st \<Longrightarrow> count_all cmdline infos st = Some st' \<Longrightarrow>
     stats_inv st' \<and> (\<forall>l < LevelNum. totalLines st' ! l =
       totalLines st ! l + (if enable st then sum_list (map (\<lambda>i. lines_of i l) infos) else 0))"
proof (induction infos arbitrary: st)
  case (Cons info infos)
  then obtain st1 where "Count cmdline info st = Some st1" "count_all cmdline infos st1 = Some st'"
    by (auto simp: bind_eq_Some_conv)
  then show ?case
    using Cons.IH [of st1] Count_inv [of st cmdline info st1] Cons.prems(1) by (auto simp: add.assoc)
qed simp

lemma sum_lines_of: "sum_list (map (\<lambda>i. lines_of i l) infos) = of_nat (length (filter (\<lambda>i. s_level i = LevelBase + l) infos))"
  by (induction infos) (auto simp: lines_of_def IdxLvl_def)

text \<open>
  C19: After any sequence of counted logs the three views of the statistics agree: for every
  level the total, the sum over all domains and the sum over all processes are the same
  number of lines and of bytes, every process total is the sum over its log types, and the
  number of lines is the number of counted logs of the level (modulo the counter width).
\<close>

theorem stats_accounting:
  assumes "count_all cmdline infos (LogStats_new rt mt True ten) = Some st"
  shows "stats_inv st \<and> (\<forall>l. l < LevelNum \<longrightarrow>
    totalLines st ! l = of_nat (length (filter (\<lambda>i. s_level i = LevelBase + l) infos)))"
  using count_all_inv [OF LogStats_new_inv assms]
  by (auto simp: sum_lines_of) (simp_all add: LogStats_new_def Reset_def)

definition demo_info :: StatsInfo where
  "demo_info = \<lparr>s_level = 4, s_type = 3, s_len = 10, s_dropped = 0, s_domain = 0xD002D00, s_pid = 7,
     s_tv_sec = 1, s_tv_nsec = 2, s_mono_sec = 3, s_tag = ''t''\<rparr>"

lemma demo_count:
  "count_all (\<lambda>_. None) [demo_info, demo_info\<lparr>s_level := 6\<rparr>]
     (LogStats_new (LogTimeStamp 0 0) (LogTimeStamp 0 0) True True) \<noteq> None"
  by code_simp

theorem stats_accounting_witness:
  "\<exists>st. count_all (\<lambda>_. None) [demo_info, demo_info\<lparr>s_level := 6\<rparr>]
      (LogStats_new (LogTimeStamp 0 0) (LogTimeStamp 0 0) True True) = Some st \<and> totalLines st ! 3 = 1"
proof -
  obtain st where st: "count_all (\<lambda>_. None) [demo_info, demo_info\<lparr>s_level := 6\<rparr>]
      (LogStats_new (LogTimeStamp 0 0) (LogTimeStamp 0 0) True True) = Some st"
    using demo_count by auto
  from stats_accounting [OF this] have "totalLines st ! 3 = 1" by (simp add: demo_info_def)
  with st show ?thesis by blast
qed

text \<open>
  C20: Counting is defined exactly for logs of the levels \<open>LOG_DEBUG\<close> to \<open>LOG_FATAL\<close> and of a
  type below \<open>LOG_TYPE_MAX\<close>; for any other level or type the code writes outside its arrays.
\<close>

theorem Count_defined_iff:
  assumes "stats_inv st" "enable st"
  shows "Count cmdline info st \<noteq> None \<longleftrightarrow> info_ok info"
proof -
  have shape: "stats_shape st" using assms(1) by (simp add: stats_inv_def)
  show ?thesis
  proof (cases "info_ok info")
    case True
    then have ok: "lvl_ok info" "s_type info < TypeNum" by (simp_all add: info_ok_def lvl_ok_iff)
    obtain ls ln where a: "array_add (totalLines st) (IdxLvl (s_level info)) 1 = Some ls"
      "array_add (totalLens st) (IdxLvl (s_level info)) (ucast (s_len info)) = Some ln"
      using array_add_defined [of "totalLines st" info "1 :: u32"]
        array_add_defined [of "totalLens st" info "ucast (s_len info) :: u64"] shape ok(1)
      by (auto simp: stats_shape_def)
    let ?st = "st\<lparr>totalLines := ls, totalLens := ln\<rparr>"
    have s: "stats_shape ?st" using shape a by (auto simp: stats_shape_def array_add_Some)
    have "list_all (\<lambda>(k, d). domain_wf d) (domainStats st ! s_type info)"
      using shape ok(2) by (simp add: stats_shape_def list_all_length)
    then have "pred_option domain_wf (map_of (domainStats st ! s_type info) (s_domain info))"
      by (cases "map_of (domainStats st ! s_type info) (s_domain info)") (auto dest: map_of_list_all)
    from UpdateDomainEntry_defined [OF this, of "tagEnable st" info]
    obtain st1 where st1: "UpdateDomainTable info ?st = Some st1"
      using shape ok by (auto simp: UpdateDomainTable_def stats_shape_def Let_def)
    have "list_all (\<lambda>(k, p). pid_wf p) (pidStats st1)"
      using UpdateDomainTable_sums(1) [OF s st1] by (simp add: stats_shape_def)
    then have "pred_option pid_wf (map_of (pidStats st1) (s_pid info))"
      by (cases "map_of (pidStats st1) (s_pid info)") (auto dest: map_of_list_all)
    from UpdatePidEntry_defined [OF this True, of cmdline "tagEnable st1"]
    show ?thesis using a st1 True assms(2) by (auto simp: Count_def UpdatePidTable_def)
  next
    case False
    then consider "\<not> lvl_ok info" | "\<not> s_type info < TypeNum" by (auto simp: info_ok_def lvl_ok_iff)
    then show ?thesis
    proof cases
      case 1
      then have "array_add (totalLines st) (IdxLvl (s_level info)) 1 = None"
        using shape array_add_defined [of "totalLines st" info "1 :: u32"] by (simp add: stats_shape_def)
      then show ?thesis using False assms(2) by (simp add: Count_def)
    next
      case 2
      then show ?thesis
        using False shape assms(2) by (auto simp: Count_def UpdateDomainTable_def stats_shape_def Let_def split: option.splits)
    qed
  qed
qed

theorem Count_defined_iff_witness:
  "Count (\<lambda>_. None) (demo_info\<lparr>s_level := 0\<rparr>) (LogStats_new (LogTimeStamp 0 0) (LogTimeStamp 0 0) True False) = None"
proof -
  have "enable (LogStats_new (LogTimeStamp 0 0) (LogTimeStamp 0 0) True False)" by (simp add: LogStats_new_def)
  from Count_defined_iff [OF LogStats_new_inv this, of "\<lambda>_. None" "demo_info\<lparr>s_level := 0\<rparr>"]
  show ?thesis by (simp add: info_ok_def)
qed

end
