(* ===== verification/Log_Buffer.thy ===== *)
theory Log_Buffer
  imports Log_Filter Log_Stats
begin

text \<open>
  The log buffer of hilogd, \<open>log_buffer.h\<close> and \<open>log_buffer.cpp\<close>. The \<open>std::list\<close> of logs is a
  list of nodes, each with an identity, so that an iterator is the identity of its node and
  stays valid while other nodes come and go; \<open>Null\<close> is the value-initialised iterator of a
  reader that has not queried yet. \<open>m_msgList\<close> is either \<open>nullptr\<close> or the one list of the
  buffer and becomes a flag. The global array \<open>g_maxBufferSizeByType\<close> is passed explicitly.
  All byte counts are \<open>size_t\<close> and wrap.
\<close>

section \<open>State\<close>

datatype iter = Null | At nat | End

type_synonym LogMsgContainer = "(nat \<times> HilogData) list"
type_synonym ReaderId = nat

record BufferReader =
  m_pos :: iter
  m_msgList :: bool
  skipped :: u32
  m_onNewDataCallback :: bool

datatype DeleteReason = BUFF_OVERFLOW | CMD_CLEAR

record HilogBuffer =
  sizeByType :: "size_t list"
  hilogDataList :: LogMsgContainer
  next_node :: nat
  m_logReaders :: "(ReaderId \<times> BufferReader) list"
  stats :: LogStats
  m_isSupportSkipLog :: bool

type_synonym BufferLimits = "size_t list"

definition g_maxBufferSizeByType :: BufferLimits where
  "g_maxBufferSizeByType = [262144, 262144, 262144, 262144, 262144, 0]"

section \<open>Iterators\<close>

definition list_begin :: "LogMsgContainer \<Rightarrow> iter" where
  "list_begin l = (case l of [] \<Rightarrow> End | x # xs \<Rightarrow> At (fst x))"

text \<open>The nodes from an iterator on.\<close>

definition list_from :: "LogMsgContainer \<Rightarrow> iter \<Rightarrow> LogMsgContainer" where
  "list_from l it = (case it of At n \<Rightarrow> dropWhile (\<lambda>x. fst x \<noteq> n) l | _ \<Rightarrow> [])"

definition list_next :: "LogMsgContainer \<Rightarrow> iter \<Rightarrow> iter" where
  "list_next l it = list_begin (tl (list_from l it))"

definition list_erase :: "LogMsgContainer \<Rightarrow> nat \<Rightarrow> LogMsgContainer" where
  "list_erase l n = filter (\<lambda>x. fst x \<noteq> n) l"

section \<open>Readers\<close>

definition map_readers :: "(BufferReader \<Rightarrow> BufferReader) \<Rightarrow> HilogBuffer \<Rightarrow> HilogBuffer" where
  "map_readers f b = b\<lparr>m_logReaders := map (\<lambda>(rid, r). (rid, f r)) (m_logReaders b)\<rparr>"

definition GetReader :: "ReaderId \<Rightarrow> HilogBuffer \<Rightarrow> BufferReader option" where
  "GetReader rid b = map_of (m_logReaders b) rid"

definition put_reader :: "ReaderId \<Rightarrow> BufferReader \<Rightarrow> HilogBuffer \<Rightarrow> HilogBuffer" where
  "put_reader rid r b = b\<lparr>m_logReaders := AList.update rid r (m_logReaders b)\<rparr>"

text \<open>The identity of a reader is the address of its fresh heap object.\<close>

definition CreateBufReader :: "ReaderId \<Rightarrow> bool \<Rightarrow> HilogBuffer \<Rightarrow> HilogBuffer" where
  "CreateBufReader addr callback b =
     (if addr \<in> fst ` set (m_logReaders b) then b
      else b\<lparr>m_logReaders := insort_key fst
             (addr, \<lparr>m_pos = Null, m_msgList = False, skipped = 0, m_onNewDataCallback = callback\<rparr>) (m_logReaders b)\<rparr>)"

definition RemoveBufReader :: "ReaderId \<Rightarrow> HilogBuffer \<Rightarrow> HilogBuffer" where
  "RemoveBufReader rid b = b\<lparr>m_logReaders := filter (\<lambda>x. fst x \<noteq> rid) (m_logReaders b)\<rparr>"

definition IsItemUsed :: "HilogBuffer \<Rightarrow> nat \<Rightarrow> bool" where
  "IsItemUsed b itemPos =
     (if m_isSupportSkipLog b then False else list_ex (\<lambda>(rid, r). m_pos r = At itemPos) (m_logReaders b))"

definition OnDeleteItem :: "nat \<Rightarrow> DeleteReason \<Rightarrow> HilogBuffer \<Rightarrow> HilogBuffer" where
  "OnDeleteItem itemPos reason b =
     map_readers (\<lambda>r. if m_pos r = At itemPos
       then r\<lparr>m_pos := list_next (hilogDataList b) (At itemPos),
              skipped := (if reason = BUFF_OVERFLOW then skipped r + 1 else skipped r)\<rparr>
       else r) b"

definition OnPushBackedItem :: "nat \<Rightarrow> HilogBuffer \<Rightarrow> HilogBuffer" where
  "OnPushBackedItem last_node b = map_readers (\<lambda>r. if m_pos r = End then r\<lparr>m_pos := At last_node\<rparr> else r) b"

text \<open>The readers whose callback \<open>OnNewItem\<close> runs.\<close>

definition OnNewItem :: "HilogBuffer \<Rightarrow> ReaderId list" where
  "OnNewItem b = map fst (filter (\<lambda>(rid, r). m_msgList r \<and> m_onNewDataCallback r) (m_logReaders b))"

section \<open>Inserting\<close>

definition ConvertBufType :: "nat \<Rightarrow> nat" where
  "ConvertBufType type = (if type = LOG_ONLY_PRERELEASE then LOG_CORE else type)"

definition bufType :: "HilogData \<Rightarrow> nat" where
  "bufType d = ConvertBufType (unat (d_type d))"

text \<open>
  \<open>sizeByType[t] > g_maxBufferSizeByType[t] * (1 - DROP_RATIO)\<close> in single precision: the
  constant \<open>1 - 0.05f\<close> is \<open>15938355 * 2\<^bsup>-24\<^esup>\<close>.
\<close>

definition over_drop_mark :: "size_t \<Rightarrow> size_t \<Rightarrow> bool" where
  "over_drop_mark sz mx \<longleftrightarrow> f32_round (unat sz) * 2 ^ 24 > f32_round (f32_round (unat mx) * 15938355)"

definition delete_node :: "DeleteReason \<Rightarrow> nat \<Rightarrow> nat \<Rightarrow> size_t \<Rightarrow> HilogBuffer \<Rightarrow> HilogBuffer" where
  "delete_node reason n t cLen b =
     (let b1 = OnDeleteItem n reason b
      in b1\<lparr>sizeByType := (sizeByType b1)[t := sizeByType b1 ! t - cLen],
            hilogDataList := list_erase (hilogDataList b1) n\<rparr>)"

text \<open>The loop that removes old logs of the same buffer; \<open>True\<close> is the early return with \<open>isFull\<close>.\<close>

fun Insert_drop :: "BufferLimits \<Rightarrow> nat \<Rightarrow> LogMsgContainer \<Rightarrow> HilogBuffer \<Rightarrow> bool \<times> HilogBuffer" where
  "Insert_drop gmax bufferType [] b = (False, b)"
| "Insert_drop gmax bufferType ((n, d) # rest) b =
     (if \<not> over_drop_mark (sizeByType b ! bufferType) (gmax ! bufferType) then (False, b)
      else if bufType d \<noteq> bufferType then Insert_drop gmax bufferType rest b
      else if IsItemUsed b n then (True, b)
      else Insert_drop gmax bufferType rest (delete_node BUFF_OVERFLOW n (bufType d) (d_cLen d) b))"

definition Insert_append :: "HilogMsg \<Rightarrow> nat \<Rightarrow> size_t \<Rightarrow> HilogBuffer \<Rightarrow> HilogBuffer" where
  "Insert_append msg bufferType elemSize b =
     OnPushBackedItem (next_node b)
       (b\<lparr>hilogDataList := hilogDataList b @ [(next_node b, HilogData_of_msg msg)], next_node := next_node b + 1,
          sizeByType := (sizeByType b)[bufferType := sizeByType b ! bufferType + elemSize]\<rparr>)"

text \<open>The result is the returned size, the flag \<open>isFull\<close>, the buffer and the readers notified.\<close>

definition Insert :: "BufferLimits \<Rightarrow> HilogMsg \<Rightarrow> bool \<Rightarrow> HilogBuffer \<Rightarrow> size_t \<times> bool \<times> HilogBuffer \<times> ReaderId list" where
  "Insert gmax msg isFull b =
     (let elemSize = CONTENT_LEN msg
      in if unat (m_tagLen msg) > MAX_TAG_LEN \<or> m_tagLen msg = 0 \<or> unat elemSize > MAX_LOG_LEN \<or>
            elemSize = 0 \<or> unat (m_type msg) \<ge> LOG_TYPE_MAX
         then (0, isFull, b, [])
         else let bufferType = ConvertBufType (unat (m_type msg));
                  (used, b1) = (if elemSize + sizeByType b ! bufferType \<ge> gmax ! bufferType
                                then Insert_drop gmax bufferType (hilogDataList b) b
                                else (False, b))
              in if used then (0, True, b1, [])
                 else let b2 = Insert_append msg bufferType elemSize b1
                      in (elemSize, False, b2, OnNewItem b2))"

section \<open>Messages of the buffer itself\<close>

definition GenerateHilogMsgInside :: "LogTimeStamp \<Rightarrow> LogTimeStamp \<Rightarrow> string \<Rightarrow> nat \<Rightarrow> HilogMsg option" where
  "GenerateHilogMsgInside ts ts_mono msg logType =
     (let tag = ''HiLog'';
          len0 = of_nat (SIZEOF_HilogMsg + (length tag + 1 + length msg + 1)) :: u16;
          len1 = (if unat len0 > MAX_LOG_LEN then of_nat MAX_LOG_LEN else len0);
          contentLen = (ucast len1 - of_nat SIZEOF_HilogMsg :: size_t);
          tagLen = of_nat (length tag + 1) :: 6 word;
          (e1, bs1) = memcpy_s (unat contentLen) (tag @ [NUL]) (unat tagLen);
          (e2, bs2) = memcpy_s (unat (contentLen - ucast tagLen)) (msg @ [NUL]) (length msg + 1)
      in if e1 \<noteq> EOK \<or> e2 \<noteq> EOK then None
         else Some \<lparr>m_len = len1, m_version = 0, m_type = of_nat logType, m_level = of_nat LOG_INFO, m_tagLen = tagLen,
           m_tv_sec = tv_sec ts, m_tv_nsec = tv_nsec ts, m_mono_sec = tv_nsec ts_mono, m_pid = 0, m_tid = 0,
           m_domain = 0, m_payload = bs1 @ bs2\<rparr>)"

section \<open>Querying\<close>

text \<open>
  The exception \<open>std::regex_error\<close> is not caught anywhere and ends the daemon; the buffer returned
  with it has no further use.
\<close>

datatype regex_error = RegexError

text \<open>
  The placement of a new reader \<open>tailCount\<close> matches before the end, over the nodes in reverse
  order. The first step back from \<open>end()\<close> of an empty list stays at the sentinel.
\<close>

fun tail_loop :: "(string \<Rightarrow> string \<Rightarrow> bool option) \<Rightarrow> LogFilter \<Rightarrow> nat \<Rightarrow> LogMsgContainer \<Rightarrow> regex_error + iter" where
  "tail_loop rx f k [] = Inr End"
| "tail_loop rx f 0 (x # xs) = Inr (At (fst x))"
| "tail_loop rx f (Suc k) [x] = Inr (At (fst x))"
| "tail_loop rx f (Suc k) (x # y # xs) =
     (case LogMatchFilter rx f (snd x) of
        None \<Rightarrow> Inl RegexError
      | Some m \<Rightarrow> tail_loop rx f (if m then k else Suc k) (y # xs))"

definition Query_start :: "(string \<Rightarrow> string \<Rightarrow> bool option) \<Rightarrow> LogFilter \<Rightarrow> nat \<Rightarrow> LogMsgContainer \<Rightarrow> regex_error + iter" where
  "Query_start rx f tailCount l = (if tailCount = 0 then Inr (list_begin l) else tail_loop rx f tailCount (rev l))"

fun query_loop :: "(string \<Rightarrow> string \<Rightarrow> bool option) \<Rightarrow> LogFilter \<Rightarrow> LogMsgContainer \<Rightarrow> (regex_error + HilogData option) \<times> iter" where
  "query_loop rx f [] = (Inr None, End)"
| "query_loop rx f (x # xs) =
     (case LogMatchFilter rx f (snd x) of
        None \<Rightarrow> (Inl RegexError, list_begin xs)
      | Some True \<Rightarrow> (Inr (Some (HilogData_copy (snd x))), list_begin xs)
      | Some False \<Rightarrow> query_loop rx f xs)"

text \<open>The notice to a reader that was overtaken by the removal of old logs.\<close>

definition SkippedNotice :: "LogTimeStamp \<Rightarrow> LogTimeStamp \<Rightarrow> u32 \<Rightarrow> HilogMsg option" where
  "SkippedNotice ts ts_mono n =
     (if n = 0 then None
      else GenerateHilogMsgInside ts ts_mono (''========Slow reader missed log lines: '' @ Num2Str 10 (unat n)) LOG_CORE)"

definition Query ::
  "(string \<Rightarrow> string \<Rightarrow> bool option) \<Rightarrow> LogTimeStamp \<Rightarrow> LogTimeStamp \<Rightarrow> LogFilter \<Rightarrow> ReaderId \<Rightarrow> nat \<Rightarrow> HilogBuffer \<Rightarrow>
   (regex_error + HilogData option) \<times> HilogBuffer" where
  "Query rx ts ts_mono f rid tailCount b =
     (case GetReader rid b of
        None \<Rightarrow> (Inr None, b)
      | Some r \<Rightarrow>
          (case (if m_msgList r then Inr (m_pos r) else Query_start rx f tailCount (hilogDataList b)) of
             Inl e \<Rightarrow> (Inl e, b)
           | Inr pos \<Rightarrow>
               (let r1 = r\<lparr>m_msgList := True, m_pos := pos\<rparr>
                in case SkippedNotice ts ts_mono (skipped r1) of
                     Some headMsg \<Rightarrow> (Inr (Some (HilogData_of_msg headMsg)), put_reader rid (r1\<lparr>skipped := 0\<rparr>) b)
                   | None \<Rightarrow>
                       (let (res, pos') = query_loop rx f (list_from (hilogDataList b) pos)
                        in (res, put_reader rid (r1\<lparr>m_pos := pos'\<rparr>) b)))))"

section \<open>Deleting\<close>

fun Delete_loop :: "nat \<Rightarrow> LogMsgContainer \<Rightarrow> size_t \<Rightarrow> HilogBuffer \<Rightarrow> size_t \<times> HilogBuffer" where
  "Delete_loop logType [] deleted b = (deleted, b)"
| "Delete_loop logType ((n, d) # rest) deleted b =
     (if unat (d_type d) \<noteq> logType then Delete_loop logType rest deleted b
      else Delete_loop logType rest (deleted + d_cLen d) (delete_node CMD_CLEAR n (unat (d_type d)) (d_cLen d) b))"

text \<open>The sum of the deleted sizes is returned as \<open>int32_t\<close>.\<close>

definition Delete :: "nat \<Rightarrow> HilogBuffer \<Rightarrow> int \<times> HilogBuffer" where
  "Delete logType b =
     (if logType \<ge> LOG_TYPE_MAX then (ERR_LOG_TYPE_INVALID, b)
      else let (deleted, b') = Delete_loop logType (hilogDataList b) 0 b
           in (sint (ucast deleted :: u32), b'))"

section \<open>Limits, statistics, construction\<close>

definition GetBuffLen :: "BufferLimits \<Rightarrow> nat \<Rightarrow> int" where
  "GetBuffLen gmax logType = (if logType \<ge> LOG_TYPE_MAX then ERR_LOG_TYPE_INVALID else sint (gmax ! logType))"

definition SetBuffLen :: "nat \<Rightarrow> u64 \<Rightarrow> BufferLimits \<Rightarrow> int \<times> BufferLimits" where
  "SetBuffLen logType buffSize gmax =
     (if logType \<ge> LOG_TYPE_MAX then (ERR_LOG_TYPE_INVALID, gmax)
      else if unat buffSize < MIN_BUFFER_SIZE \<or> unat buffSize > MAX_BUFFER_SIZE then (ERR_BUFF_SIZE_INVALID, gmax)
      else (RET_SUCCESS, gmax[logType := buffSize]))"

text \<open>\<open>GetBufferSize type persist\<close> is the size found in the system properties.\<close>

definition InitBuffLen :: "(nat \<Rightarrow> bool \<Rightarrow> u64) \<Rightarrow> BufferLimits \<Rightarrow> BufferLimits" where
  "InitBuffLen GetBufferSize gmax =
     fold (\<lambda>i g. snd (SetBuffLen i (GetBufferSize i True)
                  (snd (SetBuffLen i (GetBufferSize i False)
                    (snd (SetBuffLen i (GetBufferSize LOG_TYPE_MAX True)
                      (snd (SetBuffLen i (GetBufferSize LOG_TYPE_MAX False) g))))))))
       [0..<LOG_TYPE_MAX] gmax"

definition InitBuffHead :: "(nat \<Rightarrow> LogTimeStamp \<times> LogTimeStamp) \<Rightarrow> BufferLimits \<Rightarrow> HilogBuffer \<Rightarrow> HilogBuffer" where
  "InitBuffHead clock gmax b =
     fold (\<lambda>i b. if LogType2Str i = ''invalid'' then b
                 else case GenerateHilogMsgInside (fst (clock i)) (snd (clock i))
                             (''========Zeroth log of type: '' @ LogType2Str i) i of
                        None \<Rightarrow> b
                      | Some headMsg \<Rightarrow> fst (snd (snd (Insert gmax headMsg False b))))
       [0..<LOG_TYPE_MAX] b"

definition HilogBuffer_new :: "(nat \<Rightarrow> LogTimeStamp \<times> LogTimeStamp) \<Rightarrow> BufferLimits \<Rightarrow> bool \<Rightarrow> LogStats \<Rightarrow> HilogBuffer" where
  "HilogBuffer_new clock gmax isSupportSkipLog st =
     InitBuffHead clock gmax \<lparr>sizeByType = replicate LOG_TYPE_MAX 0, hilogDataList = [], next_node = 0,
       m_logReaders = [], stats = st, m_isSupportSkipLog = isSupportSkipLog\<rparr>"

definition CountLog :: "(u32 \<Rightarrow> string option) \<Rightarrow> StatsInfo \<Rightarrow> HilogBuffer \<Rightarrow> HilogBuffer option" where
  "CountLog cmdline info b = map_option (\<lambda>st. b\<lparr>stats := st\<rparr>) (Count cmdline info (stats b))"

definition ResetStats :: "LogTimeStamp \<Rightarrow> LogTimeStamp \<Rightarrow> HilogBuffer \<Rightarrow> HilogBuffer" where
  "ResetStats realtime monotonic b = b\<lparr>stats := Reset realtime monotonic (stats b)\<rparr>"

lemmas iter_defs = list_begin_def list_from_def list_next_def list_erase_def
lemmas reader_defs = map_readers_def GetReader_def put_reader_def OnDeleteItem_def OnPushBackedItem_def

end
