(* ===== verification/Log_Buffer_Inv.thy ===== *)
theory Log_Buffer_Inv
  imports Log_Buffer
begin

text \<open>
  Invariants of the log buffer: node identities are unique, no reader points at a node that is
  gone, and the byte counters agree with the list. Every operation is described by its effect on
  the list of nodes and on the nodes each reader has still to see.
\<close>

section \<open>Well-formed buffers\<close>

definition data_wf :: "HilogData \<Rightarrow> bool" where
  "data_wf d \<longleftrightarrow> (case d_mem d of None \<Rightarrow> False | Some m \<Rightarrow> length m = unat (d_len d)) \<and>
     unat (d_type d) < LOG_TYPE_MAX \<and> unat (d_tagLen d) < unat (d_len d)"

definition reader_wf :: "LogMsgContainer \<Rightarrow> BufferReader \<Rightarrow> bool" where
  "reader_wf l r \<longleftrightarrow>
     (case m_pos r of Null \<Rightarrow> \<not> m_msgList r | At n \<Rightarrow> m_msgList r \<and> n \<in> set (map fst l) | End \<Rightarrow> m_msgList r)"

text \<open>
  Node identities are unique and below the counter, every stored log is initialised, every
  reader that has queried points at a node of the list or at its end.
\<close>

definition buffer_wf :: "HilogBuffer \<Rightarrow> bool" where
  "buffer_wf b \<longleftrightarrow> distinct (map fst (hilogDataList b)) \<and>
     list_all (\<lambda>(n, d). n < next_node b \<and> data_wf d) (hilogDataList b) \<and>
     length (sizeByType b) = LOG_TYPE_MAX \<and> distinct (map fst (m_logReaders b)) \<and>
     list_all (\<lambda>(rid, r). reader_wf (hilogDataList b) r) (m_logReaders b)"

text \<open>The logs a reader has still to see, with their identities.\<close>

definition pending_nodes :: "HilogBuffer \<Rightarrow> ReaderId \<Rightarrow> LogMsgContainer" where
  "pending_nodes b rid = (case GetReader rid b of None \<Rightarrow> [] | Some r \<Rightarrow> list_from (hilogDataList b) (m_pos r))"

definition attached :: "HilogBuffer \<Rightarrow> ReaderId \<Rightarrow> bool" where
  "attached b rid \<longleftrightarrow> (case GetReader rid b of None \<Rightarrow> False | Some r \<Rightarrow> m_msgList r)"

section \<open>Iterators and positions\<close>

lemma list_from_begin:
  assumes "distinct (map fst (pre @ post))"
  shows "list_from (pre @ post) (list_begin post) = post"
proof (cases post)
  case (Cons x xs)
  then have "fst y \<noteq> fst x" if "y \<in> set pre" for y
    using assms Cons that by (auto simp: image_iff)
  then show ?thesis using Cons by (simp add: list_from_def list_begin_def dropWhile_append2)
qed (simp add: list_from_def list_begin_def)

lemma list_from_begin_self [simp]: "distinct (map fst l) \<Longrightarrow> list_from l (list_begin l) = l"
  using list_from_begin [of "[]" l] by simp

lemma list_from_split:
  assumes "n \<in> set (map fst l)"
  obtains pre d post where "l = pre @ (n, d) # post" "list_from l (At n) = (n, d) # post" "n \<notin> set (map fst pre)"
proof -
  obtain pre x post where l: "l = pre @ x # post" "fst x = n" "\<forall>y \<in> set pre. fst y \<noteq> n"
    using assms split_list_first_prop [of l "\<lambda>x. fst x = n"] by (metis (mono_tags, lifting) imageE set_map)
  moreover have "list_from l (At n) = x # post"
    using l by (simp add: list_from_def dropWhile_append2)
  ultimately show ?thesis using that [of pre "snd x" post] by (cases x) auto
qed

lemma dropWhile_filter_other:
  "m \<noteq> n \<Longrightarrow> dropWhile (\<lambda>x. fst x \<noteq> m) (filter (\<lambda>x. fst x \<noteq> n) l) = filter (\<lambda>x. fst x \<noteq> n) (dropWhile (\<lambda>x. fst x \<noteq> m) l)"
  by (induction l) auto

lemma same_node: "distinct (map fst l) \<Longrightarrow> (n, d) \<in> set l \<Longrightarrow> x \<in> set l \<Longrightarrow> fst x \<noteq> n \<longleftrightarrow> x \<noteq> (n, d)"
  using eq_key_imp_eq_value [of l n d "snd x"] by (cases x) auto

lemma erase_filter:
  assumes "distinct (map fst l)" "(n, d) \<in> set l"
  shows "list_erase l n = filter (\<lambda>x. x \<noteq> (n, d)) l"
  unfolding list_erase_def using same_node [OF assms] by (rule filter_cong [OF refl])

lemma filter_self_not_in: "n \<notin> set (map fst l) \<Longrightarrow> filter (\<lambda>x. fst x \<noteq> n) l = l"
  by (rule filter_True) auto

text \<open>Erasing a node: a reader at the node moves to the next one, everyone else keeps its place.\<close>

lemma list_from_erase:
  assumes dist: "distinct (map fst l)" and n: "n \<in> set (map fst l)"
  defines "move \<equiv> \<lambda>p. if p = At n then list_next l (At n) else p"
  shows "list_from (list_erase l n) (move p) = filter (\<lambda>x. fst x \<noteq> n) (list_from l p)"
proof (cases "p = At n")
  case True
  from list_from_split [OF n] obtain pre d post
    where l: "l = pre @ (n, d) # post" "list_from l (At n) = (n, d) # post" "n \<notin> set (map fst pre)" by metis
  have post: "n \<notin> set (map fst post)" using dist l(1) by auto
  have "list_erase l n = pre @ post"
    using l post by (simp add: list_erase_def filter_self_not_in)
  moreover have "distinct (map fst (pre @ post))" using dist l(1) by auto
  ultimately show ?thesis
    using True l(2) post list_from_begin [of pre post]
    by (simp add: move_def list_next_def filter_self_not_in)
next
  case False
  then show ?thesis
    by (cases p) (auto simp: move_def list_from_def list_erase_def dropWhile_filter_other)
qed

lemma list_begin_in: "list_begin l \<noteq> Null \<and> (\<forall>n. list_begin l = At n \<longrightarrow> n \<in> set (map fst l))"
  by (cases l) (auto simp: list_begin_def)

lemma list_next_in:
  assumes "distinct (map fst l)" "n \<in> set (map fst l)" "list_next l (At n) = At m"
  shows "m \<in> set (map fst l) \<and> m \<noteq> n"
proof -
  from list_from_split [OF assms(2)] obtain pre d post
    where l: "l = pre @ (n, d) # post" "list_from l (At n) = (n, d) # post" by metis
  then have "list_begin post = At m" using assms(3) by (simp add: list_next_def)
  then have "m \<in> set (map fst post)" using list_begin_in [of post] by blast
  then show ?thesis using l(1) assms(1) by auto
qed

lemma map_of_map_readers: "map_of (map (\<lambda>(k, r). (k, f r)) l) = map_option f \<circ> map_of l"
  by (rule ext) (induction l, auto)

lemma GetReader_map_readers [simp]: "GetReader rid (map_readers f b) = map_option f (GetReader rid b)"
  by (simp add: GetReader_def map_readers_def map_of_map_readers)

lemma map_readers_fields [simp]:
  "hilogDataList (map_readers f b) = hilogDataList b" "next_node (map_readers f b) = next_node b"
  "sizeByType (map_readers f b) = sizeByType b" "stats (map_readers f b) = stats b"
  "m_isSupportSkipLog (map_readers f b) = m_isSupportSkipLog b"
  "map fst (m_logReaders (map_readers f b)) = map fst (m_logReaders b)"
  by (auto simp: map_readers_def)

section \<open>Removing nodes\<close>

definition removes :: "LogMsgContainer \<Rightarrow> HilogBuffer \<Rightarrow> HilogBuffer \<Rightarrow> bool" where
  "removes R b b' \<longleftrightarrow> buffer_wf b' \<and>
     hilogDataList b' = filter (\<lambda>x. x \<notin> set R) (hilogDataList b) \<and>
     (\<forall>rid. pending_nodes b' rid = filter (\<lambda>x. x \<notin> set R) (pending_nodes b rid) \<and> (attached b' rid \<longleftrightarrow> attached b rid)) \<and>
     next_node b' = next_node b \<and> stats b' = stats b \<and> m_isSupportSkipLog b' = m_isSupportSkipLog b \<and>
     map fst (m_logReaders b') = map fst (m_logReaders b)"

lemma removes_refl: "buffer_wf b \<Longrightarrow> removes [] b b"
  by (simp add: removes_def)

lemma filter_notin_append: "filter (\<lambda>x. x \<notin> set S) (filter (\<lambda>x. x \<notin> set R) l) = filter (\<lambda>x. x \<notin> set (R @ S)) l"
  by (induction l) auto

lemma removes_trans: "removes R b b' \<Longrightarrow> removes S b' b'' \<Longrightarrow> removes (R @ S) b b''"
  unfolding removes_def by (simp only: filter_notin_append) simp

lemma reader_wf_of: "buffer_wf b \<Longrightarrow> GetReader rid b = Some r \<Longrightarrow> reader_wf (hilogDataList b) r"
  by (auto simp: buffer_wf_def GetReader_def list_all_iff dest!: map_of_SomeD)

lemma pending_nodes_subset: "set (pending_nodes b rid) \<subseteq> set (hilogDataList b)"
  by (auto simp: pending_nodes_def list_from_def split: option.splits iter.splits dest: set_dropWhileD)

lemma delete_node_removes:
  assumes wf: "buffer_wf b" and n: "(n, d) \<in> set (hilogDataList b)"
  shows "removes [(n, d)] b (delete_node reason n t c b)"
proof -
  let ?l = "hilogDataList b" and ?b' = "delete_node reason n t c b"
  define mv where "mv = (\<lambda>r :: BufferReader. if m_pos r = At n
       then r\<lparr>m_pos := list_next ?l (At n), skipped := (if reason = BUFF_OVERFLOW then skipped r + 1 else skipped r)\<rparr>
       else r)"
  have dist: "distinct (map fst ?l)" using wf by (simp add: buffer_wf_def)
  have nl: "n \<in> set (map fst ?l)" using n by force
  have rd: "GetReader rid ?b' = map_option mv (GetReader rid b)" for rid
    by (simp add: delete_node_def Let_def OnDeleteItem_def mv_def GetReader_def map_readers_def map_of_map_readers)
  have list': "hilogDataList ?b' = list_erase ?l n"
    by (simp add: delete_node_def Let_def OnDeleteItem_def)
  have fields: "next_node ?b' = next_node b" "stats ?b' = stats b" "m_isSupportSkipLog ?b' = m_isSupportSkipLog b"
    "map fst (m_logReaders ?b') = map fst (m_logReaders b)" "length (sizeByType ?b') = length (sizeByType b)"
    "m_logReaders ?b' = map (\<lambda>(k, r). (k, mv r)) (m_logReaders b)"
    by (auto simp: delete_node_def Let_def OnDeleteItem_def mv_def map_readers_def)
  have mv_pos: "m_pos (mv r) = (if m_pos r = At n then list_next ?l (At n) else m_pos r)" "m_msgList (mv r) = m_msgList r" for r
    by (simp_all add: mv_def)
  have er: "list_erase ?l n = filter (\<lambda>x. x \<notin> set [(n, d)]) ?l"
    using erase_filter [OF dist n] by simp
  have flt: "filter (\<lambda>x. fst x \<noteq> n) ys = filter (\<lambda>x. x \<notin> set [(n, d)]) ys" if "set ys \<subseteq> set ?l" for ys
    using same_node [OF dist n] that by (intro filter_cong refl) (auto simp del: not_None_eq)
  have sub: "set (list_from ?l p) \<subseteq> set ?l" for p
    by (auto simp: list_from_def split: iter.splits dest: set_dropWhileD)
  have pend: "pending_nodes ?b' rid = filter (\<lambda>x. x \<notin> set [(n, d)]) (pending_nodes b rid)" for rid
    using list_from_erase [OF dist nl] flt [OF sub]
    by (auto simp: pending_nodes_def rd list' mv_pos split: option.split)
  have rwf: "reader_wf (list_erase ?l n) (mv r)" if "reader_wf ?l r" for r
  proof (cases "m_pos r = At n")
    case True
    then show ?thesis
      using that list_next_in [OF dist nl] list_begin_in [of "tl (list_from ?l (At n))"]
      by (auto simp: reader_wf_def mv_pos list_erase_def list_next_def split: iter.splits)
  next
    case False
    then show ?thesis
      using that by (auto simp: reader_wf_def mv_def list_erase_def split: iter.splits)
  qed
  have "buffer_wf ?b'"
  proof -
    have "list_all (\<lambda>(rid, r). reader_wf (list_erase ?l n) r) (m_logReaders ?b')"
      using wf rwf by (auto simp: fields(6) list_all_iff buffer_wf_def)
    moreover have "distinct (map fst (m_logReaders ?b'))"
      using wf unfolding fields(4) by (simp add: buffer_wf_def)
    ultimately show ?thesis
      using wf fields(1,5) unfolding buffer_wf_def list'
      by (auto simp: list_all_iff list_erase_def distinct_map_filter)
  qed
  then show ?thesis
    unfolding removes_def using list' er pend fields rd mv_pos
    by (auto simp: attached_def split: option.split)
qed

section \<open>The loops\<close>

lemma removes_member: "removes R b b' \<Longrightarrow> x \<in> set (hilogDataList b) \<Longrightarrow> x \<notin> set R \<Longrightarrow> x \<in> set (hilogDataList b')"
  by (simp add: removes_def)

lemma Delete_loop_removes:
  assumes "buffer_wf b" "set rest \<subseteq> set (hilogDataList b)" "distinct rest" "Delete_loop logType rest s b = (s', b')"
  shows "removes (filter (\<lambda>x. unat (d_type (snd x)) = logType) rest) b b'"
  using assms
proof (induction rest arbitrary: s b)
  case Nil
  then show ?case by (simp add: removes_refl)
next
  case (Cons x rest)
  obtain n d where x: "x = (n, d)" by (cases x)
  show ?case
  proof (cases "unat (d_type d) = logType")
    case False
    then show ?thesis using Cons by (simp add: x)
  next
    case True
    let ?b1 = "delete_node CMD_CLEAR n (unat (d_type d)) (d_cLen d) b"
    have r: "removes [x] b ?b1" using Cons.prems(1,2) by (auto simp: x intro: delete_node_removes)
    have "removes (filter (\<lambda>x. unat (d_type (snd x)) = logType) rest) ?b1 b'"
    proof (rule Cons.IH)
      show "buffer_wf ?b1" using r by (simp add: removes_def)
      show "set rest \<subseteq> set (hilogDataList ?b1)"
        using Cons.prems(2,3) removes_member [OF r] by auto
      show "distinct rest" using Cons.prems(3) by simp
      show "Delete_loop logType rest (s + d_cLen d) ?b1 = (s', b')" using Cons.prems(4) True by (simp add: x)
    qed
    from removes_trans [OF r this] show ?thesis using True by (simp add: x)
  qed
qed

lemma Insert_drop_removes:
  assumes "buffer_wf b" "set rest \<subseteq> set (hilogDataList b)" "distinct rest" "Insert_drop gmax t rest b = (used, b')"
  shows "\<exists>k. removes (take k (filter (\<lambda>x. bufType (snd x) = t) rest)) b b' \<and>
    (\<not> used \<longrightarrow> \<not> over_drop_mark (sizeByType b' ! t) (gmax ! t) \<or> k = length (filter (\<lambda>x. bufType (snd x) = t) rest)) \<and>
    (used \<longrightarrow> over_drop_mark (sizeByType b' ! t) (gmax ! t) \<and> (\<exists>n d. (n, d) \<in> set (hilogDataList b') \<and> IsItemUsed b' n))"
  using assms
proof (induction rest arbitrary: b)
  case Nil
  then show ?case by (auto simp: removes_refl intro!: exI [of _ 0])
next
  case (Cons x rest)
  obtain n d where x: "x = (n, d)" by (cases x)
  let ?f = "filter (\<lambda>x. bufType (snd x) = t)"
  show ?case
  proof (cases "over_drop_mark (sizeByType b ! t) (gmax ! t)")
    case False
    then show ?thesis using Cons.prems by (auto simp: x removes_refl intro!: exI [of _ 0])
  next
    case over: True
    show ?thesis
    proof (cases "bufType d = t")
      case False
      then show ?thesis using Cons.IH [of b] Cons.prems over by (auto simp: x)
    next
      case True
      show ?thesis
      proof (cases "IsItemUsed b n")
        case used: True
        then show ?thesis
          using Cons.prems over True by (intro exI [of _ "0 :: nat"]) (auto simp: x removes_refl)
      next
        case False
        let ?b1 = "delete_node BUFF_OVERFLOW n (bufType d) (d_cLen d) b"
        have r: "removes [x] b ?b1" using Cons.prems(1,2) by (auto simp: x intro: delete_node_removes)
        have wf1: "buffer_wf ?b1" using r by (simp add: removes_def)
        have sub: "set rest \<subseteq> set (hilogDataList ?b1)"
          using Cons.prems(2,3) removes_member [OF r] by auto
        have "Insert_drop gmax t rest ?b1 = (used, b')" using Cons.prems(4) True False over by (simp add: x)
        from Cons.IH [OF wf1 sub _ this] Cons.prems(3) obtain k where k: "removes (take k (?f rest)) ?b1 b'"
          "\<not> used \<longrightarrow> \<not> over_drop_mark (sizeByType b' ! t) (gmax ! t) \<or> k = length (?f rest)"
          "used \<longrightarrow> over_drop_mark (sizeByType b' ! t) (gmax ! t) \<and> (\<exists>n d. (n, d) \<in> set (hilogDataList b') \<and> IsItemUsed b' n)"
          by auto
        have "take (Suc k) (?f (x # rest)) = [x] @ take k (?f rest)" using True by (simp add: x)
        then have "removes (take (Suc k) (?f (x # rest))) b b'"
          using removes_trans [OF r k(1)] by simp
        moreover have "Suc k = length (?f (x # rest)) \<longleftrightarrow> k = length (?f rest)" using True by (simp add: x)
        ultimately show ?thesis using k(2,3) by blast
      qed
    qed
  qed
qed

section \<open>The byte counters\<close>

text \<open>Each counter is the sum of the content lengths of the logs kept in its buffer.\<close>

definition kept_bytes :: "nat \<Rightarrow> LogMsgContainer \<Rightarrow> size_t" where
  "kept_bytes t l = sum_list (map (\<lambda>x. d_cLen (snd x)) (filter (\<lambda>x. bufType (snd x) = t) l))"

definition accounted :: "HilogBuffer \<Rightarrow> bool" where
  "accounted b \<longleftrightarrow> (\<forall>t < LOG_TYPE_MAX. sizeByType b ! t = kept_bytes t (hilogDataList b))"

lemma kept_bytes_append: "kept_bytes t (xs @ ys) = kept_bytes t xs + kept_bytes t ys"
  by (simp add: kept_bytes_def)

lemma kept_bytes_Cons: "kept_bytes t (x # xs) = (if bufType (snd x) = t then d_cLen (snd x) else 0) + kept_bytes t xs"
  by (simp add: kept_bytes_def)

lemma kept_bytes_erase:
  assumes "distinct (map fst l)" "(n, d) \<in> set l"
  shows "kept_bytes t (list_erase l n) = kept_bytes t l - (if bufType d = t then d_cLen d else 0)"
proof -
  obtain pre post where l: "l = pre @ (n, d) # post" using assms(2) split_list by metis
  then have "list_erase l n = pre @ post"
    using assms(1) by (auto simp: list_erase_def filter_self_not_in)
  then show ?thesis by (simp add: l kept_bytes_append kept_bytes_Cons)
qed

lemma bufType_less: "data_wf d \<Longrightarrow> bufType d < LOG_TYPE_MAX"
  by (auto simp: bufType_def ConvertBufType_def data_wf_def)

lemma delete_node_sizes:
  "sizeByType (delete_node reason n t c b) = (sizeByType b)[t := sizeByType b ! t - c]"
  "hilogDataList (delete_node reason n t c b) = list_erase (hilogDataList b) n"
  by (simp_all add: delete_node_def Let_def OnDeleteItem_def)

lemma delete_node_accounted:
  assumes "buffer_wf b" "accounted b" "(n, d) \<in> set (hilogDataList b)"
  shows "accounted (delete_node reason n (bufType d) (d_cLen d) b)"
proof -
  have "distinct (map fst (hilogDataList b))" "length (sizeByType b) = LOG_TYPE_MAX"
    using assms(1) by (simp_all add: buffer_wf_def)
  then show ?thesis
    using assms(2,3) by (simp add: accounted_def delete_node_sizes kept_bytes_erase nth_list_update)
qed

lemma Insert_drop_accounted:
  assumes "buffer_wf b" "accounted b" "set rest \<subseteq> set (hilogDataList b)" "distinct rest" "Insert_drop gmax t rest b = (used, b')"
  shows "accounted b'"
  using assms
proof (induction rest arbitrary: b)
  case (Cons x rest)
  obtain n d where x: "x = (n, d)" by (cases x)
  let ?b1 = "delete_node BUFF_OVERFLOW n (bufType d) (d_cLen d) b"
  have r: "removes [x] b ?b1" using Cons.prems(1,3) by (auto simp: x intro: delete_node_removes)
  then have "buffer_wf ?b1" "set rest \<subseteq> set (hilogDataList ?b1)"
    using Cons.prems(3,4) removes_member [OF r] by (auto simp: removes_def)
  moreover have "accounted ?b1" using Cons.prems(1,2,3) by (auto simp: x intro: delete_node_accounted)
  ultimately show ?case
    using Cons.IH [of ?b1] Cons.IH [of b] Cons.prems by (auto simp: x split: if_splits)
qed simp

lemma Delete_loop_accounted:
  assumes "buffer_wf b" "accounted b" "logType \<noteq> LOG_ONLY_PRERELEASE" "set rest \<subseteq> set (hilogDataList b)" "distinct rest"
    "Delete_loop logType rest s b = (s', b')"
  shows "accounted b'"
  using assms
proof (induction rest arbitrary: b s)
  case (Cons x rest)
  obtain n d where x: "x = (n, d)" by (cases x)
  let ?b1 = "delete_node CMD_CLEAR n (unat (d_type d)) (d_cLen d) b"
  show ?case
  proof (cases "unat (d_type d) = logType")
    case False
    then show ?thesis using Cons.IH [of b s] Cons.prems by (auto simp: x)
  next
    case True
    then have t: "bufType d = unat (d_type d)" using Cons.prems(3) by (simp add: bufType_def ConvertBufType_def)
    have r: "removes [x] b ?b1" using Cons.prems(1,4) by (auto simp: x intro: delete_node_removes)
    then have "buffer_wf ?b1" "set rest \<subseteq> set (hilogDataList ?b1)"
      using Cons.prems(4,5) removes_member [OF r] by (auto simp: removes_def)
    moreover have "accounted ?b1"
      using Cons.prems(1,2,4) delete_node_accounted [of b n d CMD_CLEAR] by (auto simp: x t)
    ultimately show ?thesis using Cons.IH [of ?b1 "s + d_cLen d"] Cons.prems True by (simp add: x)
  qed
qed simp

section \<open>Inserting\<close>

definition accepts :: "HilogMsg \<Rightarrow> bool" where
  "accepts msg \<longleftrightarrow> msg_accepted msg \<and> unat (m_type msg) < LOG_TYPE_MAX"

lemma d_type_of_msg:
  assumes "accepts msg"
  shows "unat (d_type (HilogData_of_msg msg)) = unat (m_type msg)"
proof -
  have "unat (ucast (m_type msg) :: 3 word) = unat (m_type msg) mod 2 ^ 3"
    by (simp add: unsigned_ucast_eq take_bit_eq_mod)
  then show ?thesis
    using assms HilogData_of_msg_accepted(3) [of msg] by (simp add: accepts_def)
qed

lemma data_wf_of_msg:
  assumes "accepts msg"
  shows "data_wf (HilogData_of_msg msg)"
proof -
  have a: "msg_accepted msg" using assms by (simp add: accepts_def)
  note d = HilogData_of_msg_accepted [OF a]
  have "0 < unat (CONTENT_LEN msg)" using accepted_sizes [OF a] by simp
  then show ?thesis
    using d(1,7,10) d_type_of_msg [OF assms] assms by (auto simp: data_wf_def accepts_def split: option.splits)
qed

lemma list_from_append:
  assumes "reader_wf l r" "n \<notin> set (map fst l)"
  shows "list_from (l @ [(n, d)]) (if m_pos r = End then At n else m_pos r) =
    list_from l (m_pos r) @ (if m_msgList r then [(n, d)] else [])"
proof (cases "m_pos r")
  case (At k)
  then have "k \<in> fst ` set l" "m_msgList r" using assms(1) by (auto simp: reader_wf_def)
  then show ?thesis using At by (auto simp: list_from_def dropWhile_append)
next
  case End
  then have "fst x \<noteq> n" if "x \<in> set l" for x using assms(2) that by force
  then show ?thesis using End assms(1) by (auto simp: list_from_def reader_wf_def dropWhile_append2)
qed (use assms(1) in \<open>auto simp: list_from_def reader_wf_def\<close>)

lemma Insert_append_effect:
  fixes b :: HilogBuffer and t :: nat and e :: size_t
  assumes wf: "buffer_wf b" and msg: "accepts msg"
  defines "x \<equiv> (next_node b, HilogData_of_msg msg)" and "b' \<equiv> Insert_append msg t e b"
  shows "buffer_wf b'" "hilogDataList b' = hilogDataList b @ [x]"
    "pending_nodes b' rid = pending_nodes b rid @ (if attached b rid then [x] else [])"
    "attached b' rid = attached b rid"
    "sizeByType b' = (sizeByType b)[t := sizeByType b ! t + e]"
    "stats b' = stats b" "m_isSupportSkipLog b' = m_isSupportSkipLog b"
    "map fst (m_logReaders b') = map fst (m_logReaders b)"
proof -
  let ?f = "\<lambda>r :: BufferReader. if m_pos r = End then r\<lparr>m_pos := At (next_node b)\<rparr> else r"
  have fresh: "next_node b \<notin> set (map fst (hilogDataList b))"
    using wf by (auto simp: buffer_wf_def list_all_iff)
  have rd: "GetReader rid b' = map_option ?f (GetReader rid b)" for rid
    by (simp add: b'_def Insert_append_def OnPushBackedItem_def GetReader_def map_readers_def map_of_map_readers)
  show l: "hilogDataList b' = hilogDataList b @ [x]"
    by (simp add: b'_def Insert_append_def OnPushBackedItem_def x_def)
  show "sizeByType b' = (sizeByType b)[t := sizeByType b ! t + e]" "stats b' = stats b"
    "m_isSupportSkipLog b' = m_isSupportSkipLog b" and ids: "map fst (m_logReaders b') = map fst (m_logReaders b)"
    by (auto simp: b'_def Insert_append_def OnPushBackedItem_def map_readers_def)
  have rs: "m_logReaders b' = map (\<lambda>(k, r). (k, ?f r)) (m_logReaders b)" "next_node b' = next_node b + 1"
    "length (sizeByType b') = length (sizeByType b)"
    by (simp_all add: b'_def Insert_append_def OnPushBackedItem_def map_readers_def)
  show "pending_nodes b' rid = pending_nodes b rid @ (if attached b rid then [x] else [])"
  proof (cases "GetReader rid b")
    case (Some r)
    have "m_pos (?f r) = (if m_pos r = End then At (next_node b) else m_pos r)" by simp
    then show ?thesis
      using list_from_append [OF reader_wf_of [OF wf Some] fresh] Some
      by (simp add: pending_nodes_def attached_def rd l x_def)
  qed (simp add: pending_nodes_def attached_def rd)
  show "attached b' rid = attached b rid"
    by (auto simp: attached_def rd split: option.split)
  have "list_all (\<lambda>(rid, r). reader_wf (hilogDataList b') r) (m_logReaders b')"
  proof -
    have "reader_wf (hilogDataList b @ [x]) (?f r)" if "reader_wf (hilogDataList b) r" for r
      using that by (cases "m_pos r") (auto simp: reader_wf_def x_def)
    then show ?thesis using wf by (auto simp: buffer_wf_def rs(1) l list_all_iff simp del: if_split)
  qed
  moreover have "distinct (map fst (m_logReaders b'))"
    unfolding ids using wf by (simp add: buffer_wf_def)
  moreover have "distinct (map fst (hilogDataList b'))"
    using wf fresh by (simp add: buffer_wf_def l x_def)
  moreover have "list_all (\<lambda>(n, d). n < next_node b' \<and> data_wf d) (hilogDataList b')"
    using wf data_wf_of_msg [OF msg] by (auto simp: buffer_wf_def l x_def rs list_all_iff)
  ultimately show "buffer_wf b'"
    using wf rs(3) by (simp add: buffer_wf_def)
qed

lemma Insert_append_accounted:
  assumes "buffer_wf b" "accepts msg" "accounted b"
  shows "accounted (Insert_append msg (ConvertBufType (unat (m_type msg))) (CONTENT_LEN msg) b)"
proof -
  have d: "bufType (HilogData_of_msg msg) = ConvertBufType (unat (m_type msg))"
    "d_cLen (HilogData_of_msg msg) = CONTENT_LEN msg"
    using assms(2) d_type_of_msg HilogData_of_msg_accepted(2) by (simp_all add: bufType_def accepts_def)
  have "length (sizeByType b) = LOG_TYPE_MAX" using assms(1) by (simp add: buffer_wf_def)
  then show ?thesis
    using assms(3) unfolding accounted_def Insert_append_effect(2,5) [OF assms(1,2)]
    by (auto simp: kept_bytes_append kept_bytes_def d nth_list_update)
qed

text \<open>The nodes of the buffer a message goes to, oldest first.\<close>

definition same_buffer :: "HilogMsg \<Rightarrow> HilogBuffer \<Rightarrow> LogMsgContainer" where
  "same_buffer msg b = filter (\<lambda>x. bufType (snd x) = ConvertBufType (unat (m_type msg))) (hilogDataList b)"

lemma Insert_rejected: "\<not> accepts msg \<Longrightarrow> Insert gmax msg isFull b = (0, isFull, b, [])"
  by (auto simp: Insert_def Let_def accepts_def msg_accepted_def not_le not_less)

lemma Insert_accepted:
  assumes "accepts msg"
  shows "Insert gmax msg isFull b =
    (let t = ConvertBufType (unat (m_type msg));
         (used, b1) = (if CONTENT_LEN msg + sizeByType b ! t \<ge> gmax ! t then Insert_drop gmax t (hilogDataList b) b else (False, b));
         b2 = Insert_append msg t (CONTENT_LEN msg) b1
     in if used then (0, True, b1, []) else (CONTENT_LEN msg, False, b2, OnNewItem b2))"
  using assms by (auto simp: Insert_def Let_def accepts_def msg_accepted_def split: prod.split)

lemma distinct_nodes: "buffer_wf b \<Longrightarrow> distinct (hilogDataList b)"
  by (simp add: buffer_wf_def distinct_map)

lemma Insert_cases:
  assumes wf: "buffer_wf b" and msg: "accepts msg" and ins: "Insert gmax msg isFull b = (ret, full, b', ns)"
  obtains k b1 where "removes (take k (same_buffer msg b)) b b1" "accounted b \<Longrightarrow> accounted b1"
    "full \<Longrightarrow> ret = 0 \<and> b' = b1 \<and> ns = [] \<and> (\<exists>n d. (n, d) \<in> set (hilogDataList b') \<and> IsItemUsed b' n)"
    "\<not> full \<Longrightarrow> ret = CONTENT_LEN msg \<and> b' = Insert_append msg (ConvertBufType (unat (m_type msg))) (CONTENT_LEN msg) b1 \<and>
      ns = OnNewItem b' \<and>
      (CONTENT_LEN msg + sizeByType b1 ! ConvertBufType (unat (m_type msg)) < gmax ! ConvertBufType (unat (m_type msg)) \<or>
       \<not> over_drop_mark (sizeByType b1 ! ConvertBufType (unat (m_type msg))) (gmax ! ConvertBufType (unat (m_type msg))) \<or>
       k = length (same_buffer msg b))"
proof -
  let ?t = "ConvertBufType (unat (m_type msg))"
  show ?thesis
  proof (cases "CONTENT_LEN msg + sizeByType b ! ?t \<ge> gmax ! ?t")
    case True
    obtain used b1 where d: "Insert_drop gmax ?t (hilogDataList b) b = (used, b1)" by fastforce
    from Insert_drop_removes [OF wf subset_refl distinct_nodes [OF wf] d]
    obtain k where k: "removes (take k (same_buffer msg b)) b b1"
      "\<not> used \<longrightarrow> \<not> over_drop_mark (sizeByType b1 ! ?t) (gmax ! ?t) \<or> k = length (same_buffer msg b)"
      "used \<longrightarrow> (\<exists>n d. (n, d) \<in> set (hilogDataList b1) \<and> IsItemUsed b1 n)"
      unfolding same_buffer_def by blast
    have "accounted b \<Longrightarrow> accounted b1"
      using Insert_drop_accounted [OF wf _ subset_refl distinct_nodes [OF wf] d] by blast
    moreover have "(ret, full, b', ns) = (if used then (0, True, b1, [])
        else let b2 = Insert_append msg ?t (CONTENT_LEN msg) b1 in (CONTENT_LEN msg, False, b2, OnNewItem b2))"
      using ins True d by (cases used) (auto simp: Insert_accepted [OF msg] Let_def)
    ultimately show ?thesis
      using k by (intro that [of k b1]) (simp_all add: Let_def split: if_splits)
  next
    case False
    then have "(ret, full, b', ns) = (let b2 = Insert_append msg ?t (CONTENT_LEN msg) b in (CONTENT_LEN msg, False, b2, OnNewItem b2))"
      using ins by (auto simp: Insert_accepted [OF msg] Let_def)
    then show ?thesis
      using False removes_refl [OF wf] by (intro that [of 0 b]) (simp_all add: Let_def not_le)
  qed
qed

lemma Insert_wf:
  assumes "buffer_wf b" "Insert gmax msg isFull b = (ret, full, b', ns)"
  shows "buffer_wf b'"
proof (cases "accepts msg")
  case True
  obtain k b1 where "removes (take k (same_buffer msg b)) b b1"
    and "full \<Longrightarrow> b' = b1" "\<not> full \<Longrightarrow> b' = Insert_append msg (ConvertBufType (unat (m_type msg))) (CONTENT_LEN msg) b1"
    using Insert_cases [OF assms(1) True assms(2)] by metis
  then show ?thesis
    using Insert_append_effect(1) [of b1 msg] True by (cases full) (auto simp: removes_def)
next
  case False
  then show ?thesis using assms by (simp add: Insert_rejected)
qed

lemma Insert_accounted:
  assumes "buffer_wf b" "accounted b" "Insert gmax msg isFull b = (ret, full, b', ns)"
  shows "accounted b'"
proof (cases "accepts msg")
  case True
  obtain k b1 where "removes (take k (same_buffer msg b)) b b1" "accounted b1"
    and "full \<Longrightarrow> b' = b1" "\<not> full \<Longrightarrow> b' = Insert_append msg (ConvertBufType (unat (m_type msg))) (CONTENT_LEN msg) b1"
    using Insert_cases [OF assms(1) True assms(3)] assms(2) by metis
  then show ?thesis
    using Insert_append_accounted [of b1 msg] True by (cases full) (auto simp: removes_def)
next
  case False
  then show ?thesis using assms by (simp add: Insert_rejected)
qed

section \<open>Querying\<close>

lemma list_from_suffix:
  "\<exists>pre. l = pre @ list_from l p"
proof (cases p)
  case (At n)
  have "l = takeWhile (\<lambda>x. fst x \<noteq> n) l @ dropWhile (\<lambda>x. fst x \<noteq> n) l" by simp
  then show ?thesis unfolding At list_from_def iter.case by blast
qed (auto simp: list_from_def)

lemma query_loop_pos: "\<exists>pre ys. xs = pre @ ys \<and> snd (query_loop rx f xs) = list_begin ys"
proof (induction xs)
  case Nil
  then show ?case by (simp add: list_begin_def)
next
  case (Cons x xs)
  have "\<exists>pre ys. x # xs = pre @ ys \<and> list_begin xs = list_begin ys" by (rule exI [of _ "[x]"]) auto
  moreover have "\<exists>pre ys. x # xs = pre @ ys \<and> snd (query_loop rx f xs) = list_begin ys"
    using Cons by (metis append_Cons)
  ultimately show ?case by (auto split: option.split bool.split)
qed

lemma list_begin_wf: "l = pre @ ys \<Longrightarrow> m_pos r = list_begin ys \<Longrightarrow> m_msgList r \<Longrightarrow> reader_wf l r"
  using list_begin_in [of ys] by (auto simp: reader_wf_def split: iter.splits)

lemma tail_loop_pos:
  "tail_loop rx f k xs = Inr p \<Longrightarrow> p \<noteq> Null \<and> (\<forall>n. p = At n \<longrightarrow> n \<in> set (map fst xs))"
  by (induction rx f k xs rule: tail_loop.induct) (auto split: option.splits)

lemma Query_start_pos:
  "Query_start rx f k l = Inr p \<Longrightarrow> p \<noteq> Null \<and> (\<forall>n. p = At n \<longrightarrow> n \<in> set (map fst l))"
  using list_begin_in [of l] tail_loop_pos [of rx f k "rev l" p]
  by (auto simp: Query_start_def split: if_splits)

lemma GetReader_put_reader [simp]: "GetReader rid' (put_reader rid r b) = (if rid' = rid then Some r else GetReader rid' b)"
  by (simp add: GetReader_def put_reader_def update_conv)

lemma put_reader_fields [simp]:
  "hilogDataList (put_reader rid r b) = hilogDataList b" "next_node (put_reader rid r b) = next_node b"
  "sizeByType (put_reader rid r b) = sizeByType b" "stats (put_reader rid r b) = stats b"
  "m_isSupportSkipLog (put_reader rid r b) = m_isSupportSkipLog b"
  by (simp_all add: put_reader_def)

lemma put_reader_wf: "buffer_wf b \<Longrightarrow> reader_wf (hilogDataList b) r \<Longrightarrow> buffer_wf (put_reader rid r b)"
  by (auto simp: buffer_wf_def put_reader_def distinct_update intro!: list_all_update)

lemma accounted_put_reader [simp]: "accounted (put_reader rid r b) = accounted b"
  by (simp add: accounted_def)

text \<open>The position from which a query goes on, and whether the reader has missed logs.\<close>

definition query_pos :: "(string \<Rightarrow> string \<Rightarrow> bool option) \<Rightarrow> LogFilter \<Rightarrow> nat \<Rightarrow> HilogBuffer \<Rightarrow> BufferReader \<Rightarrow> regex_error + iter" where
  "query_pos rx f tailCount b r = (if m_msgList r then Inr (m_pos r) else Query_start rx f tailCount (hilogDataList b))"

lemma query_pos_wf:
  assumes "reader_wf (hilogDataList b) r" "query_pos rx f k b r = Inr p"
  shows "reader_wf (hilogDataList b) (r\<lparr>m_msgList := True, m_pos := p\<rparr>)"
  using assms Query_start_pos [of rx f k "hilogDataList b" p]
  by (auto simp: query_pos_def reader_wf_def split: if_splits iter.splits)

lemma reader_wf_skipped [simp]: "reader_wf l (r\<lparr>skipped := s\<rparr>) = reader_wf l r"
  by (simp add: reader_wf_def split: iter.split)

lemma Query_wf:
  assumes wf: "buffer_wf b" and q: "Query rx ts tm f rid k b = (res, b')"
  shows "buffer_wf b' \<and> hilogDataList b' = hilogDataList b \<and> sizeByType b' = sizeByType b"
proof (cases "GetReader rid b")
  case None
  then show ?thesis using q wf by (auto simp: Query_def)
next
  case (Some r)
  note rwf = reader_wf_of [OF wf Some]
  show ?thesis
  proof (cases "query_pos rx f k b r")
    case (Inl e)
    then show ?thesis using q wf Some by (auto simp: Query_def query_pos_def)
  next
    case (Inr p)
    let ?r1 = "r\<lparr>m_msgList := True, m_pos := p\<rparr>"
    have r1: "reader_wf (hilogDataList b) ?r1" by (rule query_pos_wf [OF rwf Inr])
    show ?thesis
    proof (cases "SkippedNotice ts tm (skipped r)")
      case (Some m)
      then have "b' = put_reader rid (?r1\<lparr>skipped := 0\<rparr>) b"
        using q \<open>GetReader rid b = Some r\<close> Inr by (auto simp: Query_def query_pos_def Let_def)
      then show ?thesis using put_reader_wf [OF wf] r1 by auto
    next
      case None
      let ?p' = "snd (query_loop rx f (list_from (hilogDataList b) p))"
      have "b' = put_reader rid (?r1\<lparr>m_pos := ?p'\<rparr>) b"
        using q \<open>GetReader rid b = Some r\<close> Inr None
        by (auto simp: Query_def query_pos_def Let_def split: prod.splits)
      moreover have "reader_wf (hilogDataList b) (?r1\<lparr>m_pos := ?p'\<rparr>)"
      proof -
        obtain pre ys where ys: "list_from (hilogDataList b) p = pre @ ys" "?p' = list_begin ys"
          using query_loop_pos [of "list_from (hilogDataList b) p" rx f] by blast
        obtain pre0 where "hilogDataList b = pre0 @ list_from (hilogDataList b) p"
          using list_from_suffix by blast
        then have "hilogDataList b = (pre0 @ pre) @ ys" using ys(1) by simp
        then show ?thesis using ys(2) by (intro list_begin_wf) auto
      qed
      ultimately show ?thesis using put_reader_wf [OF wf] by auto
    qed
  qed
qed

section \<open>Readers come and go, logs are deleted\<close>

lemma distinct_fst_insort: "distinct (map fst (insort_key fst x xs)) \<longleftrightarrow> fst x \<notin> fst ` set xs \<and> distinct (map fst xs)"
  by (induction xs) (auto simp: set_insort_key)

lemma reader_wf_new [simp]: "reader_wf l \<lparr>m_pos = Null, m_msgList = False, skipped = s, m_onNewDataCallback = cb\<rparr>"
  by (simp add: reader_wf_def)

lemma CreateBufReader_wf: "buffer_wf b \<Longrightarrow> buffer_wf (CreateBufReader rid cb b)"
  by (auto simp: CreateBufReader_def buffer_wf_def list_all_iff set_insort_key distinct_fst_insort)

lemma RemoveBufReader_wf: "buffer_wf b \<Longrightarrow> buffer_wf (RemoveBufReader rid b)"
  by (auto simp: RemoveBufReader_def buffer_wf_def list_all_iff distinct_map_filter)

lemma Delete_effect:
  assumes "buffer_wf b" "logType < LOG_TYPE_MAX" "Delete logType b = (ret, b')"
  shows "removes (filter (\<lambda>x. unat (d_type (snd x)) = logType) (hilogDataList b)) b b'"
  using assms Delete_loop_removes [OF assms(1) subset_refl distinct_nodes [OF assms(1)], of logType 0]
  by (auto simp: Delete_def split: prod.splits)

lemma Delete_wf: "buffer_wf b \<Longrightarrow> Delete logType b = (ret, b') \<Longrightarrow> buffer_wf b'"
  using Delete_effect [of b logType ret b'] by (cases "logType < LOG_TYPE_MAX") (auto simp: removes_def Delete_def)

lemma Delete_accounted:
  assumes "buffer_wf b" "accounted b" "logType \<noteq> LOG_ONLY_PRERELEASE" "Delete logType b = (ret, b')"
  shows "accounted b'"
  using assms Delete_loop_accounted [OF assms(1-3) subset_refl distinct_nodes [OF assms(1)], of 0]
  by (auto simp: Delete_def split: prod.splits if_splits)

section \<open>Reachable buffers\<close>

text \<open>The public operations of the class; \<open>limits\<close> is the content of the global size table at the call.\<close>

datatype buf_op =
    OpInsert BufferLimits HilogMsg
  | OpQuery LogTimeStamp LogTimeStamp LogFilter ReaderId nat
  | OpDelete nat
  | OpCreateBufReader ReaderId bool
  | OpRemoveBufReader ReaderId
  | OpCountLog StatsInfo
  | OpResetStats LogTimeStamp LogTimeStamp

fun buf_do :: "(string \<Rightarrow> string \<Rightarrow> bool option) \<Rightarrow> (u32 \<Rightarrow> string option) \<Rightarrow> buf_op \<Rightarrow> HilogBuffer \<Rightarrow> HilogBuffer option" where
  "buf_do rx cmdline (OpInsert limits msg) b = Some (fst (snd (snd (Insert limits msg False b))))"
| "buf_do rx cmdline (OpQuery ts tm f rid k) b =
     (case Query rx ts tm f rid k b of (Inl e, b') \<Rightarrow> None | (Inr r, b') \<Rightarrow> Some b')"
| "buf_do rx cmdline (OpDelete logType) b = Some (snd (Delete logType b))"
| "buf_do rx cmdline (OpCreateBufReader rid cb) b = Some (CreateBufReader rid cb b)"
| "buf_do rx cmdline (OpRemoveBufReader rid) b = Some (RemoveBufReader rid b)"
| "buf_do rx cmdline (OpCountLog info) b = CountLog cmdline info b"
| "buf_do rx cmdline (OpResetStats rt mt) b = Some (ResetStats rt mt b)"

inductive buf_reach :: "(buf_op \<Rightarrow> bool) \<Rightarrow> (string \<Rightarrow> string \<Rightarrow> bool option) \<Rightarrow> (u32 \<Rightarrow> string option) \<Rightarrow> HilogBuffer \<Rightarrow> bool"
  for allowed rx cmdline where
  init: "buf_reach allowed rx cmdline (HilogBuffer_new clock limits skip st)"
| step: "\<lbrakk>buf_reach allowed rx cmdline b; allowed op; buf_do rx cmdline op b = Some b'\<rbrakk> \<Longrightarrow> buf_reach allowed rx cmdline b'"

lemma empty_buffer_inv:
  "buffer_wf \<lparr>sizeByType = replicate LOG_TYPE_MAX 0, hilogDataList = [], next_node = 0,
       m_logReaders = [], stats = st, m_isSupportSkipLog = skip\<rparr>"
  "accounted \<lparr>sizeByType = replicate LOG_TYPE_MAX 0, hilogDataList = [], next_node = 0,
       m_logReaders = [], stats = st, m_isSupportSkipLog = skip\<rparr>"
  by (simp_all add: buffer_wf_def accounted_def kept_bytes_def)

lemma Insert_inv:
  "buffer_wf b \<and> accounted b \<Longrightarrow>
     buffer_wf (fst (snd (snd (Insert limits msg False b)))) \<and> accounted (fst (snd (snd (Insert limits msg False b))))"
  using Insert_wf [of b limits msg False] Insert_accounted [of b limits msg False] by (metis prod.collapse)

lemma HilogBuffer_new_inv: "buffer_wf (HilogBuffer_new clock limits skip st) \<and> accounted (HilogBuffer_new clock limits skip st)"
proof -
  have "buffer_wf b \<and> accounted b \<Longrightarrow> buffer_wf (fold F is b) \<and> accounted (fold F is b)"
    if "\<And>i b. buffer_wf b \<and> accounted b \<Longrightarrow> buffer_wf (F i b) \<and> accounted (F i b)" for b "is" and F :: "nat \<Rightarrow> HilogBuffer \<Rightarrow> HilogBuffer"
    using that by (induction "is" arbitrary: b) auto
  then show ?thesis
    unfolding HilogBuffer_new_def InitBuffHead_def using empty_buffer_inv Insert_inv
    by (auto split: option.splits)
qed

lemma buffer_wf_stats [simp]: "buffer_wf (b\<lparr>stats := st\<rparr>) = buffer_wf b"
  by (simp add: buffer_wf_def)

lemma buf_do_wf: "buffer_wf b \<Longrightarrow> buf_do rx cmdline op b = Some b' \<Longrightarrow> buffer_wf b'"
proof (cases op)
  case (OpInsert limits msg)
  then show "buffer_wf b \<Longrightarrow> buf_do rx cmdline op b = Some b' \<Longrightarrow> ?thesis"
    using Insert_wf [of b limits msg False] by (cases "Insert limits msg False b") auto
next
  case (OpQuery ts tm f rid k)
  then show "buffer_wf b \<Longrightarrow> buf_do rx cmdline op b = Some b' \<Longrightarrow> ?thesis"
    using Query_wf [of b rx ts tm f rid k] by (auto split: prod.splits sum.splits)
next
  case (OpDelete t)
  then show "buffer_wf b \<Longrightarrow> buf_do rx cmdline op b = Some b' \<Longrightarrow> ?thesis"
    using Delete_wf [of b t] by (cases "Delete t b") auto
qed (auto simp: CreateBufReader_wf RemoveBufReader_wf CountLog_def ResetStats_def)

lemma buf_do_accounted:
  assumes "buffer_wf b" "accounted b" "op \<noteq> OpDelete LOG_ONLY_PRERELEASE" "buf_do rx cmdline op b = Some b'"
  shows "accounted b'"
proof (cases op)
  case (OpInsert limits msg)
  then show ?thesis using assms Insert_accounted [of b limits msg False] by (cases "Insert limits msg False b") auto
next
  case (OpQuery ts tm f rid k)
  then show ?thesis
    using assms Query_wf [of b rx ts tm f rid k] by (auto simp: accounted_def split: prod.splits sum.splits)
next
  case (OpDelete t)
  then show ?thesis using assms Delete_accounted [of b t] by (cases "Delete t b") auto
qed (use assms in \<open>auto simp: CreateBufReader_def RemoveBufReader_def CountLog_def ResetStats_def accounted_def\<close>)

text \<open>
  C1: In every state the buffer can reach, under every sequence of its public operations, the
  node identities are unique, every stored log is initialised, and every reader points at a
  node that is still in the list or at its end: no operation leaves an iterator dangling.
\<close>

theorem buffer_no_dangling_iterator:
  assumes "buf_reach allowed rx cmdline b"
  shows "buffer_wf b"
  using assms by induction (use HilogBuffer_new_inv buf_do_wf in blast)+

definition demo_new :: HilogBuffer where
  "demo_new = HilogBuffer_new (\<lambda>_. (LogTimeStamp 1 2, LogTimeStamp 3 4)) (replicate 6 65536) True
     (LogStats_new (LogTimeStamp 0 0) (LogTimeStamp 0 0) False False)"

definition demo_ops :: "buf_op list" where
  "demo_ops = [OpCreateBufReader 7 True, OpQuery (LogTimeStamp 1 2) (LogTimeStamp 3 4) demo_filter 7 0,
     OpInsert (replicate 6 65536) demo_msg, OpDelete LOG_CORE]"

fun buf_run :: "(string \<Rightarrow> string \<Rightarrow> bool option) \<Rightarrow> (u32 \<Rightarrow> string option) \<Rightarrow> buf_op list \<Rightarrow> HilogBuffer \<Rightarrow> HilogBuffer option" where
  "buf_run rx cmdline [] b = Some b"
| "buf_run rx cmdline (op # ops) b = Option.bind (buf_do rx cmdline op b) (buf_run rx cmdline ops)"

lemma buf_run_reach:
  "buf_run rx cmdline ops b = Some b' \<Longrightarrow> buf_reach allowed rx cmdline b \<Longrightarrow> list_all allowed ops \<Longrightarrow> buf_reach allowed rx cmdline b'"
  by (induction ops arbitrary: b) (auto simp: bind_eq_Some_conv intro: buf_reach.step)

lemma demo_run: "map_option (\<lambda>b. map fst (hilogDataList b)) (buf_run (\<lambda>_ _. None) (\<lambda>_. None) demo_ops demo_new) = Some [0, 1, 3, 4]"
  by code_simp

theorem buffer_no_dangling_iterator_witness:
  "\<exists>b. buf_run (\<lambda>_ _. None) (\<lambda>_. None) demo_ops demo_new = Some b \<and> buffer_wf b"
proof -
  obtain b where b: "buf_run (\<lambda>_ _. None) (\<lambda>_. None) demo_ops demo_new = Some b" using demo_run by auto
  have "buf_reach (\<lambda>_. True) (\<lambda>_ _. None) (\<lambda>_. None) b"
    using buf_run_reach [OF b] by (simp add: demo_new_def buf_reach.init list_all_iff)
  from buffer_no_dangling_iterator [OF this] b show ?thesis by blast
qed

text \<open>
  C11: In every state reached without clearing the type \<open>LOG_ONLY_PRERELEASE\<close>, each byte counter
  is exactly the sum of the content lengths of the logs kept in its buffer.
\<close>

theorem buffer_accounting:
  assumes "buf_reach (\<lambda>op. op \<noteq> OpDelete LOG_ONLY_PRERELEASE) rx cmdline b"
  shows "accounted b"
proof -
  from assms have "buffer_wf b \<and> accounted b"
    by induction (use HilogBuffer_new_inv buf_do_wf buf_do_accounted in blast)+
  then show ?thesis by simp
qed

theorem buffer_accounting_witness:
  "\<exists>b. buf_run (\<lambda>_ _. None) (\<lambda>_. None) demo_ops demo_new = Some b \<and> accounted b"
proof -
  obtain b where b: "buf_run (\<lambda>_ _. None) (\<lambda>_. None) demo_ops demo_new = Some b" using demo_run by auto
  have "buf_reach (\<lambda>op. op \<noteq> OpDelete LOG_ONLY_PRERELEASE) (\<lambda>_ _. None) (\<lambda>_. None) b"
    by (rule buf_run_reach [OF b]) (auto simp: demo_new_def demo_ops_def intro: buf_reach.init)
  from buffer_accounting [OF this] b show ?thesis by blast
qed

end
