(* ===== verification/Log_Buffer_Spec.thy ===== *)
theory Log_Buffer_Spec
  imports Log_Buffer_Inv
begin

text \<open>
  What the buffer promises to its clients. Abstractly the buffer is a sequence of logs and, for
  each attached reader, the sequence of logs it has still to see. Inserting appends to both and
  may first forget the oldest logs of the same buffer; clearing forgets the logs of one type;
  a query takes the next matching log. The locale \<open>log_cursor\<close> is the contract on which the
  output handler and the persisters rely; it is interpreted on \<open>Query\<close>.
\<close>

section \<open>Draining a cursor\<close>

text \<open>A client that calls until nothing is left, at most \<open>n\<close> times.\<close>

fun drain :: "nat \<Rightarrow> ('s \<Rightarrow> 'a option \<times> 's) \<Rightarrow> 's \<Rightarrow> 'a list \<times> 's" where
  "drain 0 next s = ([], s)"
| "drain (Suc n) next s =
     (case next s of
        (None, s') \<Rightarrow> ([], s')
      | (Some a, s') \<Rightarrow> (let (as, s'') = drain n next s' in (a # as, s'')))"

locale log_cursor =
  fixes inv :: "'s \<Rightarrow> bool" and pend :: "'s \<Rightarrow> 'a list" and want :: "'a \<Rightarrow> bool" and nxt :: "'s \<Rightarrow> 'a option \<times> 's"
  assumes next_inv: "inv s \<Longrightarrow> inv (snd (nxt s))"
    and next_result: "inv s \<Longrightarrow> fst (nxt s) = find want (pend s)"
    and next_pend: "inv s \<Longrightarrow> pend (snd (nxt s)) = tl (dropWhile (\<lambda>a. \<not> want a) (pend s))"
begin

lemma filter_dropWhile_not: "filter want xs = (case dropWhile (\<lambda>a. \<not> want a) xs of [] \<Rightarrow> [] | a # as \<Rightarrow> a # filter want as)"
  by (induction xs) auto

lemma find_dropWhile_not: "find want xs = (case dropWhile (\<lambda>a. \<not> want a) xs of [] \<Rightarrow> None | a # as \<Rightarrow> Some a)"
  by (induction xs) auto

text \<open>Enough calls return exactly the wanted elements, in order, and leave none behind.\<close>

lemma next_cases:
  assumes "inv s"
  obtains (none) s' where "nxt s = (None, s')" "filter want (pend s) = []" "inv s'" "pend s' = []"
  | (some) a as s' where "nxt s = (Some a, s')" "filter want (pend s) = a # filter want as" "inv s'" "pend s' = as"
      "length as < length (pend s)"
proof -
  define d where "d = dropWhile (\<lambda>a. \<not> want a) (pend s)"
  obtain r s' where ns: "nxt s = (r, s')" by fastforce
  have r: "r = (case d of [] \<Rightarrow> None | a # as \<Rightarrow> Some a)"
    using next_result [OF assms] unfolding ns d_def by (simp add: find_dropWhile_not)
  have f: "filter want (pend s) = (case d of [] \<Rightarrow> [] | a # as \<Rightarrow> a # filter want as)"
    unfolding d_def by (rule filter_dropWhile_not)
  have s': "inv s'" "pend s' = tl d"
    using next_inv [OF assms] next_pend [OF assms] by (simp_all add: ns d_def)
  have len: "length d \<le> length (pend s)" unfolding d_def by (rule length_dropWhile_le)
  show ?thesis
  proof (cases d)
    case Nil
    then show ?thesis using none [of s'] ns r f s' by simp
  next
    case (Cons a as)
    then show ?thesis using some [of a s' as] ns r f s' len by simp
  qed
qed

lemma drain_all:
  "inv s \<Longrightarrow> length (pend s) < n \<Longrightarrow>
     fst (drain n nxt s) = filter want (pend s) \<and> inv (snd (drain n nxt s)) \<and> pend (snd (drain n nxt s)) = []"
proof (induction n arbitrary: s)
  case (Suc n)
  from Suc.prems(1) show ?case
  proof (cases rule: next_cases)
    case (some a as s')
    then show ?thesis using Suc.IH [of s'] Suc.prems(2) by (auto split: prod.split)
  qed simp
qed simp

text \<open>Taking the first \<open>n\<close> wanted elements.\<close>

lemma drain_take: "inv s \<Longrightarrow> fst (drain n nxt s) = take n (filter want (pend s))"
proof (induction n arbitrary: s)
  case (Suc n)
  from Suc.prems(1) show ?case
  proof (cases rule: next_cases)
    case (some a as s')
    then show ?thesis using Suc.IH [of s'] by (auto split: prod.split)
  qed simp
qed simp

end

section \<open>The query as a cursor\<close>

definition regex_total :: "(string \<Rightarrow> string \<Rightarrow> bool option) \<Rightarrow> LogFilter \<Rightarrow> LogMsgContainer \<Rightarrow> bool" where
  "regex_total rx f l \<longleftrightarrow> list_all (\<lambda>x. LogMatchFilter rx f (snd x) \<noteq> None) l"

text \<open>An attached reader that has not been overtaken, with a filter whose expression is well formed.\<close>

definition cursor_inv :: "(string \<Rightarrow> string \<Rightarrow> bool option) \<Rightarrow> LogFilter \<Rightarrow> ReaderId \<Rightarrow> HilogBuffer \<Rightarrow> bool" where
  "cursor_inv rx f rid b \<longleftrightarrow> buffer_wf b \<and> regex_total rx f (hilogDataList b) \<and>
     (case GetReader rid b of None \<Rightarrow> False | Some r \<Rightarrow> m_msgList r \<and> skipped r = 0)"

definition cursor_pend :: "ReaderId \<Rightarrow> HilogBuffer \<Rightarrow> HilogData list" where
  "cursor_pend rid b = map snd (pending_nodes b rid)"

definition cursor_next ::
  "(string \<Rightarrow> string \<Rightarrow> bool option) \<Rightarrow> LogTimeStamp \<Rightarrow> LogTimeStamp \<Rightarrow> LogFilter \<Rightarrow> ReaderId \<Rightarrow> nat \<Rightarrow> HilogBuffer \<Rightarrow>
   HilogData option \<times> HilogBuffer" where
  "cursor_next rx ts tm f rid k b =
     (case Query rx ts tm f rid k b of (Inr r, b') \<Rightarrow> (r, b') | (Inl e, b') \<Rightarrow> (None, b'))"

definition matches :: "(string \<Rightarrow> string \<Rightarrow> bool option) \<Rightarrow> LogFilter \<Rightarrow> HilogData \<Rightarrow> bool" where
  "matches rx f d \<longleftrightarrow> LogMatchFilter rx f d = Some True"

lemma copy_id: "data_wf d \<Longrightarrow> HilogData_copy d = d"
  using HilogData_copy_id by (auto simp: data_wf_def split: option.splits)

lemma query_loop_spec:
  assumes "regex_total rx f xs" "list_all (\<lambda>x. data_wf (snd x)) xs"
  shows "query_loop rx f xs =
    (case dropWhile (\<lambda>x. \<not> matches rx f (snd x)) xs of
       [] \<Rightarrow> (Inr None, End) | x # ys \<Rightarrow> (Inr (Some (snd x)), list_begin ys))"
  using assms
  by (induction xs) (auto simp: regex_total_def matches_def copy_id split: option.split bool.split)

lemma dropWhile_map_snd: "dropWhile P (map snd xs) = map snd (dropWhile (\<lambda>x. P (snd x)) xs)"
  by (induction xs) auto

lemma case_map_snd: "(case map snd xs of [] \<Rightarrow> None | a # as \<Rightarrow> Some a) = (case xs of [] \<Rightarrow> None | x # _ \<Rightarrow> Some (snd x))"
  by (cases xs) simp_all

lemma cursor_step:
  assumes "cursor_inv rx f rid b"
  defines "ys \<equiv> dropWhile (\<lambda>x. \<not> matches rx f (snd x)) (pending_nodes b rid)"
  shows "fst (cursor_next rx ts tm f rid k b) = (case ys of [] \<Rightarrow> None | x # _ \<Rightarrow> Some (snd x))"
    "cursor_inv rx f rid (snd (cursor_next rx ts tm f rid k b))"
    "pending_nodes (snd (cursor_next rx ts tm f rid k b)) rid = tl ys"
proof -
  let ?l = "hilogDataList b"
  obtain r where r: "GetReader rid b = Some r" "m_msgList r" "skipped r = 0" and wf: "buffer_wf b" and tot: "regex_total rx f ?l"
    using assms(1) by (auto simp: cursor_inv_def split: option.splits)
  let ?p = "list_from ?l (m_pos r)"
  have pend: "pending_nodes b rid = ?p" by (simp add: pending_nodes_def r)
  obtain pre where l: "?l = pre @ ?p" using list_from_suffix by blast
  have sub: "set ?p \<subseteq> set ?l" by (subst (2) l) simp
  have "list_all (\<lambda>x. data_wf (snd x)) ?l" using wf by (auto simp: buffer_wf_def list_all_iff)
  then have "list_all (\<lambda>x. data_wf (snd x)) ?p" using sub by (auto simp only: list_all_iff)
  moreover have "regex_total rx f ?p" using tot sub by (auto simp only: regex_total_def list_all_iff)
  ultimately have q: "query_loop rx f ?p = (case ys of [] \<Rightarrow> (Inr None, End) | x # ys \<Rightarrow> (Inr (Some (snd x)), list_begin ys))"
    unfolding ys_def pend by (intro query_loop_spec)
  define pos where "pos = list_begin (tl ys)"
  have upd: "r\<lparr>m_msgList := True, m_pos := p\<rparr> = r\<lparr>m_pos := p\<rparr>" for p using r(2) by (cases r) simp
  have lb: "list_begin [] = End" by (simp add: list_begin_def)
  have res: "cursor_next rx ts tm f rid k b = (case ys of [] \<Rightarrow> None | x # _ \<Rightarrow> Some (snd x), put_reader rid (r\<lparr>m_pos := pos\<rparr>) b)"
    using r q by (simp add: cursor_next_def Query_def SkippedNotice_def Let_def pos_def upd lb split: list.split)
  then show "fst (cursor_next rx ts tm f rid k b) = (case ys of [] \<Rightarrow> None | x # _ \<Rightarrow> Some (snd x))" by simp
  obtain pre' where p: "?p = pre' @ ys"
    unfolding ys_def pend by (metis takeWhile_dropWhile_id)
  have l': "?l = (pre @ pre' @ take 1 ys) @ tl ys"
    using l p by (metis append.assoc append_take_drop_id drop_Suc drop_0 One_nat_def)
  have "distinct (map fst ?l)" using wf by (simp add: buffer_wf_def)
  then have "list_from ?l pos = tl ys"
    unfolding pos_def using list_from_begin l' by metis
  then show "pending_nodes (snd (cursor_next rx ts tm f rid k b)) rid = tl ys"
    by (simp add: res pending_nodes_def)
  have "reader_wf ?l (r\<lparr>m_pos := pos\<rparr>)"
    using l' r(2) by (intro list_begin_wf [of _ _ "tl ys"]) (auto simp: pos_def)
  then show "cursor_inv rx f rid (snd (cursor_next rx ts tm f rid k b))"
    using put_reader_wf [OF wf] tot r by (simp add: res cursor_inv_def)
qed

interpretation query_cursor: log_cursor "cursor_inv rx f rid" "cursor_pend rid" "matches rx f" "cursor_next rx ts tm f rid k"
  for rx f rid ts tm k
proof
  fix b assume inv: "cursor_inv rx f rid b"
  show "cursor_inv rx f rid (snd (cursor_next rx ts tm f rid k b))"
    by (rule cursor_step [OF inv])
  have d: "dropWhile (\<lambda>a. \<not> matches rx f a) (cursor_pend rid b) =
      map snd (dropWhile (\<lambda>x. \<not> matches rx f (snd x)) (pending_nodes b rid))"
    by (simp add: cursor_pend_def dropWhile_map_snd)
  have fnd: "find want xs = (case dropWhile (\<lambda>a. \<not> want a) xs of [] \<Rightarrow> None | a # as \<Rightarrow> Some a)" for want :: "HilogData \<Rightarrow> bool" and xs
    by (induction xs) auto
  show "fst (cursor_next rx ts tm f rid k b) = find (matches rx f) (cursor_pend rid b)"
    unfolding cursor_step(1) [OF inv] fnd d case_map_snd ..
  show "cursor_pend rid (snd (cursor_next rx ts tm f rid k b)) = tl (dropWhile (\<lambda>a. \<not> matches rx f a) (cursor_pend rid b))"
    unfolding d by (simp add: cursor_pend_def cursor_step(3) [OF inv] map_tl)
qed

text \<open>
  C2: A reader that is attached, was not overtaken by the removal of old logs and has a valid filter,
  and that keeps querying, receives exactly the logs it has not seen yet that match its filter, each
  once and in the order of the buffer, and afterwards has nothing left to read.
\<close>

theorem Query_drains_in_order:
  assumes "cursor_inv rx f rid b" "length (cursor_pend rid b) < n"
  shows "fst (drain n (cursor_next rx ts tm f rid k) b) = filter (matches rx f) (cursor_pend rid b) \<and>
    cursor_pend rid (snd (drain n (cursor_next rx ts tm f rid k) b)) = []"
  using query_cursor.drain_all [OF assms] by simp

theorem Query_drains_in_order_witness:
  "\<exists>b. buf_run (\<lambda>_ _. None) (\<lambda>_. None) (take 3 demo_ops) demo_new = Some b \<and>
     map d_tag (fst (drain 7 (cursor_next (\<lambda>_ _. None) (LogTimeStamp 1 2) (LogTimeStamp 3 4) demo_filter 7 0) b)) = [''tag'']"
proof -
  obtain b where b: "buf_run (\<lambda>_ _. None) (\<lambda>_. None) (take 3 demo_ops) demo_new = Some b"
    and c: "map_option (\<lambda>b. (cursor_inv (\<lambda>_ _. None) demo_filter 7 b, length (cursor_pend 7 b),
      map d_tag (filter (matches (\<lambda>_ _. None) demo_filter) (cursor_pend 7 b))))
      (buf_run (\<lambda>_ _. None) (\<lambda>_. None) (take 3 demo_ops) demo_new) = Some (True, 1, [''tag''])"
  proof -
    have c: "map_option (\<lambda>b. (cursor_inv (\<lambda>_ _. None) demo_filter 7 b, length (cursor_pend 7 b),
      map d_tag (filter (matches (\<lambda>_ _. None) demo_filter) (cursor_pend 7 b))))
      (buf_run (\<lambda>_ _. None) (\<lambda>_. None) (take 3 demo_ops) demo_new) = Some (True, 1, [''tag''])"
      by code_simp
    with that show ?thesis by auto
  qed
  then show ?thesis
    using Query_drains_in_order [of "\<lambda>_ _. None" demo_filter 7 b 7] by auto
qed

section \<open>Inserting and clearing, as seen by the readers\<close>

text \<open>
  C9: Inserting an accepted message forgets only a number of the oldest logs of the same buffer.
  Unless the buffer is reported full, the log is appended to the list and to what every
  attached reader has still to see, and its content length is returned; otherwise nothing is
  appended and nobody is notified.
\<close>

theorem Insert_effect:
  assumes "buffer_wf b" "accepts msg" "Insert limits msg isFull b = (ret, full, b', notified)"
  shows "\<exists>k. let R = set (take k (same_buffer msg b)); x = (next_node b, HilogData_of_msg msg)
    in (if full then ret = 0 \<and> notified = [] \<and> hilogDataList b' = filter (\<lambda>y. y \<notin> R) (hilogDataList b) \<and>
          (\<forall>rid. pending_nodes b' rid = filter (\<lambda>y. y \<notin> R) (pending_nodes b rid))
        else ret = CONTENT_LEN msg \<and> hilogDataList b' = filter (\<lambda>y. y \<notin> R) (hilogDataList b) @ [x] \<and>
          (\<forall>rid. pending_nodes b' rid =
             filter (\<lambda>y. y \<notin> R) (pending_nodes b rid) @ (if attached b rid then [x] else [])))"
proof -
  let ?t = "ConvertBufType (unat (m_type msg))"
  obtain k b1 where r: "removes (take k (same_buffer msg b)) b b1"
    and full: "full \<Longrightarrow> ret = 0 \<and> b' = b1 \<and> notified = []"
    and ok: "\<not> full \<Longrightarrow> ret = CONTENT_LEN msg \<and> b' = Insert_append msg ?t (CONTENT_LEN msg) b1"
    using Insert_cases [OF assms] by metis
  have wf1: "buffer_wf b1" and n: "next_node b1 = next_node b"
    using r by (simp_all add: removes_def)
  note a = Insert_append_effect [OF wf1 assms(2)]
  show ?thesis
    using r full ok n by (intro exI [of _ k]) (auto simp: removes_def Let_def a)
qed

lemma demo_new_wf: "buffer_wf demo_new" "accounted demo_new"
  using HilogBuffer_new_inv by (simp_all add: demo_new_def)

lemma demo_msg_accepts: "accepts demo_msg"
  by code_simp

lemma demo_insert: "\<exists>b' ns. Insert (replicate 6 65536) demo_msg False demo_new = (5, False, b', ns)"
proof -
  have "(\<lambda>(r, full, b', ns). (r, full)) (Insert (replicate 6 65536) demo_msg False demo_new) = (5, False)"
    by code_simp
  then show ?thesis by (cases "Insert (replicate 6 65536) demo_msg False demo_new") auto
qed

theorem Insert_effect_witness:
  "\<exists>k b' ns. Insert (replicate 6 65536) demo_msg False demo_new = (5, False, b', ns) \<and>
     hilogDataList b' = filter (\<lambda>y. y \<notin> set (take k (same_buffer demo_msg demo_new))) (hilogDataList demo_new) @
       [(next_node demo_new, HilogData_of_msg demo_msg)]"
proof -
  obtain b' ns where i: "Insert (replicate 6 65536) demo_msg False demo_new = (5, False, b', ns)" using demo_insert by blast
  from Insert_effect [OF demo_new_wf(1) demo_msg_accepts i] i show ?thesis by (auto simp: Let_def)
qed

lemma drop_mark_bound:
  assumes "\<not> over_drop_mark sz mx" "unat mx \<le> MAX_BUFFER_SIZE"
  shows "20 * unat sz \<le> 19 * unat mx + 60"
proof -
  let ?s = "unat sz" and ?m = "unat mx" and ?F = "f32_round (f32_round (unat mx) * 15938355)"
  have 1: "2 ^ 24 * ?s \<le> 2 ^ 24 * f32_round ?s + ?s" by (rule f32_round_error)
  have 2: "f32_round ?s * 2 ^ 24 \<le> ?F" using assms(1) by (simp add: over_drop_mark_def not_less)
  have 3: "2 ^ 24 * ?F \<le> (2 ^ 24 + 1) * (f32_round ?m * 15938355)" by (rule f32_round_error)
  have 4: "2 ^ 24 * f32_round ?m \<le> (2 ^ 24 + 1) * ?m" by (rule f32_round_error)
  show ?thesis using 1 2 3 4 assms(2) by simp
qed

text \<open>
  C10: After every successful insertion the bytes kept in the buffer exceed its limit by at most
  822, for every limit that can be configured: dropping brings the counter down to 95 percent
  of the limit and a single log adds at most \<open>MAX_LOG_LEN\<close>.
\<close>

theorem Insert_size_bound:
  assumes "buffer_wf b" "accounted b" "accepts msg" "Insert limits msg isFull b = (ret, False, b', notified)"
    and "t = ConvertBufType (unat (m_type msg))"
    and "MIN_BUFFER_SIZE \<le> unat (limits ! t)" "unat (limits ! t) \<le> MAX_BUFFER_SIZE"
  shows "unat (sizeByType b' ! t) \<le> unat (limits ! t) + 822"
proof -
  obtain k b1 where r: "removes (take k (same_buffer msg b)) b b1" and acc: "accounted b1"
    and b': "b' = Insert_append msg t (CONTENT_LEN msg) b1"
    and c: "CONTENT_LEN msg + sizeByType b1 ! t < limits ! t \<or> \<not> over_drop_mark (sizeByType b1 ! t) (limits ! t) \<or>
       k = length (same_buffer msg b)"
    using Insert_cases [OF assms(1,3,4)] assms(2,5) by (metis (full_types))
  have wf1: "buffer_wf b1" using r by (simp add: removes_def)
  have t: "t < LOG_TYPE_MAX" using assms(3,5) by (auto simp: accepts_def ConvertBufType_def)
  have sz: "sizeByType b' ! t = sizeByType b1 ! t + CONTENT_LEN msg"
    using wf1 t unfolding b' Insert_append_effect(5) [OF wf1 assms(3)] by (simp add: buffer_wf_def)
  have elem: "unat (CONTENT_LEN msg) \<le> MAX_LOG_LEN"
    using assms(3) by (simp add: accepts_def msg_accepted_def)
  have add: "unat (sizeByType b1 ! t + CONTENT_LEN msg) \<le> unat (sizeByType b1 ! t) + unat (CONTENT_LEN msg)"
    by (simp add: unat_word_ariths)
  from c consider "CONTENT_LEN msg + sizeByType b1 ! t < limits ! t" | "\<not> over_drop_mark (sizeByType b1 ! t) (limits ! t)" |
    "k = length (same_buffer msg b)" by blast
  then show ?thesis
  proof cases
    case 1
    then show ?thesis by (simp add: sz word_less_nat_alt add.commute)
  next
    case 2
    then have "20 * unat (sizeByType b1 ! t) \<le> 19 * unat (limits ! t) + 60"
      using assms(7) by (rule drop_mark_bound)
    then show ?thesis using add elem assms(6) by (simp add: sz)
  next
    case 3
    have "filter (\<lambda>x. bufType (snd x) = t) (hilogDataList b1) = []"
      using r 3 by (auto simp: removes_def same_buffer_def assms(5) filter_empty_conv)
    then have "sizeByType b1 ! t = 0" using acc t by (simp add: accounted_def kept_bytes_def)
    then show ?thesis using elem assms(6) by (simp add: sz)
  qed
qed

theorem Insert_size_bound_witness:
  "\<exists>b' ns. Insert (replicate 6 65536) demo_msg False demo_new = (5, False, b', ns) \<and> unat (sizeByType b' ! 3) \<le> 65536 + 822"
proof -
  obtain b' ns where i: "Insert (replicate 6 65536) demo_msg False demo_new = (5, False, b', ns)" using demo_insert by blast
  have "3 = ConvertBufType (unat (m_type demo_msg))" by (simp add: demo_msg_def ConvertBufType_def)
  from Insert_size_bound [OF demo_new_wf demo_msg_accepts i this] i show ?thesis by simp
qed

lemma Delete_loop_sum:
  "fst (Delete_loop logType rest s b) = s + sum_list (map (\<lambda>x. d_cLen (snd x)) (filter (\<lambda>x. unat (d_type (snd x)) = logType) rest))"
  by (induction logType rest s b rule: Delete_loop.induct) (auto simp: add.assoc)

text \<open>
  C12: Clearing a valid type removes exactly the logs of this type from the list and from what
  every reader has still to see, in place and in order, and reports their total content length.
\<close>

theorem Delete_clears_type:
  assumes "buffer_wf b" "logType < LOG_TYPE_MAX" "Delete logType b = (ret, b')"
  shows "hilogDataList b' = filter (\<lambda>x. unat (d_type (snd x)) \<noteq> logType) (hilogDataList b) \<and>
    pending_nodes b' rid = filter (\<lambda>x. unat (d_type (snd x)) \<noteq> logType) (pending_nodes b rid) \<and>
    ret = sint (ucast (sum_list (map (\<lambda>x. d_cLen (snd x)) (filter (\<lambda>x. unat (d_type (snd x)) = logType) (hilogDataList b)))) :: u32)"
proof -
  let ?R = "filter (\<lambda>x. unat (d_type (snd x)) = logType) (hilogDataList b)"
  note r = Delete_effect [OF assms]
  have eq: "filter (\<lambda>x. x \<notin> set ?R) l = filter (\<lambda>x. unat (d_type (snd x)) \<noteq> logType) l" if "set l \<subseteq> set (hilogDataList b)" for l
    using that by (intro filter_cong) auto
  have "ret = sint (ucast (fst (Delete_loop logType (hilogDataList b) 0 b)) :: u32)"
    using assms(2,3) by (auto simp: Delete_def split: prod.splits)
  then show ?thesis
    using r eq [OF subset_refl] eq [OF pending_nodes_subset] by (simp add: removes_def Delete_loop_sum)
qed

theorem Delete_clears_type_witness:
  "hilogDataList (snd (Delete LOG_KMSG demo_new)) = filter (\<lambda>x. unat (d_type (snd x)) \<noteq> LOG_KMSG) (hilogDataList demo_new)"
  using Delete_clears_type [OF demo_new_wf(1), of LOG_KMSG "fst (Delete LOG_KMSG demo_new)" "snd (Delete LOG_KMSG demo_new)"]
  by simp

section \<open>Clearing the type \<open>LOG_ONLY_PRERELEASE\<close>\<close>

definition freed_bytes :: "nat \<Rightarrow> LogMsgContainer \<Rightarrow> size_t" where
  "freed_bytes logType l = sum_list (map (\<lambda>x. d_cLen (snd x)) (filter (\<lambda>x. unat (d_type (snd x)) = logType) l))"

lemma Delete_loop_sizes:
  "logType < length (sizeByType b) \<Longrightarrow>
     sizeByType (snd (Delete_loop logType rest s b)) = (sizeByType b)[logType := sizeByType b ! logType - freed_bytes logType rest]"
  by (induction logType rest s b rule: Delete_loop.induct)
    (auto simp: freed_bytes_def delete_node_sizes diff_diff_eq add.commute)

lemma kept_without_type:
  "kept_bytes t (filter (\<lambda>x. unat (d_type (snd x)) \<noteq> logType) l) =
     kept_bytes t l - (if ConvertBufType logType = t then freed_bytes logType l else 0)"
  by (induction l) (auto simp: kept_bytes_def freed_bytes_def bufType_def)

text \<open>
  C13: Clearing \<open>LOG_ONLY_PRERELEASE\<close> subtracts the freed bytes from the counter of that type
  although they were added to the counter of \<open>LOG_CORE\<close>: the core counter keeps the freed bytes
  for ever and the other counter wraps below zero.
\<close>

theorem Delete_prerelease_miscounts:
  assumes "buffer_wf b" "accounted b" "Delete LOG_ONLY_PRERELEASE b = (ret, b')"
  shows "sizeByType b' ! LOG_CORE = kept_bytes LOG_CORE (hilogDataList b') + freed_bytes LOG_ONLY_PRERELEASE (hilogDataList b) \<and>
    sizeByType b' ! LOG_ONLY_PRERELEASE = - freed_bytes LOG_ONLY_PRERELEASE (hilogDataList b)"
proof -
  let ?l = "hilogDataList b"
  have len: "length (sizeByType b) = LOG_TYPE_MAX" using assms(1) by (simp add: buffer_wf_def)
  have b': "b' = snd (Delete_loop LOG_ONLY_PRERELEASE ?l 0 b)"
    using assms(3) by (auto simp: Delete_def split: prod.splits)
  have "\<not> bufType (snd x) = LOG_ONLY_PRERELEASE" for x :: "nat \<times> HilogData"
    by (simp add: bufType_def ConvertBufType_def)
  then have z: "kept_bytes LOG_ONLY_PRERELEASE ?l = 0" by (simp add: kept_bytes_def)
  have "sizeByType b' = (sizeByType b)[LOG_ONLY_PRERELEASE := sizeByType b ! LOG_ONLY_PRERELEASE - freed_bytes LOG_ONLY_PRERELEASE ?l]"
    unfolding b' using len by (intro Delete_loop_sizes) simp
  moreover have "hilogDataList b' = filter (\<lambda>x. unat (d_type (snd x)) \<noteq> LOG_ONLY_PRERELEASE) ?l"
    using Delete_effect [OF assms(1) _ assms(3)] by (auto simp: removes_def intro!: filter_cong)
  ultimately show ?thesis
    using assms(2) z len kept_without_type [of LOG_CORE LOG_ONLY_PRERELEASE ?l]
    by (simp add: accounted_def ConvertBufType_def)
qed

theorem Delete_prerelease_miscounts_witness:
  "sizeByType (snd (Delete LOG_ONLY_PRERELEASE demo_new)) ! LOG_ONLY_PRERELEASE = - 44"
proof -
  have "freed_bytes LOG_ONLY_PRERELEASE (hilogDataList demo_new) = 44" by code_simp
  with Delete_prerelease_miscounts [OF demo_new_wf, of "fst (Delete LOG_ONLY_PRERELEASE demo_new)"
      "snd (Delete LOG_ONLY_PRERELEASE demo_new)"]
  show ?thesis by simp
qed

section \<open>Starting at the tail\<close>

lemma match_cases: "LogMatchFilter rx f d \<noteq> None \<Longrightarrow> LogMatchFilter rx f d = Some (matches rx f d)"
  by (auto simp: matches_def)

text \<open>The nodes in reverse order: the loop stops behind the last match it counts, or at the first node.\<close>

lemma tail_loop_few:
  "xs \<noteq> [] \<Longrightarrow> \<forall>x \<in> set xs. LogMatchFilter rx f (snd x) \<noteq> None \<Longrightarrow> length (filter (\<lambda>x. matches rx f (snd x)) (butlast xs)) < k \<Longrightarrow>
     tail_loop rx f k xs = Inr (At (fst (last xs)))"
proof (induction rx f k xs rule: tail_loop.induct)
  case (4 rx f k x y xs)
  then show ?case using match_cases [of rx f "snd x"] by (cases "matches rx f (snd x)") auto
qed auto

lemma tail_loop_enough:
  "\<forall>x \<in> set (post @ [x]). LogMatchFilter rx f (snd x) \<noteq> None \<Longrightarrow> matches rx f (snd x) \<Longrightarrow>
     tail_loop rx f (Suc (length (filter (\<lambda>x. matches rx f (snd x)) post))) (post @ x # y # pre) = Inr (At (fst y))"
proof (induction post)
  case Nil
  then show ?case by (auto simp: matches_def)
next
  case (Cons z zs)
  obtain w ws where w: "zs @ x # y # pre = w # ws" by (cases zs) auto
  show ?case using Cons match_cases [of rx f "snd z"] w by (cases "matches rx f (snd z)") auto
qed

lemma nth_last_match:
  "n \<le> length (filter P xs) \<Longrightarrow> 0 < n \<Longrightarrow> \<exists>a x b. xs = a @ x # b \<and> P x \<and> length (filter P b) + 1 = n"
proof (induction xs)
  case (Cons z zs)
  show ?case
  proof (cases "n \<le> length (filter P zs)")
    case True
    then obtain a x b where "zs = a @ x # b" "P x" "length (filter P b) + 1 = n" using Cons by blast
    then show ?thesis by (intro exI [of _ "z # a"]) auto
  next
    case False
    then have "P z \<and> length (filter P zs) + 1 = n" using Cons.prems by (auto split: if_splits)
    then show ?thesis by blast
  qed
qed simp

text \<open>
  C14: Where a reader is placed that asks for the last \<open>n\<close> matching logs of a buffer, for a valid
  filter. It begins one log before the \<open>n\<close>-th last match, so that \<open>n + 1\<close> matching logs lie ahead of it
  whenever that log matches too, and \<open>n\<close> otherwise; it begins at the first log when fewer than
  \<open>n\<close> logs behind the first one match.
\<close>

theorem Query_tail_one_too_many:
  assumes "distinct (map fst l)" "\<forall>x \<in> set l. LogMatchFilter rx f (snd x) \<noteq> None" "0 < n"
  shows "\<exists>p. Query_start rx f n l = Inr p \<and>
    (length (filter (\<lambda>x. matches rx f (snd x)) (tl l)) < n \<longrightarrow> list_from l p = l) \<and>
    (\<forall>pre y x post. l = pre @ y # x # post \<longrightarrow> matches rx f (snd x) \<longrightarrow> length (filter (\<lambda>x. matches rx f (snd x)) post) + 1 = n \<longrightarrow>
       list_from l p = y # x # post \<and>
       length (filter (\<lambda>x. matches rx f (snd x)) (list_from l p)) = (if matches rx f (snd y) then n + 1 else n))"
proof -
  let ?M = "\<lambda>x. matches rx f (snd x)"
  have few: "\<exists>p. Query_start rx f n l = Inr p \<and> list_from l p = l" if "length (filter ?M (tl l)) < n"
  proof (cases l)
    case (Cons a r)
    then have "length (filter ?M (butlast (rev l))) < n" using that by (simp add: butlast_rev rev_filter [symmetric])
    then have "Query_start rx f n l = Inr (At (fst a))"
      using tail_loop_few [of "rev l" rx f n] assms(2,3) Cons by (simp add: Query_start_def last_rev)
    moreover have "list_begin l = At (fst a)" using Cons by (simp add: list_begin_def)
    ultimately show ?thesis using list_from_begin_self [OF assms(1)] by auto
  qed (use assms(3) list_from_begin_self [of "[]"] in \<open>simp add: Query_start_def list_begin_def\<close>)
  have enough: "Query_start rx f n l = Inr (At (fst y)) \<and> list_from l (At (fst y)) = y # x # post"
    if l: "l = pre @ y # x # post" "?M x" "length (filter ?M post) + 1 = n" for pre y x post
  proof -
    have "rev l = rev post @ x # y # rev pre" using l(1) by simp
    moreover have "n = Suc (length (filter ?M (rev post)))" using l(3) by (simp add: rev_filter [symmetric])
    ultimately have "Query_start rx f n l = Inr (At (fst y))"
      using tail_loop_enough [of "rev post" x rx f y "rev pre"] assms(2) l(1,2) by (simp add: Query_start_def)
    moreover have "list_from l (At (fst y)) = y # x # post"
      using list_from_begin [of pre "y # x # post"] assms(1) l(1) by (simp add: list_begin_def)
    ultimately show ?thesis by blast
  qed
  show ?thesis
  proof (cases "length (filter ?M (tl l)) < n")
    case True
    then obtain p where p: "Query_start rx f n l = Inr p" "list_from l p = l" using few by blast
    have "\<not> length (filter ?M post) + 1 = n" if "l = pre @ y # x # post" "?M x" for pre y x post
      using True that by (cases pre) (auto split: if_splits)
    then show ?thesis using p by blast
  next
    case False
    then obtain h t where h: "l = h # t" "n \<le> length (filter ?M t)" using assms(3) by (cases l) auto
    from nth_last_match [OF this(2) assms(3)] obtain a x post where t: "t = a @ x # post" "?M x" "length (filter ?M post) + 1 = n" by blast
    obtain pre y where "h # a = pre @ [y]" by (metis append_butlast_last_id list.distinct(1))
    then have "l = pre @ y # x # post" using h(1) t(1) by (metis append.assoc append_Cons append_Nil)
    from enough [OF this t(2,3)] have p: "Query_start rx f n l = Inr (At (fst y))" by blast
    have "list_from l (At (fst y)) = y' # x' # post' \<and> length (filter ?M (list_from l (At (fst y)))) = (if ?M y' then n + 1 else n)"
      if "l = pre' @ y' # x' # post'" "?M x'" "length (filter ?M post') + 1 = n" for pre' y' x' post'
      using enough [OF that] p that(2,3) by auto
    then show ?thesis using p False by blast
  qed
qed

text \<open>The last one of three matching logs is asked for and two of them lie ahead.\<close>

theorem Query_tail_one_too_many_witness:
  "\<exists>p. Query_start (\<lambda>_ _. None) demo_filter 1 (map (\<lambda>i. (i, HilogData_of_msg demo_msg)) [1, 2, 3]) = Inr p \<and>
     map fst (list_from (map (\<lambda>i. (i, HilogData_of_msg demo_msg)) [1, 2, 3]) p) = [2, 3]"
proof -
  let ?x = "\<lambda>i. (i :: nat, HilogData_of_msg demo_msg)"
  let ?l = "map ?x [1, 2, 3]"
  have m: "LogMatchFilter (\<lambda>_ _. None) demo_filter (HilogData_of_msg demo_msg) = Some True" by code_simp
  have l: "?l = [?x 1] @ ?x 2 # ?x 3 # []" by simp
  have "distinct (map fst ?l)" "\<forall>x \<in> set ?l. LogMatchFilter (\<lambda>_ _. None) demo_filter (snd x) \<noteq> None" "(0 :: nat) < 1"
    by (auto simp: m)
  from Query_tail_one_too_many [OF this] obtain p where "Query_start (\<lambda>_ _. None) demo_filter 1 ?l = Inr p"
      "\<forall>pre y x post. ?l = pre @ y # x # post \<longrightarrow> matches (\<lambda>_ _. None) demo_filter (snd x) \<longrightarrow>
         length (filter (\<lambda>x. matches (\<lambda>_ _. None) demo_filter (snd x)) post) + 1 = 1 \<longrightarrow> list_from ?l p = y # x # post"
    by blast
  moreover from this(2) have "list_from ?l p = [?x 2, ?x 3]" using l m unfolding matches_def by (metis (no_types, lifting) add_0 filter.simps(1) list.size(3) snd_conv)
  ultimately show ?thesis by auto
qed

end
