(* ===== verification/Flow_Control.thy ===== *)
theory Flow_Control
  imports "HOL-Library.AList" Log_TimeStamp Log_Data
begin

text \<open>
  The flow control of \<open>flow_control.cpp\<close>: every domain may log a number of bytes per second, its
  quota. The table \<open>g_domainMap\<close> is an association list that is passed explicitly; the quota of
  a domain comes from the system properties and is the parameter \<open>GetDomainQuota\<close>.
\<close>

section \<open>The check of a message\<close>

record DomainInfo =
  quota :: u32
  sumLen :: u32
  dropped :: u32
  startTime :: LogTimeStamp

type_synonym DomainMap = "(u32 \<times> DomainInfo) list"

definition FLOW_CTL_NORAML :: int where
  [simp]: "FLOW_CTL_NORAML = 0"

definition FLOW_CTL_DROPPED :: int where
  [simp]: "FLOW_CTL_DROPPED = - 1"

definition PERIOD :: LogTimeStamp where
  [simp]: "PERIOD = LogTimeStamp 1 0"

text \<open>The length without the two terminators, in \<open>size_t\<close>, and its conversion to \<open>uint32_t\<close>.\<close>

definition logLen :: "HilogMsg \<Rightarrow> size_t" where
  "logLen msg = ucast (m_len msg) - of_nat SIZEOF_HilogMsg - 1 - 1"

definition msg_now :: "HilogMsg \<Rightarrow> LogTimeStamp" where
  "msg_now msg = LogTimeStamp (m_mono_sec msg) (m_tv_nsec msg)"

definition FlowCtrlDomain :: "(u32 \<Rightarrow> u32) \<Rightarrow> HilogMsg \<Rightarrow> DomainMap \<Rightarrow> int \<times> DomainMap" where
  "FlowCtrlDomain GetDomainQuota hilogMsg g_domainMap =
     (if unat (m_type hilogMsg) = LOG_APP then (FLOW_CTL_NORAML, g_domainMap)
      else let domainId = m_domain hilogMsg; len = ucast (logLen hilogMsg) :: u32; tsNow = msg_now hilogMsg
           in case map_of g_domainMap domainId of
                Some info \<Rightarrow>
                  (if ts_gt tsNow (ts_plus (startTime info) PERIOD)
                   then (sint (dropped info),
                         AList.update domainId (info\<lparr>startTime := tsNow, sumLen := len, dropped := 0\<rparr>) g_domainMap)
                   else if sumLen info \<le> quota info
                   then (FLOW_CTL_NORAML, AList.update domainId (info\<lparr>sumLen := sumLen info + len\<rparr>) g_domainMap)
                   else (FLOW_CTL_DROPPED, AList.update domainId (info\<lparr>dropped := dropped info + 1\<rparr>) g_domainMap))
              | None \<Rightarrow>
                  (FLOW_CTL_NORAML,
                   AList.update domainId \<lparr>quota = GetDomainQuota domainId, sumLen = len, dropped = 0, startTime = tsNow\<rparr>
                     g_domainMap))"

section \<open>A period of one domain\<close>

text \<open>The results for a sequence of messages.\<close>

fun flow_run :: "(u32 \<Rightarrow> u32) \<Rightarrow> HilogMsg list \<Rightarrow> DomainMap \<Rightarrow> int list \<times> DomainMap" where
  "flow_run qf [] dm = ([], dm)"
| "flow_run qf (msg # msgs) dm =
     (let (r, dm') = FlowCtrlDomain qf msg dm; (rs, dm'') = flow_run qf msgs dm' in (r # rs, dm''))"

text \<open>A message of the domain that has room for both terminators and falls into the running period.\<close>

definition in_period :: "u32 \<Rightarrow> LogTimeStamp \<Rightarrow> HilogMsg \<Rightarrow> bool" where
  "in_period d start msg \<longleftrightarrow> unat (m_type msg) \<noteq> LOG_APP \<and> m_domain msg = d \<and> unat (m_len msg) \<ge> SIZEOF_HilogMsg + 2 \<and>
     \<not> ts_gt (msg_now msg) (ts_plus start PERIOD)"

definition msg_bytes :: "HilogMsg \<Rightarrow> nat" where
  "msg_bytes msg = unat (m_len msg) - SIZEOF_HilogMsg - 2"

definition accepted_bytes :: "HilogMsg list \<Rightarrow> int list \<Rightarrow> nat" where
  "accepted_bytes msgs rs = sum_list (map (\<lambda>(m, r). if r = FLOW_CTL_NORAML then msg_bytes m else 0) (zip msgs rs))"

lemma unat_logLen: "unat (m_len msg) \<ge> SIZEOF_HilogMsg + 2 \<Longrightarrow> unat (ucast (logLen msg) :: u32) = msg_bytes msg"
proof -
  assume l: "unat (m_len msg) \<ge> SIZEOF_HilogMsg + 2"
  have b: "unat (m_len msg) < 2 ^ 16" using unsigned_less [of "m_len msg"] by simp
  have "logLen msg = of_nat (unat (m_len msg)) - of_nat (SIZEOF_HilogMsg + 2)"
    by (simp add: logLen_def)
  also have "\<dots> = of_nat (msg_bytes msg)"
    using l unfolding msg_bytes_def by (simp only: of_nat_diff [symmetric] diff_diff_left)
  finally have "unat (logLen msg) = msg_bytes msg"
    using b by (simp add: unat_of_nat msg_bytes_def)
  then have "(ucast (logLen msg) :: u32) = of_nat (msg_bytes msg)" by (metis of_nat_unat)
  moreover have "msg_bytes msg < 2 ^ 32" using b by (simp add: msg_bytes_def)
  ultimately show ?thesis by (simp add: unat_of_nat)
qed

lemma msg_bytes_less: "msg_bytes msg \<le> 65505"
proof -
  have "unat (m_len msg) < 2 ^ 16" using unsigned_less [of "m_len msg"] by simp
  then show ?thesis by (simp add: msg_bytes_def)
qed

lemma flow_step:
  assumes "in_period d (startTime info) msg" "map_of dm d = Some info"
    and q: "unat (quota info) + 65505 < 2 ^ 32"
    and f: "FlowCtrlDomain qf msg dm = (r, dm')"
  obtains info' where "map_of dm' d = Some info'" "quota info' = quota info" "startTime info' = startTime info"
    "unat (sumLen info') = unat (sumLen info) + (if r = FLOW_CTL_NORAML then msg_bytes msg else 0)"
    "dropped info' = dropped info + (if r = FLOW_CTL_NORAML then 0 else 1)"
    "r = (if sumLen info \<le> quota info then FLOW_CTL_NORAML else FLOW_CTL_DROPPED)"
proof (cases "sumLen info \<le> quota info")
  case True
  have len: "unat (ucast (logLen msg) :: u32) = msg_bytes msg"
    using assms(1) by (intro unat_logLen) (simp add: in_period_def)
  have r: "r = FLOW_CTL_NORAML" "dm' = AList.update d (info\<lparr>sumLen := sumLen info + ucast (logLen msg)\<rparr>) dm"
    using f assms(1,2) True by (auto simp: FlowCtrlDomain_def in_period_def Let_def)
  have "unat (sumLen info) \<le> unat (quota info)" using True by (simp add: word_le_nat_alt)
  then have "unat (sumLen info + ucast (logLen msg)) = unat (sumLen info) + msg_bytes msg"
    using q msg_bytes_less [of msg] len by (simp add: unat_word_ariths)
  then show ?thesis
    using that [of "info\<lparr>sumLen := sumLen info + ucast (logLen msg)\<rparr>"] r True by (simp add: update_conv)
next
  case False
  then have "r = FLOW_CTL_DROPPED" "dm' = AList.update d (info\<lparr>dropped := dropped info + 1\<rparr>) dm"
    using f assms(1,2) by (auto simp: FlowCtrlDomain_def in_period_def Let_def)
  then show ?thesis
    using that [of "info\<lparr>dropped := dropped info + 1\<rparr>"] False by (simp add: update_conv)
qed

text \<open>
  C15: Within one period a domain gets through at most its quota plus the 65505 bytes of the longest
  message: whatever sequence of messages of the domain arrives that have room for both terminators,
  the bytes accepted and those accepted before add up to the running sum, the sum exceeds the quota
  by at most that much, and every message that is not accepted is counted as dropped.
\<close>

theorem flow_control_quota:
  assumes "list_all (in_period d (startTime info)) msgs" "map_of dm d = Some info"
    and "unat (quota info) + 65505 < 2 ^ 32" "unat (sumLen info) \<le> unat (quota info) + 65505"
    and "flow_run qf msgs dm = (rs, dm')"
  shows "\<exists>info'. map_of dm' d = Some info' \<and>
    unat (sumLen info') = unat (sumLen info) + accepted_bytes msgs rs \<and>
    unat (sumLen info') \<le> unat (quota info) + 65505 \<and>
    dropped info' = dropped info + of_nat (length (filter (\<lambda>r. r = FLOW_CTL_DROPPED) rs)) \<and>
    length (filter (\<lambda>r. r = FLOW_CTL_NORAML) rs) + length (filter (\<lambda>r. r = FLOW_CTL_DROPPED) rs) = length msgs"
  using assms
proof (induction msgs arbitrary: dm info rs)
  case Nil
  then show ?case by (simp add: accepted_bytes_def)
next
  case (Cons msg msgs)
  obtain r dm1 where f: "FlowCtrlDomain qf msg dm = (r, dm1)" by fastforce
  obtain rs1 where rs: "flow_run qf msgs dm1 = (rs1, dm')" "rs = r # rs1"
    using Cons.prems(5) f by (auto split: prod.splits)
  from Cons.prems(1) have ip: "in_period d (startTime info) msg" by simp
  from flow_step [OF ip Cons.prems(2,3) f] obtain info1 where i1: "map_of dm1 d = Some info1"
    "quota info1 = quota info" "startTime info1 = startTime info"
    "unat (sumLen info1) = unat (sumLen info) + (if r = FLOW_CTL_NORAML then msg_bytes msg else 0)"
    "dropped info1 = dropped info + (if r = FLOW_CTL_NORAML then 0 else 1)"
    and r: "r = (if sumLen info \<le> quota info then FLOW_CTL_NORAML else FLOW_CTL_DROPPED)" by blast
  have "unat (sumLen info1) \<le> unat (quota info1) + 65505"
    using i1(2,4) r Cons.prems(4) msg_bytes_less [of msg] by (auto simp: word_le_nat_alt split: if_splits)
  from Cons.IH [OF _ i1(1) _ this rs(1)] Cons.prems(1,3) i1 obtain info' where
    "map_of dm' d = Some info'" "unat (sumLen info') = unat (sumLen info1) + accepted_bytes msgs rs1"
    "unat (sumLen info') \<le> unat (quota info) + 65505"
    "dropped info' = dropped info1 + of_nat (length (filter (\<lambda>r. r = FLOW_CTL_DROPPED) rs1))"
    "length (filter (\<lambda>r. r = FLOW_CTL_NORAML) rs1) + length (filter (\<lambda>r. r = FLOW_CTL_DROPPED) rs1) = length msgs"
    by auto
  then show ?case
    using i1(4,5) r rs(2) by (auto simp: accepted_bytes_def)
qed

definition demo_domain_info :: DomainInfo where
  "demo_domain_info = \<lparr>quota = 7, sumLen = 0, dropped = 0, startTime = LogTimeStamp 3 0\<rparr>"

theorem flow_control_quota_witness:
  "fst (flow_run (\<lambda>_. 0) [demo_msg, demo_msg, demo_msg] [(0xD002D00, demo_domain_info)]) = [0, 0, -1] \<and>
   (\<exists>info'. map_of (snd (flow_run (\<lambda>_. 0) [demo_msg, demo_msg, demo_msg] [(0xD002D00, demo_domain_info)])) 0xD002D00 = Some info' \<and>
     unat (sumLen info') = 14 \<and> dropped info' = 1)"
proof -
  have run: "fst (flow_run (\<lambda>_. 0) [demo_msg, demo_msg, demo_msg] [(0xD002D00, demo_domain_info)]) = [0, 0, -1]"
    "list_all (in_period 0xD002D00 (startTime demo_domain_info)) [demo_msg, demo_msg, demo_msg]"
    "accepted_bytes [demo_msg, demo_msg, demo_msg] [0, 0, -1] = 14"
    by (simp_all add: FlowCtrlDomain_def Let_def demo_msg_def demo_domain_info_def msg_now_def ts_defs logLen_def
        in_period_def accepted_bytes_def msg_bytes_def)
  have "map_of [(0xD002D00, demo_domain_info)] 0xD002D00 = Some demo_domain_info"
    "unat (quota demo_domain_info) + 65505 < 2 ^ 32" "unat (sumLen demo_domain_info) \<le> unat (quota demo_domain_info) + 65505"
    by (simp_all add: demo_domain_info_def)
  moreover obtain dm' where dm': "flow_run (\<lambda>_. 0) [demo_msg, demo_msg, demo_msg] [(0xD002D00, demo_domain_info)] = ([0, 0, -1], dm')"
    using run(1) by (cases "flow_run (\<lambda>_. 0) [demo_msg, demo_msg, demo_msg] [(0xD002D00, demo_domain_info)]") simp
  ultimately obtain info' where "map_of dm' 0xD002D00 = Some info'"
    "unat (sumLen info') = unat (sumLen demo_domain_info) + accepted_bytes [demo_msg, demo_msg, demo_msg] [0, 0, -1]"
    "dropped info' = dropped demo_domain_info + of_nat (length (filter (\<lambda>r. r = FLOW_CTL_DROPPED) [0, 0, -1 :: int]))"
    using flow_control_quota [OF run(2)] by blast
  then show ?thesis unfolding dm' run(3) by (simp add: demo_domain_info_def)
qed

section \<open>Messages without room for the terminators\<close>

lemma unat_numeral_ge: "(2 :: nat) ^ 32 - 2 \<le> unat (0xFFFFFFFF :: u32)"
  by simp

text \<open>The messages of a domain that are controlled.\<close>

definition of_domain :: "u32 \<Rightarrow> HilogMsg \<Rightarrow> bool" where
  "of_domain d msg \<longleftrightarrow> unat (m_type msg) \<noteq> LOG_APP \<and> m_domain msg = d"

text \<open>A domain that is over its quota stays so until its period ends, whatever else arrives.\<close>

lemma over_quota_step:
  assumes "map_of dm d = Some info" "sumLen info > quota info" "of_domain d msg \<Longrightarrow> \<not> ts_gt (msg_now msg) (ts_plus (startTime info) PERIOD)"
    and "FlowCtrlDomain qf msg dm = (r, dm')"
  shows "(of_domain d msg \<longrightarrow> r = FLOW_CTL_DROPPED) \<and>
    (\<exists>info'. map_of dm' d = Some info' \<and> sumLen info' > quota info' \<and> startTime info' = startTime info)"
proof (cases "of_domain d msg")
  case True
  then have "FlowCtrlDomain qf msg dm = (FLOW_CTL_DROPPED, AList.update d (info\<lparr>dropped := dropped info + 1\<rparr>) dm)"
    using assms(1-3) by (simp add: FlowCtrlDomain_def of_domain_def Let_def)
  then show ?thesis using assms(2,4) by (auto simp: update_conv)
next
  case False
  then have "map_of dm' d = map_of dm d"
    using assms(4) by (auto simp: FlowCtrlDomain_def of_domain_def Let_def update_conv split: if_splits option.splits)
  then show ?thesis using assms(1,2) False by simp
qed

lemma over_quota_run:
  assumes "map_of dm d = Some info" "sumLen info > quota info"
    and "\<forall>msg \<in> set msgs. of_domain d msg \<longrightarrow> \<not> ts_gt (msg_now msg) (ts_plus (startTime info) PERIOD)"
  shows "list_all2 (\<lambda>msg r. of_domain d msg \<longrightarrow> r = FLOW_CTL_DROPPED) msgs (fst (flow_run qf msgs dm))"
  using assms
proof (induction msgs arbitrary: dm info)
  case (Cons msg msgs)
  obtain r dm' where f: "FlowCtrlDomain qf msg dm = (r, dm')" by fastforce
  obtain rs dm'' where rs: "flow_run qf msgs dm' = (rs, dm'')" by fastforce
  have "of_domain d msg \<Longrightarrow> \<not> ts_gt (msg_now msg) (ts_plus (startTime info) PERIOD)" using Cons.prems(3) by simp
  from over_quota_step [OF Cons.prems(1,2) this f] obtain info' where "of_domain d msg \<longrightarrow> r = FLOW_CTL_DROPPED"
      "map_of dm' d = Some info'" "sumLen info' > quota info'" "startTime info' = startTime info" by blast
  then show ?case using Cons.IH [of dm' info'] Cons.prems(3) f rs by simp
qed simp

text \<open>
  C16: A message of 28 or 29 bytes, which has no room for both terminators, blocks its domain when
  it opens a period, as the first message of the domain or the first one after the previous period:
  the sum of the domain is then nearly \<open>2\<^sup>3\<^sup>2\<close>, above any quota below that, and every
  later message of the domain is dropped until the period ends, in any sequence of messages of this
  and other domains.
\<close>

theorem short_message_blocks_domain:
  assumes "of_domain d short" "unat (m_len short) \<in> {28, 29}"
    and "case map_of dm d of
           None \<Rightarrow> unat (qf d) < 2 ^ 32 - 2
         | Some info \<Rightarrow> ts_gt (msg_now short) (ts_plus (startTime info) PERIOD) \<and> unat (quota info) < 2 ^ 32 - 2"
    and "\<forall>msg \<in> set msgs. of_domain d msg \<longrightarrow> \<not> ts_gt (msg_now msg) (ts_plus (msg_now short) PERIOD)"
  shows "list_all2 (\<lambda>msg r. of_domain d msg \<longrightarrow> r = FLOW_CTL_DROPPED) msgs (tl (fst (flow_run qf (short # msgs) dm)))"
proof -
  have "m_len short = 28 \<or> m_len short = 29"
    using assms(2) by (auto simp: word_unat_eq_iff)
  then have len: "unat (ucast (logLen short) :: u32) \<ge> 2 ^ 32 - 2"
  proof
    assume "m_len short = 29"
    then have "logLen short = - 1" by (simp add: logLen_def)
    moreover have "(ucast (- 1 :: u64) :: u32) = - 1" by (rule bit_word_eqI) (simp add: bit_unsigned_iff)
    moreover have "(- 1 :: u32) = 0xFFFFFFFF" by simp
    ultimately show ?thesis by (metis (mono_tags) unat_numeral_ge)
  qed (simp add: logLen_def)
  obtain r dm' where f: "FlowCtrlDomain qf short dm = (r, dm')" by fastforce
  have d: "unat (m_type short) \<noteq> LOG_APP" "m_domain short = d" using assms(1) by (simp_all add: of_domain_def)
  obtain info where info: "map_of dm' d = Some info" "sumLen info = ucast (logLen short)" "startTime info = msg_now short" "unat (quota info) < 2 ^ 32 - 2"
    using assms(3) d f by (cases "map_of dm d") (auto simp: FlowCtrlDomain_def Let_def update_conv)
  have "quota info < sumLen info" using len info(2,4) by (simp add: word_less_nat_alt)
  moreover obtain rs dm'' where rs: "flow_run qf msgs dm' = (rs, dm'')" by fastforce
  ultimately show ?thesis using over_quota_run [of dm' d info msgs qf] info(1,3) assms(4) f by simp
qed

text \<open>A message of 28 bytes, then one of another domain and one of the same domain.\<close>

theorem short_message_blocks_domain_witness:
  "fst (flow_run (\<lambda>_. 9000) [demo_msg\<lparr>m_len := 28, m_tagLen := 0\<rparr>, demo_msg\<lparr>m_domain := 0xD002D01\<rparr>, demo_msg] []) ! 2 = FLOW_CTL_DROPPED"
proof -
  let ?short = "demo_msg\<lparr>m_len := 28, m_tagLen := 0\<rparr>" and ?msgs = "[demo_msg\<lparr>m_domain := 0xD002D01\<rparr>, demo_msg]"
  have "of_domain 0xD002D00 ?short" "unat (m_len ?short) \<in> {28, 29}"
      "case map_of [] (0xD002D00 :: u32) of None \<Rightarrow> unat (9000 :: u32) < 2 ^ 32 - 2
         | Some info \<Rightarrow> ts_gt (msg_now ?short) (ts_plus (startTime info) PERIOD) \<and> unat (quota info) < 2 ^ 32 - 2"
      "\<forall>msg \<in> set ?msgs. of_domain 0xD002D00 msg \<longrightarrow> \<not> ts_gt (msg_now msg) (ts_plus (msg_now ?short) PERIOD)"
    by (simp_all add: of_domain_def demo_msg_def msg_now_def ts_defs)
  from short_message_blocks_domain [OF this] have "list_all2 (\<lambda>msg r. of_domain 0xD002D00 msg \<longrightarrow> r = FLOW_CTL_DROPPED) ?msgs
      (tl (fst (flow_run (\<lambda>_. 9000) (?short # ?msgs) [])))" .
  moreover have "of_domain 0xD002D00 demo_msg" by (simp add: of_domain_def demo_msg_def)
  ultimately show ?thesis by (cases "fst (flow_run (\<lambda>_. 9000) (?short # ?msgs) [])") (auto simp: list_all2_Cons1)
qed

end
