(* ===== verification/Log_Collector.thy ===== *)
theory Log_Collector
  imports Log_Buffer_Spec Flow_Control Log_Domains
begin

text \<open>
  The reception of messages, \<open>log_collector.h\<close> and \<open>log_collector.cpp\<close>, as built with the
  credentials of the sender: the domain check, the flow control, the notice about dropped
  lines, the insertion into the buffer and the statistics. The received bytes are the view of
  them as a \<open>HilogMsg\<close> together with their number. \<open>None\<close> is undefined behaviour.
\<close>

section \<open>The collector\<close>

record LogCollector =
  countEnable :: bool
  flowControl :: bool
  debug :: bool

text \<open>What the collector works on: the buffer, its limits and the table of the flow control.\<close>

record CollectorState =
  cs_domainMap :: DomainMap
  cs_buffer :: HilogBuffer

definition LogCollector_new :: "bool \<Rightarrow> bool \<Rightarrow> HilogBuffer \<Rightarrow> LogCollector" where
  "LogCollector_new isDomainSwitchOn isPersistDebugOn b =
     \<lparr>countEnable = enable (stats b), flowControl = isDomainSwitchOn, debug = isPersistDebugOn\<rparr>"

definition SetLogFlowControl :: "bool \<Rightarrow> LogCollector \<Rightarrow> LogCollector" where
  "SetLogFlowControl on c = c\<lparr>flowControl := on\<rparr>"

definition SetDebuggable :: "bool \<Rightarrow> LogCollector \<Rightarrow> LogCollector" where
  "SetDebuggable on c = c\<lparr>debug := on\<rparr>"

definition InsertLogToBuffer :: "BufferLimits \<Rightarrow> HilogMsg \<Rightarrow> HilogBuffer \<Rightarrow> size_t \<times> HilogBuffer" where
  "InsertLogToBuffer limits msg b = (let (ret, isFull, b', ns) = Insert limits msg False b in (ret, b'))"

definition dropMsg :: "HilogMsg \<Rightarrow> int \<Rightarrow> HilogMsg" where
  "dropMsg msg droppedCount =
     (let dropLog = Num2Str 10 (nat droppedCount) @ '' line(s) dropped!''; tag = ''LOGLIMITD''
      in msg\<lparr>m_len := of_nat (SIZEOF_HilogMsg + length tag + length dropLog + 1),
             m_tagLen := of_nat (length tag), m_payload := tag @ dropLog @ [NUL]\<rparr>)"

definition InsertDropInfo :: "BufferLimits \<Rightarrow> HilogMsg \<Rightarrow> int \<Rightarrow> HilogBuffer \<Rightarrow> HilogBuffer" where
  "InsertDropInfo limits msg droppedCount b = snd (InsertLogToBuffer limits (dropMsg msg droppedCount) b)"

text \<open>
  \<open>*(msg.tag + msg.tagLen - 1)\<close>: with an empty tag this is the last byte of the header, the
  high byte of the domain; behind the received bytes there is no value.
\<close>

definition tag_end :: "HilogMsg \<Rightarrow> char option" where
  "tag_end msg =
     (if m_tagLen msg = 0 then Some (char_of (unat (drop_bit 24 (m_domain msg))))
      else if unat (m_tagLen msg) - 1 < length (m_payload msg) then Some (m_payload msg ! (unat (m_tagLen msg) - 1))
      else None)"

definition stats_info :: "HilogMsg \<Rightarrow> bool \<Rightarrow> StatsInfo" where
  "stats_info msg is_dropped =
     \<lparr>s_level = unat (m_level msg), s_type = unat (m_type msg), s_len = ucast (logLen msg),
      s_dropped = (if is_dropped then 1 else 0), s_domain = m_domain msg, s_pid = m_pid msg,
      s_tv_sec = m_tv_sec msg, s_tv_nsec = m_tv_nsec msg, s_mono_sec = m_mono_sec msg,
      s_tag = c_str (m_payload msg)\<rparr>"

definition CountReceived ::
  "(u32 \<Rightarrow> string option) \<Rightarrow> LogCollector \<Rightarrow> HilogMsg \<Rightarrow> bool \<Rightarrow> HilogBuffer \<Rightarrow> HilogBuffer option" where
  "CountReceived cmdline c msg is_dropped b =
     (if \<not> countEnable c then Some b
      else case tag_end msg of
             None \<Rightarrow> None
           | Some ch \<Rightarrow> if ch \<noteq> NUL then Some b else CountLog cmdline (stats_info msg is_dropped) b)"

definition onDataRecv ::
  "(u32 \<Rightarrow> string option) \<Rightarrow> (u32 \<Rightarrow> u32) \<Rightarrow> BufferLimits \<Rightarrow> LogCollector \<Rightarrow> u32 \<Rightarrow> HilogMsg \<Rightarrow> int \<Rightarrow>
   CollectorState \<Rightarrow> CollectorState option" where
  "onDataRecv cmdline GetDomainQuota limits c cred_pid data dataLen st =
     (if dataLen < int SIZEOF_HilogMsg \<or> dataLen \<noteq> int (unat (m_len data)) then Some st
      else if \<not> IsValidDomain (unat (m_type data)) (m_domain data) then Some st
      else let msg = data\<lparr>m_pid := cred_pid\<rparr>;
               (ret, dm) = (if unat (m_type msg) \<noteq> LOG_APP \<and> flowControl c \<and> \<not> debug c
                            then FlowCtrlDomain GetDomainQuota msg (cs_domainMap st) else (0, cs_domainMap st));
               b = cs_buffer st;
               st1 = st\<lparr>cs_domainMap := dm\<rparr>
           in if ret < 0
              then map_option (\<lambda>b'. st1\<lparr>cs_buffer := b'\<rparr>) (CountReceived cmdline c msg True b)
              else let b1 = (if ret > 0 then InsertDropInfo limits msg ret b else b);
                       (n, b2) = InsertLogToBuffer limits msg b1
                   in if n = 0 then Some (st1\<lparr>cs_buffer := b2\<rparr>)
                      else map_option (\<lambda>b'. st1\<lparr>cs_buffer := b'\<rparr>) (CountReceived cmdline c msg False b2))"

section \<open>What reaches the buffer\<close>

text \<open>\<open>adds P b b'\<close>: \<open>b'\<close> is well formed and every log that is new in it satisfies \<open>P\<close>.\<close>

definition adds :: "(HilogData \<Rightarrow> bool) \<Rightarrow> HilogBuffer \<Rightarrow> HilogBuffer \<Rightarrow> bool" where
  "adds P b b' \<longleftrightarrow> buffer_wf b' \<and> (\<forall>x \<in> set (hilogDataList b'). x \<in> set (hilogDataList b) \<or> P (snd x))"

lemma adds_refl: "buffer_wf b \<Longrightarrow> adds P b b"
  by (simp add: adds_def)

lemma adds_trans: "adds P b b' \<Longrightarrow> adds P b' b'' \<Longrightarrow> adds P b b''"
  by (auto simp: adds_def)

lemma adds_stats [simp]: "adds P b (b'\<lparr>stats := s\<rparr>) = adds P b b'"
  by (simp add: adds_def)

lemma InsertLogToBuffer_adds:
  assumes wf: "buffer_wf b" and P: "accepts msg \<Longrightarrow> P (HilogData_of_msg msg)"
  shows "adds P b (snd (InsertLogToBuffer limits msg b))"
proof -
  obtain ret full b' ns where i: "Insert limits msg False b = (ret, full, b', ns)" by (metis prod.collapse)
  then have b': "snd (InsertLogToBuffer limits msg b) = b'" by (simp add: InsertLogToBuffer_def)
  have wf': "buffer_wf b'" by (rule Insert_wf [OF wf i])
  show ?thesis
  proof (cases "accepts msg")
    case True
    obtain k b1 where "removes (take k (same_buffer msg b)) b b1"
      and "full \<Longrightarrow> b' = b1"
      and "\<not> full \<Longrightarrow> b' = Insert_append msg (ConvertBufType (unat (m_type msg))) (CONTENT_LEN msg) b1"
      using Insert_cases [OF wf True i] by metis
    then show ?thesis
      using P [OF True] wf' Insert_append_effect(2) [of b1 msg] True
      by (cases full) (auto simp: b' adds_def removes_def)
  next
    case False
    then have "b' = b" using i by (simp add: Insert_rejected)
    then show ?thesis unfolding b' using wf by (simp add: adds_refl)
  qed
qed

lemma CountReceived_adds:
  "CountReceived cmdline c msg dr b = Some b' \<Longrightarrow> adds P b0 b \<Longrightarrow> adds P b0 b'"
  by (auto simp: CountReceived_def CountLog_def split: if_splits option.splits)

lemma of_msg_fields:
  assumes "accepts msg"
  shows "d_pid (HilogData_of_msg msg) = m_pid msg" "d_domain (HilogData_of_msg msg) = m_domain msg"
    "unat (d_type (HilogData_of_msg msg)) = unat (m_type msg)"
  using assms HilogData_of_msg_accepted(5,6) d_type_of_msg by (auto simp: accepts_def)

lemma onDataRecv_ignored:
  assumes "(dataLen < int SIZEOF_HilogMsg \<or> dataLen \<noteq> int (unat (m_len data))) \<or>
    \<not> IsValidDomain (unat (m_type data)) (m_domain data)"
  shows "onDataRecv cmdline qf limits c cred_pid data dataLen st = Some st"
proof (cases "dataLen < int SIZEOF_HilogMsg \<or> dataLen \<noteq> int (unat (m_len data))")
  case False
  then have "\<not> IsValidDomain (unat (m_type data)) (m_domain data)" using assms by blast
  then show ?thesis unfolding onDataRecv_def if_not_P [OF False] by simp
qed (simp add: onDataRecv_def)

text \<open>
  C17: Every log the collector adds to the buffer, drop notices included, carries the process id
  the kernel reports for the sender, whatever id the message claims, and a domain that is valid
  for its type; the buffer stays well formed.
\<close>

theorem onDataRecv_provenance:
  assumes "buffer_wf (cs_buffer st)" "onDataRecv cmdline qf limits c cred_pid data dataLen st = Some st'"
  shows "adds (\<lambda>d. d_pid d = cred_pid \<and> IsValidDomain (unat (d_type d)) (d_domain d)) (cs_buffer st) (cs_buffer st')"
proof (cases "(dataLen < int SIZEOF_HilogMsg \<or> dataLen \<noteq> int (unat (m_len data))) \<or>
    \<not> IsValidDomain (unat (m_type data)) (m_domain data)")
  case True
  then have "st' = st" using assms(2) onDataRecv_ignored by fastforce
  then show ?thesis using adds_refl [OF assms(1)] by simp
next
  case False
  let ?P = "\<lambda>d. d_pid d = cred_pid \<and> IsValidDomain (unat (d_type d)) (d_domain d)"
  let ?b = "cs_buffer st"
  define msg where "msg = data\<lparr>m_pid := cred_pid\<rparr>"
  have valid: "IsValidDomain (unat (m_type data)) (m_domain data)" using False by simp
  have P: "accepts msg \<Longrightarrow> ?P (HilogData_of_msg msg)"
    "accepts (dropMsg msg n) \<Longrightarrow> ?P (HilogData_of_msg (dropMsg msg n))" for n
    using valid by (simp_all add: of_msg_fields) (simp_all add: msg_def dropMsg_def Let_def)
  obtain ret dm where r: "(if unat (m_type msg) \<noteq> LOG_APP \<and> flowControl c \<and> \<not> debug c
      then FlowCtrlDomain qf msg (cs_domainMap st) else (0, cs_domainMap st)) = (ret, dm)" by fastforce
  define b1 where "b1 = (if ret > 0 then InsertDropInfo limits msg ret ?b else ?b)"
  obtain n b2 where i: "InsertLogToBuffer limits msg b1 = (n, b2)" by fastforce
  have a1: "adds ?P ?b b1"
    using InsertLogToBuffer_adds [OF assms(1), of "dropMsg msg ret" ?P limits] P(2) adds_refl [OF assms(1)]
    by (simp add: b1_def InsertDropInfo_def)
  then have "adds ?P b1 b2"
    using InsertLogToBuffer_adds [of b1 msg ?P limits] P(1) i by (simp add: adds_def)
  then have a2: "adds ?P ?b b2" using a1 adds_trans by blast
  have "(if ret < 0 then map_option (\<lambda>b'. st\<lparr>cs_domainMap := dm, cs_buffer := b'\<rparr>) (CountReceived cmdline c msg True ?b)
      else if n = 0 then Some (st\<lparr>cs_domainMap := dm, cs_buffer := b2\<rparr>)
      else map_option (\<lambda>b'. st\<lparr>cs_domainMap := dm, cs_buffer := b'\<rparr>) (CountReceived cmdline c msg False b2)) = Some st'"
    using assms(2) False r i unfolding onDataRecv_def Let_def msg_def [symmetric] b1_def by auto
  then show ?thesis
    using a2 adds_refl [OF assms(1)] CountReceived_adds by (fastforce split: if_splits)
qed

definition demo_collector :: LogCollector where
  "demo_collector = \<lparr>countEnable = False, flowControl = True, debug = False\<rparr>"

theorem onDataRecv_provenance_witness:
  "\<exists>st'. onDataRecv (\<lambda>_. None) (\<lambda>_. 9000) (replicate 6 65536) demo_collector 77 demo_msg 37
      \<lparr>cs_domainMap = [], cs_buffer = demo_new\<rparr> = Some st' \<and>
     adds (\<lambda>d. d_pid d = 77 \<and> IsValidDomain (unat (d_type d)) (d_domain d)) demo_new (cs_buffer st')"
proof -
  have "onDataRecv (\<lambda>_. None) (\<lambda>_. 9000) (replicate 6 65536) demo_collector 77 demo_msg 37
      \<lparr>cs_domainMap = [], cs_buffer = demo_new\<rparr> \<noteq> None"
    by (simp add: onDataRecv_def Let_def demo_collector_def CountReceived_def demo_msg_def split: prod.split)
  then obtain st' where st': "onDataRecv (\<lambda>_. None) (\<lambda>_. 9000) (replicate 6 65536) demo_collector 77 demo_msg 37
      \<lparr>cs_domainMap = [], cs_buffer = demo_new\<rparr> = Some st'" by auto
  have "buffer_wf (cs_buffer \<lparr>cs_domainMap = [], cs_buffer = demo_new\<rparr>)" using demo_new_wf by simp
  from onDataRecv_provenance [OF this st'] st' show ?thesis by simp
qed

section \<open>The notice about dropped lines\<close>

text \<open>
  The notice about dropped lines is announced with the tag \<open>LOGLIMITD\<close> but with the tag length
  without its terminator, so it is stored and shown with the tag \<open>LOGLIMIT\<close>.
\<close>

theorem drop_notice_tag_truncated:
  assumes "accepts (dropMsg msg n)"
  shows "take 9 (m_payload (dropMsg msg n)) = ''LOGLIMITD'' \<and> d_tag (HilogData_of_msg (dropMsg msg n)) = ''LOGLIMIT''"
proof -
  have "msg_accepted (dropMsg msg n)" using assms by (simp add: accepts_def)
  then show ?thesis
    by (simp add: HilogData_of_msg_accepted) (simp add: dropMsg_def Let_def)
qed

theorem drop_notice_tag_truncated_witness:
  "d_tag (HilogData_of_msg (dropMsg demo_msg 12)) = ''LOGLIMIT''"
proof -
  have "accepts (dropMsg demo_msg 12)" by code_simp
  from drop_notice_tag_truncated [OF this] show ?thesis by simp
qed

end
