(* ===== verification/Log_Print.thy ===== *)
theory Log_Print
  imports Log_Utils
begin

text \<open>
  The formatting of a log for the console and for the persisted files, \<open>log_print.h\<close> and
  \<open>log_print.cpp\<close>. An output stream is the text written to it. \<open>localtime\<close> and the decoding of
  UTF-8 by \<open>StringToWstring\<close> belong to the C and C++ libraries and are parameters: \<open>localtime\<close>
  gives the broken-down time or \<open>None\<close> on failure, \<open>wlength\<close> the number of wide characters of a
  string.
\<close>

section \<open>Formats\<close>

datatype FormatTime = FT_INVALID | FT_TIME | FT_EPOCH | FT_MONOTONIC

datatype FormatTimeAccu = FA_INVALID | FA_MSEC | FA_USEC | FA_NSEC

record LogContent =
  c_level :: u8
  c_type :: u8
  c_pid :: u32
  c_tid :: u32
  c_domain :: u32
  c_tv_sec :: u32
  c_tv_nsec :: u32
  c_mono_sec :: u32
  c_tag :: string
  c_log :: string

record LogFormat =
  colorful :: bool
  timeFormat :: FormatTime
  timeAccuFormat :: FormatTimeAccu
  year :: bool
  zone :: bool
  wrap :: bool

record tm =
  tm_zone :: string
  tm_year :: nat
  tm_mon :: nat
  tm_mday :: nat
  tm_hour :: nat
  tm_min :: nat
  tm_sec :: nat

definition NEWLINE :: char where
  [simp]: "NEWLINE = CHR 0x0A"

definition ESC :: char where
  [simp]: "ESC = CHR 0x1B"

text \<open>\<open>setw\<close> and \<open>setfill\<close>: padding on the left to a minimal width.\<close>

definition pad :: "char \<Rightarrow> nat \<Rightarrow> string \<Rightarrow> string" where
  "pad c w s = replicate (w - length s) c @ s"

definition GetColor :: "nat \<Rightarrow> nat" where
  "GetColor level =
     (if level = LOG_DEBUG then 75 else if level = LOG_INFO then 40 else if level = LOG_WARN then 166
      else if level = LOG_ERROR then 196 else if level = LOG_FATAL then 226 else 231)"

definition GetLogTypePrefix :: "nat \<Rightarrow> string" where
  "GetLogTypePrefix t =
     (if t = LOG_APP then ''A'' else if t = LOG_INIT then ''I'' else if t = LOG_CORE then ''C''
      else if t = LOG_KMSG then ''K'' else if t = LOG_ONLY_PRERELEASE then ''P'' else '' '')"

definition ShortDomain :: "u32 \<Rightarrow> u32" where
  "ShortDomain d = d AND 0xFFFFF"

definition dec2 :: "nat \<Rightarrow> string" where
  "dec2 n = pad (CHR ''0'') 2 (Num2Str 10 n)"

section \<open>The prefix of a line\<close>

text \<open>
  The prefix is written in three stages. A stage returns the text and whether the code goes on;
  an unknown format writes a complaint and leaves the function.
\<close>

definition PrefixTime :: "(u32 \<Rightarrow> tm option) \<Rightarrow> LogContent \<Rightarrow> LogFormat \<Rightarrow> string \<times> bool" where
  "PrefixTime localtime content format =
     (case timeFormat format of
        FT_TIME \<Rightarrow>
          (case localtime (c_tv_sec content) of
             None \<Rightarrow> ([], False)
           | Some t \<Rightarrow>
               ((if zone format then tm_zone t @ '' '' else []) @
                (if year format then Num2Str 10 (tm_year t + 1900) @ ''-'' else []) @
                dec2 (tm_mon t + 1) @ ''-'' @ dec2 (tm_mday t) @ '' '' @
                dec2 (tm_hour t) @ '':'' @ dec2 (tm_min t) @ '':'' @ dec2 (tm_sec t), True))
      | FT_MONOTONIC \<Rightarrow> (pad (CHR '' '') 8 (Uint2DecStr (c_mono_sec content)), True)
      | FT_EPOCH \<Rightarrow> (pad (CHR '' '') 10 (Uint2DecStr (c_tv_sec content)), True)
      | FT_INVALID \<Rightarrow> (''Invalid time format'' @ [NEWLINE], False))"

definition PrefixAccu :: "LogContent \<Rightarrow> LogFormat \<Rightarrow> string \<times> bool" where
  "PrefixAccu content format =
     (let ns = unat (c_tv_nsec content) in
      case timeAccuFormat format of
        FA_MSEC \<Rightarrow> (''.'' @ pad (CHR ''0'') 3 (Num2Str 10 (ns div 1000000)), True)
      | FA_USEC \<Rightarrow> (''.'' @ pad (CHR ''0'') 6 (Num2Str 10 (ns div 1000)), True)
      | FA_NSEC \<Rightarrow> (''.'' @ pad (CHR ''0'') 9 (Num2Str 10 ns), True)
      | FA_INVALID \<Rightarrow> (''.'' @ ''Invalid time accuracy format'' @ [NEWLINE], False))"

definition PrefixSource :: "LogContent \<Rightarrow> string" where
  "PrefixSource content =
     (if unat (c_type content) \<noteq> LOG_KMSG
      then '' '' @ pad (CHR '' '') 5 (Uint2DecStr (c_pid content)) @
           '' '' @ pad (CHR '' '') 5 (Uint2DecStr (c_tid content)) @
           '' '' @ LogLevel2ShortStr (unat (c_level content)) @ '' '' @
           GetLogTypePrefix (unat (c_type content)) @
           pad (CHR ''0'') 5 (Uint2HexStr (ShortDomain (c_domain content))) @
           ''/'' @ c_tag content @ '': ''
      else '' '' @ c_tag content @ '' '')"

definition PrintLogPrefix :: "(u32 \<Rightarrow> tm option) \<Rightarrow> LogContent \<Rightarrow> LogFormat \<Rightarrow> string" where
  "PrintLogPrefix localtime content format =
     (let (s1, go1) = PrefixTime localtime content format in
      if \<not> go1 then s1
      else let (s2, go2) = PrefixAccu content format in
           if \<not> go2 then s1 @ s2 else s1 @ s2 @ PrefixSource content)"

definition AdaptWrap :: "(u32 \<Rightarrow> tm option) \<Rightarrow> (string \<Rightarrow> nat) \<Rightarrow> LogContent \<Rightarrow> LogFormat \<Rightarrow> string" where
  "AdaptWrap localtime wlength content format =
     (if wrap format then pad (CHR '' '') (42 + wlength (c_tag content)) '' ''
      else PrintLogPrefix localtime content format)"

section \<open>Splitting the text into lines\<close>

definition starts_line :: "string \<Rightarrow> bool" where
  "starts_line s \<longleftrightarrow> (case s of [] \<Rightarrow> False | c # _ \<Rightarrow> c \<noteq> NEWLINE)"

text \<open>
  The loop over the text. \<open>cur\<close> is the text between \<open>pHead\<close> and \<open>pScan\<close>, \<open>adapt\<close> what
  \<open>AdaptWrap\<close> writes. The result is the output of the loop and the text at \<open>pHead\<close> after it. A
  line that does not fit into the local array leaves the loop; a line of exactly its size loses
  its last character to the terminator.
\<close>

fun print_loop :: "string \<Rightarrow> string \<Rightarrow> string \<Rightarrow> string \<times> string" where
  "print_loop adapt cur [] = ([], cur)"
| "print_loop adapt cur (c # cs) =
     (if c = NEWLINE
      then if length cur > MAX_LOG_LEN then ([], cur @ c # cs)
           else let tmp = take (MAX_LOG_LEN - 1) cur;
                    (out, rest) = print_loop adapt [] cs
                in ((if tmp \<noteq> [] then tmp @ [NEWLINE] else []) @ (if starts_line cs then adapt else []) @ out, rest)
      else print_loop adapt (cur @ [c]) cs)"

definition LogPrintWithFormat ::
  "(u32 \<Rightarrow> tm option) \<Rightarrow> (string \<Rightarrow> nat) \<Rightarrow> LogContent \<Rightarrow> LogFormat \<Rightarrow> string" where
  "LogPrintWithFormat localtime wlength content format =
     (let color_on = (if colorful format then ESC # ''[38;5;'' @ Num2Str 10 (GetColor (unat (c_level content))) @ ''m'' else []);
          prefix = (if starts_line (c_log content) then PrintLogPrefix localtime content format else []);
          (lines, pHead) = print_loop (AdaptWrap localtime wlength content format) [] (c_log content)
      in color_on @ prefix @ lines @ pHead @
         (if colorful format then ESC # ''[0m'' else []) @ (if pHead \<noteq> [] then [NEWLINE] else []))"

section \<open>The printed lines\<close>

text \<open>The lines of a text, without the newlines, and the non-empty ones among them.\<close>

fun split_lines :: "string \<Rightarrow> string \<Rightarrow> string list" where
  "split_lines cur [] = [cur]"
| "split_lines cur (c # cs) = (if c = NEWLINE then cur # split_lines [] cs else split_lines (cur @ [c]) cs)"

definition text_lines :: "string \<Rightarrow> string list" where
  "text_lines s = filter (\<lambda>l. l \<noteq> []) (split_lines [] s)"

definition with_prefix :: "string \<Rightarrow> string list \<Rightarrow> string" where
  "with_prefix p ls = concat (map (\<lambda>l. p @ l @ [NEWLINE]) ls)"

lemma split_lines_ne: "split_lines cur s \<noteq> []"
  by (induction cur s rule: split_lines.induct) auto

text \<open>
  Between two lines the loop has already written the prefix of the line that begins at \<open>pHead\<close>
  exactly when that line is not empty.
\<close>

lemma print_loop_lines:
  assumes "\<forall>l \<in> set (split_lines cur s). length l < MAX_LOG_LEN"
  shows "(if cur \<noteq> [] \<or> starts_line s then adapt else []) @ fst (print_loop adapt cur s) @ snd (print_loop adapt cur s) @
           (if snd (print_loop adapt cur s) \<noteq> [] then [NEWLINE] else []) =
         with_prefix adapt (filter (\<lambda>l. l \<noteq> []) (split_lines cur s))"
  using assms
proof (induction adapt cur s rule: print_loop.induct)
  case (1 adapt cur)
  then show ?case by (auto simp: with_prefix_def starts_line_def)
next
  case (2 adapt cur c cs)
  show ?case
  proof (cases "c = NEWLINE")
    case True
    from "2.prems" True have "length cur < MAX_LOG_LEN" by simp
    with 2 True have IH: "(if starts_line cs then adapt else []) @ fst (print_loop adapt [] cs) @ snd (print_loop adapt [] cs) @
           (if snd (print_loop adapt [] cs) \<noteq> [] then [NEWLINE] else []) =
         with_prefix adapt (filter (\<lambda>l. l \<noteq> []) (split_lines [] cs))" by simp
    have "print_loop adapt cur (c # cs) =
      ((if cur \<noteq> [] then cur @ [NEWLINE] else []) @ (if starts_line cs then adapt else []) @ fst (print_loop adapt [] cs),
       snd (print_loop adapt [] cs))"
      using True \<open>length cur < MAX_LOG_LEN\<close> by (simp add: split_beta)
    with IH True show ?thesis by (simp add: with_prefix_def starts_line_def)
  next
    case False
    with 2 have "with_prefix adapt (filter (\<lambda>l. l \<noteq> []) (split_lines (cur @ [c]) cs)) =
       adapt @ fst (print_loop adapt (cur @ [c]) cs) @ snd (print_loop adapt (cur @ [c]) cs) @
           (if snd (print_loop adapt (cur @ [c]) cs) \<noteq> [] then [NEWLINE] else [])"
      by simp
    with False show ?thesis by (simp add: starts_line_def)
  qed
qed

lemma LogPrint_lines:
  assumes "\<not> colorful format" "\<not> wrap format"
    and "\<forall>l \<in> set (split_lines [] (c_log content)). length l < MAX_LOG_LEN"
  shows "LogPrintWithFormat localtime wlength content format =
         with_prefix (PrintLogPrefix localtime content format) (text_lines (c_log content))"
  using assms(1,2) print_loop_lines [OF assms(3), of "PrintLogPrefix localtime content format"]
  by (simp add: LogPrintWithFormat_def AdaptWrap_def text_lines_def split_beta)

text \<open>
  C30: Without colours and wrapping, the printed log is one line for every non-empty line of the
  text, each with the full prefix and terminated by a newline: no character of the text is lost
  or duplicated and no line is printed without its origin, provided every line is shorter than
  \<open>MAX_LOG_LEN\<close>.
\<close>

theorem LogPrintWithFormat_lines:
  assumes "\<not> colorful format" "\<not> wrap format"
    and "\<forall>l \<in> set (split_lines [] (c_log content)). length l < MAX_LOG_LEN"
  shows "LogPrintWithFormat localtime wlength content format =
         with_prefix (PrintLogPrefix localtime content format) (text_lines (c_log content))"
  using assms by (rule LogPrint_lines)

definition demo_content :: LogContent where
  "demo_content = \<lparr>c_level = 4, c_type = 3, c_pid = 812, c_tid = 815, c_domain = 0xD00002D, c_tv_sec = 1501929000,
     c_tv_nsec = 7000000, c_mono_sec = 100, c_tag = ''boot'', c_log = ''up'' @ [NEWLINE, NEWLINE] @ ''ok''\<rparr>"

definition demo_format :: LogFormat where
  "demo_format = \<lparr>colorful = False, timeFormat = FT_TIME, timeAccuFormat = FA_MSEC, year = False, zone = False, wrap = False\<rparr>"

definition demo_time :: "u32 \<Rightarrow> tm option" where
  "demo_time t = Some \<lparr>tm_zone = ''UTC'', tm_year = 117, tm_mon = 7, tm_mday = 5, tm_hour = 10, tm_min = 30, tm_sec = 0\<rparr>"

theorem LogPrintWithFormat_lines_witness:
  "LogPrintWithFormat demo_time length demo_content demo_format =
     ''08-05 10:30:00.007   812   815 I C0002d/boot: up'' @ [NEWLINE] @
     ''08-05 10:30:00.007   812   815 I C0002d/boot: ok'' @ [NEWLINE]"
proof -
  have "\<not> colorful demo_format" "\<not> wrap demo_format"
    "\<forall>l \<in> set (split_lines [] (c_log demo_content)). length l < MAX_LOG_LEN"
    by (simp_all add: demo_format_def demo_content_def)
  note LogPrintWithFormat_lines [OF this, of demo_time length]
  moreover have "with_prefix (PrintLogPrefix demo_time demo_content demo_format) (text_lines (c_log demo_content)) =
     ''08-05 10:30:00.007   812   815 I C0002d/boot: up'' @ [NEWLINE] @
     ''08-05 10:30:00.007   812   815 I C0002d/boot: ok'' @ [NEWLINE]"
  proof -
    have "PrefixAccu demo_content demo_format = (''.007'', True)"
    proof -
      have "replicate 2 x = [x, x]" for x :: char by (simp add: numeral_2_eq_2)
      then show ?thesis
        by (simp add: PrefixAccu_def demo_content_def demo_format_def Num2Str.simps [of 10] digit_char_def pad_def)
    qed
    moreover have "PrefixTime demo_time demo_content demo_format = (''08-05 10:30:00'', True)" by code_simp
    moreover have "PrefixSource demo_content = ''   812   815 I C0002d/boot: ''" by code_simp
    moreover have "text_lines (c_log demo_content) = [''up'', ''ok'']" by code_simp
    ultimately show ?thesis by (simp add: PrintLogPrefix_def with_prefix_def)
  qed
  ultimately show ?thesis by simp
qed

text \<open>
  In wrap mode a log whose text begins with a newline is printed without any prefix: no
  time, process, level, domain or tag appears in the output, only the indentation.
\<close>

theorem wrap_loses_prefix:
  assumes "wrap format" "\<not> colorful format" "starts_line s" "NEWLINE \<notin> set s"
    and "c_log content = NEWLINE # s"
  shows "LogPrintWithFormat localtime wlength content format =
         pad (CHR '' '') (42 + wlength (c_tag content)) '' '' @ s @ [NEWLINE]"
proof -
  have run: "print_loop a cur t = ([], cur @ t)" if "NEWLINE \<notin> set t" for a cur t
    using that by (induction t arbitrary: cur) auto
  have "s \<noteq> []" using assms(3) by (auto simp: starts_line_def)
  then show ?thesis using assms run [of s] by (simp add: LogPrintWithFormat_def AdaptWrap_def starts_line_def)
qed

theorem wrap_loses_prefix_witness:
  "LogPrintWithFormat demo_time length (demo_content\<lparr>c_log := NEWLINE # ''ok''\<rparr>) (demo_format\<lparr>wrap := True\<rparr>) =
     pad (CHR '' '') 46 '' '' @ ''ok'' @ [NEWLINE]"
  using wrap_loses_prefix [of "demo_format\<lparr>wrap := True\<rparr>" "''ok''" "demo_content\<lparr>c_log := NEWLINE # ''ok''\<rparr>" demo_time length]
  by (simp add: starts_line_def demo_format_def demo_content_def)

end
