(* ===== verification/Log_Compress.thy ===== *)
theory Log_Compress
  imports Log_Utils
begin

text \<open>
  The compressors of \<open>log_compress.h\<close> and \<open>log_compress.cpp\<close>. A \<open>LogPersisterBuffer\<close> is the
  list of its bytes before \<open>offset\<close>; the array has \<open>MAX_PERSISTER_BUFFER_SIZE\<close> bytes. The
  libraries zlib and zstd are parameters: what a call does is a function of all calls of the stream
  so far, each with the input it is offered and the flag that finishes the stream. The parameter for
  zstd is absent in a build without \<open>USING_ZSTD_COMPRESS\<close>.
\<close>

section \<open>Buffers and compressors\<close>

type_synonym LogPersisterBuffer = "char list"

type_synonym stream_calls = "(char list \<times> bool) list"

text \<open>
  \<open>deflateInit2\<close> succeeds or not, \<open>deflateBound\<close>, and \<open>deflate\<close>: how much of its input a call takes and
  what it writes into an output array of \<open>CHUNK\<close> bytes, or \<open>None\<close> for \<open>Z_STREAM_ERROR\<close>.
\<close>

record Zlib =
  zl_init :: bool
  zl_bound :: "nat \<Rightarrow> nat"
  zl_deflate :: "stream_calls \<Rightarrow> (nat \<times> char list) option"

text \<open>
  \<open>ZSTD_createCCtx\<close> succeeds or not, \<open>ZSTD_CStreamOutSize\<close>, and what the calls of
  \<open>ZSTD_compressStream2\<close> for the last chunk write until the chunk is taken, or the stream is ended.
  The library is documented to progress with each call, so these are finitely many.
\<close>

record Zstd =
  zs_ctx :: bool
  zs_size :: nat
  zs_outputs :: "stream_calls \<Rightarrow> char list list"

datatype LogCompress = NoneCompressor | ZlibCompressor | ZstdCompressor

definition CHUNK :: nat where
  [simp]: "CHUNK = 16384"

text \<open>The final \<open>memcpy_s\<close> behind the bytes the output buffer already holds.\<close>

definition append_compressed :: "char list \<Rightarrow> LogPersisterBuffer \<Rightarrow> int \<times> LogPersisterBuffer" where
  "append_compressed bs compressedBuffer =
     (let (e, copied) = memcpy_s (MAX_PERSISTER_BUFFER_SIZE - length compressedBuffer) bs (length bs)
      in if e \<noteq> EOK then (- 1, compressedBuffer) else (0, compressedBuffer @ copied))"

definition NoneCompress :: "LogPersisterBuffer \<Rightarrow> LogPersisterBuffer \<Rightarrow> int \<times> LogPersisterBuffer" where
  "NoneCompress inBuffer compressedBuffer = append_compressed inBuffer compressedBuffer"

text \<open>
  The loop that feeds the stream: full chunks without flushing, and the rest, which may be empty,
  with the finishing flag.
\<close>

function chunks :: "char list \<Rightarrow> (char list \<times> bool) list" where
  "chunks bs = (if length bs < CHUNK then [(bs, True)] else (take CHUNK bs, False) # chunks (drop CHUNK bs))"
  by pat_completeness auto

termination
  by (relation "measure length") auto

declare chunks.simps [simp del]

text \<open>
  The inner loop: \<open>deflate\<close> is called until it leaves room in \<open>buffOut\<close>; each time the output is copied
  to \<open>zdata\<close>, an array of \<open>zdlen\<close> bytes. The calls and the bytes so far are passed along; \<open>None\<close> is the
  return of \<open>-1\<close>.
\<close>

function deflate_loop :: "Zlib \<Rightarrow> nat \<Rightarrow> bool \<Rightarrow> char list \<Rightarrow> stream_calls \<Rightarrow> char list \<Rightarrow> (stream_calls \<times> char list) option" where
  "deflate_loop z zdlen flush next_in calls zdata =
     (let calls' = calls @ [(next_in, flush)]
      in case zl_deflate z calls' of
           None \<Rightarrow> None
         | Some (taken, out) \<Rightarrow>
             let buffOut = take CHUNK out; (e, copied) = memcpy_s (zdlen - length zdata) buffOut (length buffOut); zdata' = zdata @ copied
             in if e \<noteq> EOK then None
                else if zdlen < length zdata' then None
                else if length buffOut = CHUNK then deflate_loop z zdlen flush (drop taken next_in) calls' zdata'
                else Some (calls', zdata'))"
  by pat_completeness auto

termination
  by (relation "measure (\<lambda>(z, zdlen, flush, next_in, calls, zdata). zdlen - length zdata)") (auto simp: memcpy_s_def split: if_splits)

declare deflate_loop.simps [simp del]

fun deflate_chunks :: "Zlib \<Rightarrow> nat \<Rightarrow> (char list \<times> bool) list \<Rightarrow> stream_calls \<Rightarrow> char list \<Rightarrow> char list option" where
  "deflate_chunks z zdlen [] calls zdata = Some zdata"
| "deflate_chunks z zdlen ((buffIn, flush) # cs) calls zdata =
     (case deflate_loop z zdlen flush buffIn calls zdata of
        None \<Rightarrow> None
      | Some (calls', zdata') \<Rightarrow> deflate_chunks z zdlen cs calls' zdata')"

definition zlib_data :: "Zlib \<Rightarrow> LogPersisterBuffer \<Rightarrow> char list option" where
  "zlib_data z inBuffer =
     (if \<not> zl_init z then None else deflate_chunks z (zl_bound z (length inBuffer)) (chunks inBuffer) [] [])"

definition ZlibCompress :: "Zlib \<Rightarrow> LogPersisterBuffer \<Rightarrow> LogPersisterBuffer \<Rightarrow> int \<times> LogPersisterBuffer" where
  "ZlibCompress z inBuffer compressedBuffer =
     (case zlib_data z inBuffer of
        None \<Rightarrow> (- 1, compressedBuffer)
      | Some zdata \<Rightarrow> append_compressed zdata compressedBuffer)"

text \<open>The copies of the inner loop for zstd, and the loop over the chunks.\<close>

fun zstd_copy :: "nat \<Rightarrow> char list list \<Rightarrow> char list \<Rightarrow> char list option" where
  "zstd_copy zdlen [] zdata = Some zdata"
| "zstd_copy zdlen (out # outs) zdata =
     (let (e, copied) = memcpy_s (zdlen - length zdata) out (length out)
      in if e \<noteq> EOK then None else zstd_copy zdlen outs (zdata @ copied))"

fun zstd_chunks :: "Zstd \<Rightarrow> (char list \<times> bool) list \<Rightarrow> stream_calls \<Rightarrow> char list \<Rightarrow> char list option" where
  "zstd_chunks z [] calls zdata = Some zdata"
| "zstd_chunks z (c # cs) calls zdata =
     (case zstd_copy (zs_size z) (zs_outputs z (calls @ [c])) zdata of
        None \<Rightarrow> None
      | Some zdata' \<Rightarrow> zstd_chunks z cs (calls @ [c]) zdata')"

definition zstd_data :: "Zstd \<Rightarrow> LogPersisterBuffer \<Rightarrow> char list option" where
  "zstd_data z inBuffer = (if \<not> zs_ctx z then None else zstd_chunks z (chunks inBuffer) [] [])"

definition ZstdCompress :: "Zstd option \<Rightarrow> LogPersisterBuffer \<Rightarrow> LogPersisterBuffer \<Rightarrow> int \<times> LogPersisterBuffer" where
  "ZstdCompress zstd inBuffer compressedBuffer =
     (case zstd of
        None \<Rightarrow> (0, compressedBuffer)
      | Some z \<Rightarrow>
          (case zstd_data z inBuffer of
             None \<Rightarrow> (- 1, compressedBuffer)
           | Some zdata \<Rightarrow> append_compressed zdata compressedBuffer))"

text \<open>The virtual call \<open>m_compressor->Compress\<close>.\<close>

definition Compress ::
  "Zlib \<Rightarrow> Zstd option \<Rightarrow> LogCompress \<Rightarrow> LogPersisterBuffer \<Rightarrow> LogPersisterBuffer \<Rightarrow> int \<times> LogPersisterBuffer" where
  "Compress deflate zstd c inBuffer compressedBuffer =
     (case c of
        NoneCompressor \<Rightarrow> NoneCompress inBuffer compressedBuffer
      | ZlibCompressor \<Rightarrow> ZlibCompress deflate inBuffer compressedBuffer
      | ZstdCompressor \<Rightarrow> ZstdCompress zstd inBuffer compressedBuffer)"

section \<open>The contract of a compressor\<close>

text \<open>
  A compressor appends an encoding of its input to the output buffer, or reports a failure and
  leaves the buffer as it is; it succeeds exactly when the encoding exists and fits.
\<close>

locale compressor =
  fixes compress :: "LogPersisterBuffer \<Rightarrow> LogPersisterBuffer \<Rightarrow> int \<times> LogPersisterBuffer"
    and encode :: "LogPersisterBuffer \<Rightarrow> char list option"
  assumes appends: "encode i = Some z \<Longrightarrow> length out + length z \<le> MAX_PERSISTER_BUFFER_SIZE \<Longrightarrow>
      length out < MAX_PERSISTER_BUFFER_SIZE \<Longrightarrow> compress i out = (0, out @ z)"
    and fails: "encode i = None \<or> MAX_PERSISTER_BUFFER_SIZE < length out + length (the (encode i)) \<or>
      MAX_PERSISTER_BUFFER_SIZE \<le> length out \<Longrightarrow> compress i out = (- 1, out)"
begin

lemma compress_cases:
  obtains (ok) z where "encode i = Some z" "length out + length z \<le> MAX_PERSISTER_BUFFER_SIZE" "compress i out = (0, out @ z)"
  | (failed) "compress i out = (- 1, out)"
proof (cases "encode i = None \<or> MAX_PERSISTER_BUFFER_SIZE < length out + length (the (encode i)) \<or>
      MAX_PERSISTER_BUFFER_SIZE \<le> length out")
  case True
  then show ?thesis using fails failed by blast
next
  case False
  then obtain z where "encode i = Some z" by auto
  then show ?thesis using False appends ok by auto
qed

lemma compress_bounded:
  "length out \<le> MAX_PERSISTER_BUFFER_SIZE \<Longrightarrow> length (snd (compress i out)) \<le> MAX_PERSISTER_BUFFER_SIZE"
  by (cases i out rule: compress_cases) auto

text \<open>Compressing the same input again and again fills the output buffer with copies of its encoding.\<close>

lemma repeated_fills:
  assumes "encode i = Some z" "z \<noteq> []" "n * length z \<le> MAX_PERSISTER_BUFFER_SIZE"
  shows "((\<lambda>out. snd (compress i out)) ^^ n) [] = concat (replicate n z)"
  using assms(3)
proof (induction n)
  case (Suc n)
  have len: "length (concat (replicate n z)) = n * length z" by (induction n) auto
  have "0 < length z" using assms(2) by simp
  moreover have "n * length z + length z \<le> MAX_PERSISTER_BUFFER_SIZE" using Suc.prems by simp
  ultimately have "n * length z < MAX_PERSISTER_BUFFER_SIZE" "n * length z + length z \<le> MAX_PERSISTER_BUFFER_SIZE"
    by linarith+
  moreover have "((\<lambda>out. snd (compress i out)) ^^ n) [] = concat (replicate n z)"
    using Suc by simp
  ultimately have "((\<lambda>out. snd (compress i out)) ^^ Suc n) [] = concat (replicate n z) @ z"
    using appends [OF assms(1), of "concat (replicate n z)"] len by simp
  also have "\<dots> = concat (replicate (Suc n) z)"
    by (simp only: replicate_Suc concat.simps concat_append [symmetric] replicate_append_same [symmetric] append_Nil2)
       (simp flip: replicate_append_same)
  finally show ?case .
qed simp

end

lemma append_compressed_ok:
  "length out + length z \<le> MAX_PERSISTER_BUFFER_SIZE \<Longrightarrow> length out < MAX_PERSISTER_BUFFER_SIZE \<Longrightarrow>
   append_compressed z out = (0, out @ z)"
  by (simp add: append_compressed_def memcpy_s_def)

lemma append_compressed_fail:
  "MAX_PERSISTER_BUFFER_SIZE < length out + length z \<or> MAX_PERSISTER_BUFFER_SIZE \<le> length out \<Longrightarrow>
   append_compressed z out = (- 1, out)"
  by (auto simp: append_compressed_def memcpy_s_def)

interpretation none_compress: compressor NoneCompress Some
  by unfold_locales (simp_all add: NoneCompress_def append_compressed_ok append_compressed_fail)

interpretation zlib_compress: compressor "ZlibCompress z" "zlib_data z" for z
  by unfold_locales
    (auto simp: ZlibCompress_def append_compressed_ok append_compressed_fail simp del: MAX_PERSISTER_BUFFER_SIZE_def split: option.split)

interpretation zstd_compress: compressor "ZstdCompress (Some z)" "zstd_data z" for z
  by unfold_locales
    (auto simp: ZstdCompress_def append_compressed_ok append_compressed_fail simp del: MAX_PERSISTER_BUFFER_SIZE_def split: option.split)

section \<open>What the stream receives\<close>

text \<open>
  C29: The chunking loop of the compressors hands the whole buffer to the stream, in order and
  without gaps, in chunks that fit the local array, and finishes the stream with the last chunk
  and only there.
\<close>

theorem chunks_correct:
  "concat (map fst (chunks bs)) = bs \<and> list_all (\<lambda>(c, fin). length c \<le> CHUNK) (chunks bs) \<and>
   map snd (chunks bs) = replicate (length bs div CHUNK) False @ [True]"
proof (induction bs rule: chunks.induct)
  case (1 bs)
  show ?case
  proof (cases "length bs < CHUNK")
    case True
    then show ?thesis by (subst (1 2 3) chunks.simps) simp
  next
    case False
    have "length bs div CHUNK = Suc (length (drop CHUNK bs) div CHUNK)"
      using False by (simp add: div_nat_eqI le_div_geq)
    with 1 [OF False] False show ?thesis
      by (subst (1 2 3) chunks.simps) simp
  qed
qed

text \<open>A library whose calls take all their input and leave room in the output needs one call for each chunk.\<close>

lemma deflate_loop_once:
  assumes "zl_deflate z (calls @ [(c, fin)]) = Some (n, out)" "length out < CHUNK" "length zdata + length out \<le> zdlen" "length zdata < zdlen"
  shows "deflate_loop z zdlen fin c calls zdata = Some (calls @ [(c, fin)], zdata @ out)"
  using assms by (subst deflate_loop.simps) (simp add: memcpy_s_def)

end
