(* ===== verification/Log_Persister_Rotator.thy ===== *)
theory Log_Persister_Rotator
  imports Log_Utils Log_Filter Log_Print
begin

text \<open>
  The rotation of the persisted files, \<open>log_persister_rotator.h\<close> and
  \<open>log_persister_rotator.cpp\<close>. The file system is the list of the files with their contents, in
  the order in which \<open>readdir\<close> delivers them; it is passed explicitly. What the operating system
  decides comes from a record: the text of \<open>strftime\<close>, which paths exist beside the files of the
  model, which files can be opened and whether the log directory can be listed. A write to an open
  stream is assumed to succeed. \<open>layout\<close> is the object representation of a
  \<open>PersistRecoveryInfo\<close>.
\<close>

section \<open>Files\<close>

type_synonym FileSystem = "(string \<times> char list) list"

definition fs_exists :: "string \<Rightarrow> FileSystem \<Rightarrow> bool" where
  "fs_exists p fs \<longleftrightarrow> p \<in> fst ` set fs"

definition fs_content :: "string \<Rightarrow> FileSystem \<Rightarrow> char list" where
  "fs_content p fs = (case map_of fs p of None \<Rightarrow> [] | Some bs \<Rightarrow> bs)"

definition fs_put :: "string \<Rightarrow> char list \<Rightarrow> FileSystem \<Rightarrow> FileSystem" where
  "fs_put p bs fs =
     (if fs_exists p fs then map (\<lambda>(q, c). (q, if q = p then bs else c)) fs else fs @ [(p, bs)])"

definition fs_append :: "string \<Rightarrow> char list \<Rightarrow> FileSystem \<Rightarrow> FileSystem" where
  "fs_append p bs fs = fs_put p (fs_content p fs @ bs) fs"

definition fs_remove :: "string \<Rightarrow> FileSystem \<Rightarrow> FileSystem" where
  "fs_remove p fs = filter (\<lambda>(q, c). q \<noteq> p) fs"

definition HILOG_FILE_DIR :: string where
  "HILOG_FILE_DIR = ''/data/log/hilog/''"

text \<open>The names \<open>readdir\<close> delivers for the log directory.\<close>

definition dir_entries :: "FileSystem \<Rightarrow> string list" where
  "dir_entries fs = map (\<lambda>(p, c). drop (length HILOG_FILE_DIR) p)
     (filter (\<lambda>(p, c). take (length HILOG_FILE_DIR) p = HILOG_FILE_DIR \<and>
        CHR ''/'' \<notin> set (drop (length HILOG_FILE_DIR) p)) fs)"

section \<open>The rotator\<close>

record LogPersistStartMsg =
  sm_compressAlg :: u16
  sm_filePath :: "char list"
  sm_fileSize :: u32
  sm_fileNum :: u32
  sm_jobId :: u32
  sm_filter :: LogFilter

record PersistRecoveryInfo =
  ri_index :: u32
  ri_msg :: LogPersistStartMsg

text \<open>Objects initialised with \<open>{0}\<close>.\<close>

definition LogFilter_zero :: LogFilter where
  "LogFilter_zero = \<lparr>types = 0, levels = 0, blackDomain = False, domainCount = 0, domains = replicate MAX_DOMAINS 0,
     blackTag = False, tagCount = 0, tags = replicate MAX_TAGS (replicate MAX_TAG_LEN NUL), blackPid = False,
     pidCount = 0, pids = replicate MAX_PIDS 0, regex = replicate MAX_REGEX_STR_LEN NUL\<rparr>"

definition FILE_PATH_MAX_LEN :: nat where
  [simp]: "FILE_PATH_MAX_LEN = 100"

definition StartMsg_zero :: LogPersistStartMsg where
  "StartMsg_zero = \<lparr>sm_compressAlg = 0, sm_filePath = replicate FILE_PATH_MAX_LEN NUL, sm_fileSize = 0, sm_fileNum = 0,
     sm_jobId = 0, sm_filter = LogFilter_zero\<rparr>"

record LogPersisterRotator =
  m_maxLogFileNum :: u32
  m_logsPath :: string
  m_fileNameSuffix :: string
  m_currentLogFileName :: string
  m_currentLogFileIdx :: u32
  m_currentLogOutput_open :: bool
  m_id :: u32
  m_infoFile_open :: bool
  m_infoFilePath :: string
  m_info :: PersistRecoveryInfo
  m_needRotate :: bool

record FileEnv =
  env_time :: string
  env_access :: "string \<Rightarrow> bool"
  env_open :: "string \<Rightarrow> bool"
  env_opendir :: bool
  env_layout :: "PersistRecoveryInfo \<Rightarrow> char list"
  env_char_signed :: bool

definition AUXILLARY_PERSISTER_PREFIX :: string where
  "AUXILLARY_PERSISTER_PREFIX = ''persisterInfo_''"

text \<open>
  \<open>"%03d"\<close> of the remainder, which has the sign of the index, into an array of four bytes; a text
  of four characters does not fit and gives the empty string.
\<close>

definition GetFileNameIndex :: "int \<Rightarrow> string" where
  "GetFileNameIndex i =
     (let n = nat \<bar>i\<bar> mod MAX_LOG_FILE_NUM;
          res = (if i < 0 \<and> n \<noteq> 0 then ''-'' @ pad (CHR ''0'') 2 (Num2Str 10 n) else pad (CHR ''0'') 3 (Num2Str 10 n))
      in if length res > 3 then [] else res)"

text \<open>\<open>substr\<close> of a path shorter than the directory throws; the paths of the jobs begin with it.\<close>

definition IsOldFile :: "LogPersisterRotator \<Rightarrow> string \<Rightarrow> u32 \<Rightarrow> bool" where
  "IsOldFile r logName idx =
     (let fileNameHead = drop (length HILOG_FILE_DIR) (m_logsPath r) @ ''.'' @
            GetFileNameIndex (sint (idx + 1 - m_maxLogFileNum r))
      in strstr logName fileNameHead \<noteq> None)"

definition LogPersisterRotator_new :: "string \<Rightarrow> u32 \<Rightarrow> u32 \<Rightarrow> string \<Rightarrow> LogPersisterRotator" where
  "LogPersisterRotator_new logsPath jid maxFiles fileNameSuffix =
     \<lparr>m_maxLogFileNum = maxFiles, m_logsPath = logsPath, m_fileNameSuffix = fileNameSuffix,
      m_currentLogFileName = [], m_currentLogFileIdx = 0, m_currentLogOutput_open = False, m_id = jid,
      m_infoFile_open = False, m_infoFilePath = [], m_info = \<lparr>ri_index = 0, ri_msg = StartMsg_zero\<rparr>, m_needRotate = False\<rparr>"

definition LogPersisterRotator_delete :: "LogPersisterRotator \<Rightarrow> FileSystem \<Rightarrow> FileSystem" where
  "LogPersisterRotator_delete r fs = fs_remove (m_infoFilePath r) fs"

text \<open>The checksum behind the info, low byte first.\<close>

definition hash_bytes :: "u64 \<Rightarrow> char list" where
  "hash_bytes h = map (\<lambda>i. char_of (unat (drop_bit (8 * i) h))) [0..<8]"

definition WriteRecoveryInfo :: "FileEnv \<Rightarrow> LogPersisterRotator \<Rightarrow> FileSystem \<Rightarrow> FileSystem" where
  "WriteRecoveryInfo env r fs =
     (if \<not> m_infoFile_open r then fs
      else let bs = env_layout env (m_info r); hash = GenerateHash (env_char_signed env) bs
           in fs_put (m_infoFilePath r) (bs @ hash_bytes hash) fs)"

definition UpdateRotateNumber :: "FileEnv \<Rightarrow> LogPersisterRotator \<Rightarrow> FileSystem \<Rightarrow> LogPersisterRotator \<times> FileSystem" where
  "UpdateRotateNumber env r fs =
     (let r' = r\<lparr>m_info := (m_info r)\<lparr>ri_index := m_currentLogFileIdx r\<rparr>\<rparr> in (r', WriteRecoveryInfo env r' fs))"

definition new_log_name :: "FileEnv \<Rightarrow> LogPersisterRotator \<Rightarrow> string" where
  "new_log_name env r = m_logsPath r @ ''.'' @ GetFileNameIndex (sint (m_currentLogFileIdx r)) @ ''.'' @
     env_time env @ m_fileNameSuffix r"

definition CreateLogFile :: "FileEnv \<Rightarrow> LogPersisterRotator \<Rightarrow> FileSystem \<Rightarrow> LogPersisterRotator \<times> FileSystem" where
  "CreateLogFile env r fs =
     (let newFile = new_log_name env r; r' = r\<lparr>m_currentLogFileName := newFile\<rparr>
      in if env_open env newFile then (r'\<lparr>m_currentLogOutput_open := True\<rparr>, fs_put newFile [] fs)
         else (r'\<lparr>m_currentLogOutput_open := False\<rparr>, fs))"

definition RemoveOldFile :: "FileEnv \<Rightarrow> LogPersisterRotator \<Rightarrow> FileSystem \<Rightarrow> FileSystem" where
  "RemoveOldFile env r fs =
     (if \<not> env_opendir env then fs
      else case find (\<lambda>name. IsOldFile r name (m_currentLogFileIdx r)) (dir_entries fs) of
             None \<Rightarrow> fs
           | Some pPath \<Rightarrow> fs_remove (HILOG_FILE_DIR @ pPath) fs)"

definition Rotate :: "FileEnv \<Rightarrow> LogPersisterRotator \<Rightarrow> FileSystem \<Rightarrow> LogPersisterRotator \<times> FileSystem" where
  "Rotate env r fs =
     (let fs1 = (if m_currentLogFileIdx r + 1 \<ge> m_maxLogFileNum r then RemoveOldFile env r fs else fs);
          (r2, fs2) = CreateLogFile env (r\<lparr>m_currentLogFileIdx := m_currentLogFileIdx r + 1\<rparr>) fs1
      in UpdateRotateNumber env r2 fs2)"

definition Input :: "FileEnv \<Rightarrow> char list \<Rightarrow> LogPersisterRotator \<Rightarrow> FileSystem \<Rightarrow> int \<times> LogPersisterRotator \<times> FileSystem" where
  "Input env buf r fs =
     (if buf = [] then (ERR_LOG_PERSIST_COMPRESS_BUFFER_EXP, r, fs)
      else let (r1, fs1) =
                 (if m_needRotate r
                  then let (ra, fa) = Rotate env r fs in (ra\<lparr>m_needRotate := False\<rparr>, fa)
                  else if \<not> fs_exists (m_currentLogFileName r) fs \<or> \<not> m_currentLogOutput_open r
                  then CreateLogFile env r fs
                  else (r, fs))
           in (0, r1, if m_currentLogOutput_open r1 then fs_append (m_currentLogFileName r1) buf fs1 else fs1))"

definition FinishInput :: "LogPersisterRotator \<Rightarrow> LogPersisterRotator" where
  "FinishInput r = r\<lparr>m_currentLogOutput_open := False, m_needRotate := True\<rparr>"

definition SetFileIndex :: "u32 \<Rightarrow> bool \<Rightarrow> LogPersisterRotator \<Rightarrow> LogPersisterRotator" where
  "SetFileIndex idx forceRotate r =
     (let r' = r\<lparr>m_currentLogOutput_open := False, m_currentLogFileIdx := idx\<rparr>
      in if forceRotate then r'\<lparr>m_needRotate := True\<rparr> else r')"

text \<open>\<open>m_logsPath.find_last_of('/')\<close> and the part before it; without a separator the whole path.\<close>

definition parent_dir :: "string \<Rightarrow> string" where
  "parent_dir p = (if CHR ''/'' \<in> set p then rev (tl (dropWhile (\<lambda>c. c \<noteq> CHR ''/'') (rev p))) else p)"

definition OpenInfoFile :: "FileEnv \<Rightarrow> LogPersisterRotator \<Rightarrow> FileSystem \<Rightarrow> int \<times> LogPersisterRotator \<times> FileSystem" where
  "OpenInfoFile env r fs =
     (let p = parent_dir (m_logsPath r) @ ''/'' @ ''.'' @ AUXILLARY_PERSISTER_PREFIX @ Uint2DecStr (m_id r) @ ''.info'';
          r' = r\<lparr>m_infoFilePath := p\<rparr>
      in if env_open env p then (RET_SUCCESS, r'\<lparr>m_infoFile_open := True\<rparr>, fs_put p [] fs)
         else (RET_FAIL, r', fs))"

definition Rotator_Init :: "FileEnv \<Rightarrow> PersistRecoveryInfo \<Rightarrow> bool \<Rightarrow> LogPersisterRotator \<Rightarrow> FileSystem \<Rightarrow> int \<times> LogPersisterRotator \<times> FileSystem" where
  "Rotator_Init env info restore r fs =
     (let (result, r1, fs1) = (if \<not> m_infoFile_open r then OpenInfoFile env r fs else (RET_SUCCESS, r, fs))
      in if result \<noteq> RET_SUCCESS then (result, r1, fs1)
         else let (r2, fs2) = UpdateRotateNumber env (SetFileIndex (ri_index info) restore (r1\<lparr>m_info := info\<rparr>)) fs1
              in (RET_SUCCESS, r2, fs2))"

section \<open>Lemmas on files and names\<close>

lemma fs_put_fst: "map fst (fs_put p bs fs) = (if fs_exists p fs then map fst fs else map fst fs @ [p])"
  by (induction fs) (auto simp: fs_put_def fs_exists_def)

lemma fst_fs_put: "fst ` set (fs_put p bs fs) = insert p (fst ` set fs)"
  using arg_cong [OF fs_put_fst [of p bs fs], of set] by (auto simp: fs_exists_def)

lemma fs_exists_put [simp]: "fs_exists q (fs_put p bs fs) \<longleftrightarrow> q = p \<or> fs_exists q fs"
  by (simp add: fs_exists_def fst_fs_put)

lemma fs_content_put [simp]: "fs_content q (fs_put p bs fs) = (if q = p then bs else fs_content q fs)"
proof -
  have *: "map_of (map (\<lambda>(q, c). (q, if q = p then bs else c)) fs) x = map_option (\<lambda>c. if x = p then bs else c) (map_of fs x)" for x
    by (induction fs) auto
  show ?thesis
  proof (cases "map_of fs p")
    case None
    then have "\<not> fs_exists p fs" by (simp add: fs_exists_def map_of_eq_None_iff)
    with None show ?thesis by (simp add: fs_put_def fs_content_def map_add_def split: option.split)
  next
    case (Some c)
    then have "fs_exists p fs" by (force simp: fs_exists_def dest: map_of_SomeD)
    with Some show ?thesis by (auto simp: fs_put_def fs_content_def * split: option.split)
  qed
qed

lemma filter_fs_put:
  "map fst (List.filter (\<lambda>(p, c). P p) (fs_put q bs fs)) =
   map fst (List.filter (\<lambda>(p, c). P p) fs) @ (if P q \<and> \<not> fs_exists q fs then [q] else [])"
proof (cases "fs_exists q fs")
  case True
  have "map fst (List.filter (\<lambda>(p, c). P p) (map (\<lambda>(r, c). (r, if r = q then bs else c)) fs)) =
      map fst (List.filter (\<lambda>(p, c). P p) fs)"
    by (induction fs) auto
  with True show ?thesis by (simp add: fs_put_def)
qed (simp add: fs_put_def)

lemma filter_fs_remove:
  "map fst (List.filter (\<lambda>(p, c). P p) (fs_remove q fs)) =
   List.filter (\<lambda>p. p \<noteq> q) (map fst (List.filter (\<lambda>(p, c). P p) fs))"
  by (induction fs) (auto simp: fs_remove_def)

lemma distinct_fs_put: "distinct (map fst fs) \<Longrightarrow> distinct (map fst (fs_put p bs fs))"
  by (auto simp: fs_put_fst fs_exists_def)

lemma distinct_fs_remove: "distinct (map fst fs) \<Longrightarrow> distinct (map fst (fs_remove p fs))"
  by (induction fs) (auto simp: fs_remove_def)

lemma fst_fs_remove: "fst ` set (fs_remove p fs) = fst ` set fs - {p}"
  by (auto simp: fs_remove_def)

lemma strstr_notin: "c \<notin> set s \<Longrightarrow> strstr s (c # p) = None"
  by (induction s) auto

lemma strstr_head: "c \<notin> set s \<Longrightarrow> strstr (c # s) (c # p) \<noteq> None \<longleftrightarrow> take (length p) s = p"
  by (simp add: strstr_notin)

lemma digits_value_pad: "digits_value 10 (pad (CHR ''0'') w s) = digits_value 10 s"
proof -
  have "the (digit_val (CHR ''0'')) = 0" by code_simp
  then have "digits_value 10 (replicate k (CHR ''0'')) = 0" for k
    by (induction k) (simp_all add: digits_value_snoc flip: replicate_append_same, simp add: digits_value_def)
  moreover have "digits_value 10 (xs @ ys) = foldl (\<lambda>acc c. 10 * acc + the (digit_val c)) (digits_value 10 xs) ys" for xs ys
    by (simp add: digits_value_def)
  ultimately show ?thesis by (simp add: pad_def) (simp add: digits_value_def)
qed

lemma length_Num2Str_lt: "n < 1000 \<Longrightarrow> length (Num2Str 10 n) \<le> 3"
  by (subst Num2Str.simps, simp, subst Num2Str.simps, simp, subst Num2Str.simps, simp)

lemma GetFileNameIndex_nat:
  "GetFileNameIndex (int i) = pad (CHR ''0'') 3 (Num2Str 10 (i mod 1000))"
  "length (GetFileNameIndex (int i)) = 3"
proof -
  have "length (Num2Str 10 (i mod 1000)) \<le> 3" by (rule length_Num2Str_lt) simp
  then show "GetFileNameIndex (int i) = pad (CHR ''0'') 3 (Num2Str 10 (i mod 1000))"
      "length (GetFileNameIndex (int i)) = 3"
    by (simp_all add: GetFileNameIndex_def pad_def Let_def)
qed

lemma GetFileNameIndex_inj:
  "GetFileNameIndex (int i) = GetFileNameIndex (int j) \<longleftrightarrow> i mod 1000 = j mod 1000"
proof
  assume "GetFileNameIndex (int i) = GetFileNameIndex (int j)"
  from arg_cong [OF this, of "digits_value 10"] show "i mod 1000 = j mod 1000"
    by (simp add: GetFileNameIndex_nat digits_value_pad digits_value_Num2Str)
qed (simp add: GetFileNameIndex_nat)

lemma GetFileNameIndex_digits: "c \<in> set (GetFileNameIndex (int i)) \<Longrightarrow> is_digit 10 c"
proof -
  have "is_digit 10 (CHR ''0'')" by code_simp
  then show "c \<in> set (GetFileNameIndex (int i)) \<Longrightarrow> is_digit 10 c"
    using Num2Str_digits [of 10 c "i mod 1000"] is_digit_digit_char [of _ 10] by (auto simp: GetFileNameIndex_nat pad_def)
qed

end
