(* ===== verification/Rotator_Window.thy ===== *)
theory Rotator_Window
  imports Log_Persister_Rotator
begin

text \<open>
  The invariant of the rotation: the files of a persist job are those of a window of indices below
  the current one, and no more than the configured number. The lemmas follow the operations
  \<open>RemoveOldFile\<close>, \<open>CreateLogFile\<close>, \<open>Rotate\<close> and \<open>Input\<close>.
\<close>

section \<open>The window of kept files\<close>

text \<open>
  The files of a job are those whose name begins with the path of the job and a dot. The argument
  needs that the first character of the file name occurs nowhere else in it, as in \<open>hilog\<close> and
  \<open>hilog_kmsg\<close>: the code looks for the name anywhere in a directory entry.
\<close>

definition job_name :: "LogPersisterRotator \<Rightarrow> nat \<Rightarrow> string \<Rightarrow> string" where
  "job_name r i t = m_logsPath r @ ''.'' @ GetFileNameIndex (int i) @ ''.'' @ t @ m_fileNameSuffix r"

definition job_file :: "LogPersisterRotator \<Rightarrow> string \<Rightarrow> bool" where
  "job_file r p \<longleftrightarrow> take (Suc (length (m_logsPath r))) p = m_logsPath r @ ''.''"

definition job_names :: "LogPersisterRotator \<Rightarrow> FileSystem \<Rightarrow> string list" where
  "job_names r fs = map fst (List.filter (\<lambda>(p, c). job_file r p) fs)"

definition foreign_file :: "LogPersisterRotator \<Rightarrow> string \<Rightarrow> bool" where
  "foreign_file r p \<longleftrightarrow> \<not> job_file r p \<and>
     strstr (drop (length HILOG_FILE_DIR) p) (drop (length HILOG_FILE_DIR) (m_logsPath r) @ ''.'') = None"

definition plain_text :: "char \<Rightarrow> string \<Rightarrow> bool" where
  "plain_text c t \<longleftrightarrow> c \<notin> set t \<and> CHR ''/'' \<notin> set t"

definition rotator_conf :: "LogPersisterRotator \<Rightarrow> char \<Rightarrow> string \<Rightarrow> bool" where
  "rotator_conf r c hs \<longleftrightarrow> m_logsPath r = HILOG_FILE_DIR @ c # hs \<and> plain_text c hs \<and> c \<noteq> CHR ''/'' \<and> c \<noteq> CHR ''.'' \<and>
     \<not> is_digit 10 c \<and> plain_text c (m_fileNameSuffix r) \<and>
     1 \<le> unat (m_maxLogFileNum r) \<and> unat (m_maxLogFileNum r) \<le> MAX_LOG_FILE_NUM \<and> foreign_file r (m_infoFilePath r)"

text \<open>The indices and times of the files of a job: increasing indices inside the window.\<close>

definition window :: "LogPersisterRotator \<Rightarrow> FileSystem \<Rightarrow> char \<Rightarrow> nat list \<Rightarrow> (nat \<Rightarrow> string) \<Rightarrow> bool" where
  "window r fs c is ts \<longleftrightarrow>
     sorted_wrt (<) is \<and>
     (\<forall>i \<in> set is. i \<le> unat (m_currentLogFileIdx r) \<and> unat (m_currentLogFileIdx r) < i + unat (m_maxLogFileNum r) \<and>
        plain_text c (ts i)) \<and>
     job_names r fs = map (\<lambda>i. job_name r i (ts i)) is \<and> distinct (map fst fs) \<and>
     (\<forall>p \<in> fst ` set fs. job_file r p \<or> foreign_file r p)"

text \<open>
  Without a pending rotation the current file is open and present, or its index is not used yet. An
  open file belongs to the job.
\<close>

definition current_ok :: "LogPersisterRotator \<Rightarrow> FileSystem \<Rightarrow> nat list \<Rightarrow> bool" where
  "current_ok r fs is \<longleftrightarrow>
     (m_needRotate r \<or> (m_currentLogOutput_open r \<and> fs_exists (m_currentLogFileName r) fs) \<or>
      unat (m_currentLogFileIdx r) \<notin> set is) \<and>
     (m_currentLogOutput_open r \<longrightarrow> job_file r (m_currentLogFileName r))"

definition rotator_inv :: "LogPersisterRotator \<Rightarrow> FileSystem \<Rightarrow> bool" where
  "rotator_inv r fs \<longleftrightarrow> (\<exists>c hs is ts. rotator_conf r c hs \<and> window r fs c is ts \<and> current_ok r fs is)"

definition env_regular :: "FileEnv \<Rightarrow> LogPersisterRotator \<Rightarrow> bool" where
  "env_regular env r \<longleftrightarrow> env_opendir env \<and> (\<forall>p. env_open env p) \<and>
     plain_text (m_logsPath r ! length HILOG_FILE_DIR) (env_time env)"

lemma job_file_job_name [simp]: "job_file r (job_name r i t)"
  by (simp add: job_file_def job_name_def)

lemma set_job_names: "set (job_names r fs) = {p \<in> fst ` set fs. job_file r p}"
  by (force simp: job_names_def)

lemma index_plain:
  assumes "rotator_conf r c hs"
  shows "plain_text c (GetFileNameIndex (int i))"
proof -
  have "\<not> is_digit 10 (CHR ''/'')" by code_simp
  then show ?thesis
    using assms GetFileNameIndex_digits [of c i] GetFileNameIndex_digits [of "CHR ''/''" i]
    by (auto simp: plain_text_def rotator_conf_def)
qed

lemma job_name_eq:
  assumes "job_name r i t = job_name r j u"
  shows "i mod 1000 = j mod 1000"
proof -
  have "GetFileNameIndex (int i) @ ''.'' @ t @ m_fileNameSuffix r = GetFileNameIndex (int j) @ ''.'' @ u @ m_fileNameSuffix r"
    using assms by (simp add: job_name_def)
  then have "GetFileNameIndex (int i) = GetFileNameIndex (int j)"
    using GetFileNameIndex_nat(2) [of i] GetFileNameIndex_nat(2) [of j] by (metis append_eq_append_conv)
  then show ?thesis by (simp add: GetFileNameIndex_inj)
qed

lemma mod_eq_near:
  assumes "i mod 1000 = j mod 1000" "i < j + 1000" "j < i + 1000"
  shows "i = (j :: nat)"
proof -
  have *: "i = j" if "i \<le> j" "j < i + 1000" "i mod 1000 = j mod 1000" for i j :: nat
  proof -
    have "1000 dvd j - i" using that mod_eq_dvd_iff_nat [of i j 1000] by simp
    then show ?thesis using that dvd_imp_le [of 1000 "j - i"] by (cases "j - i = 0") auto
  qed
  show ?thesis using assms * [of i j] * [of j i] by (cases "i \<le> j") auto
qed

lemma sint_small: 
  assumes "unat (w :: u32) < 2 ^ 31" shows "sint w = int (unat w)"
proof -
  have "int (unat w) < int (2 ^ 31)" using assms by (simp only: of_nat_less_iff)
  then have "uint w < 2 ^ 31" by simp
  then have "signed_take_bit 31 (uint w) = uint w" by (intro signed_take_bit_int_eq_self order_trans [OF _ uint_ge_0]) auto
  then show ?thesis by (simp add: sint_uint)
qed

lemma strstr_append_None: "strstr s p = None \<Longrightarrow> strstr s (p @ q) = None"
proof (induction s)
  case (Cons c s)
  have "take (length p) (c # s) = p" if "take (length (p @ q)) (c # s) = p @ q"
    using arg_cong [OF that, of "take (length p)"] by (simp add: min_def)
  with Cons show ?case by (auto split: if_splits)
qed (simp split: if_splits)

text \<open>A file of the job matches the pattern of index \<open>k\<close> exactly when its index is \<open>k\<close> modulo 1000.\<close>

lemma job_name_match:
  assumes "rotator_conf r c hs" "plain_text c t"
  shows "strstr (drop (length HILOG_FILE_DIR) (job_name r i t))
      (drop (length HILOG_FILE_DIR) (m_logsPath r) @ ''.'' @ GetFileNameIndex (int k)) \<noteq> None \<longleftrightarrow> i mod 1000 = k mod 1000"
proof -
  let ?G = "\<lambda>i. GetFileNameIndex (int i)"
  have path: "m_logsPath r = HILOG_FILE_DIR @ c # hs" using assms(1) by (simp add: rotator_conf_def)
  have "c \<notin> set (hs @ ''.'' @ ?G i @ ''.'' @ t @ m_fileNameSuffix r)"
    using assms index_plain [OF assms(1), of i] by (auto simp: rotator_conf_def plain_text_def)
  from strstr_head [OF this, of "hs @ ''.'' @ ?G k"]
  have "strstr (c # hs @ ''.'' @ ?G i @ ''.'' @ t @ m_fileNameSuffix r) (c # hs @ ''.'' @ ?G k) \<noteq> None \<longleftrightarrow> ?G i = ?G k"
    using GetFileNameIndex_nat(2) [of i] GetFileNameIndex_nat(2) [of k] by simp
  then show ?thesis by (simp add: job_name_def path GetFileNameIndex_inj)
qed

lemma job_entry:
  assumes "rotator_conf r c hs" "plain_text c t"
  shows "take (length HILOG_FILE_DIR) (job_name r i t) = HILOG_FILE_DIR"
    and "CHR ''/'' \<notin> set (drop (length HILOG_FILE_DIR) (job_name r i t))"
  using assms index_plain [OF assms(1), of i] by (auto simp: job_name_def rotator_conf_def plain_text_def)

lemma RemoveOldFile_window:
  assumes conf: "rotator_conf r c hs" and win: "window r fs c is ts" and env: "env_opendir env"
    and big: "unat (m_currentLogFileIdx r) + 1 < 2 ^ 31" "unat (m_maxLogFileNum r) \<le> unat (m_currentLogFileIdx r) + 1"
    and k: "k = unat (m_currentLogFileIdx r) + 1 - unat (m_maxLogFileNum r)"
  shows "RemoveOldFile env r fs = fs_remove (job_name r k (ts k)) fs"
proof -
  let ?D = "length HILOG_FILE_DIR" and ?cur = "m_currentLogFileIdx r" and ?max = "m_maxLogFileNum r"
  have maxb: "1 \<le> unat ?max" "unat ?max \<le> 1000" using conf by (simp_all add: rotator_conf_def)
  have u1: "unat (?cur + 1) = unat ?cur + 1" using big(1) by (simp add: unat_word_ariths)
  have "?max \<le> ?cur + 1" using big(2) u1 by (simp add: word_le_nat_alt)
  then have "unat (?cur + 1 - ?max) = k" using u1 k by (simp add: unat_sub)
  moreover have "k < 2 ^ 31" using big(1) k maxb by simp
  ultimately have s: "sint (?cur + 1 - ?max) = int k"
    using sint_small [of "?cur + 1 - ?max"] by simp
  have old: "IsOldFile r e ?cur \<longleftrightarrow> strstr e (drop ?D (m_logsPath r) @ ''.'' @ GetFileNameIndex (int k)) \<noteq> None" for e
    by (simp add: IsOldFile_def s)
  have near: "i mod 1000 = k mod 1000 \<longleftrightarrow> i = k" if "i \<in> set is" for i
  proof -
    from win that have "i \<le> unat ?cur" "unat ?cur < i + unat ?max" by (auto simp: window_def)
    then have "i < k + 1000" "k < i + 1000" using k big(2) maxb by linarith+
    then show ?thesis using mod_eq_near by blast
  qed
  have key: "IsOldFile r (drop ?D p) ?cur \<longleftrightarrow> k \<in> set is \<and> p = job_name r k (ts k)" if "p \<in> fst ` set fs" for p
  proof (cases "job_file r p")
    case True
    then have "p \<in> set (job_names r fs)" using that by (simp add: set_job_names)
    then obtain i where i: "i \<in> set is" "p = job_name r i (ts i)" using win by (auto simp: window_def)
    have "plain_text c (ts i)" using win i by (auto simp: window_def)
    from job_name_match [OF conf this] near [OF i(1)] have "IsOldFile r (drop ?D p) ?cur \<longleftrightarrow> i = k"
      by (simp add: old i)
    moreover have "i = k" if "k \<in> set is" "p = job_name r k (ts k)"
      using near [OF i(1)] job_name_eq [OF trans [OF i(2) [symmetric] that(2)]] by blast
    ultimately show ?thesis using i by auto
  next
    case False
    then have "foreign_file r p" using win that by (auto simp: window_def)
    then have "strstr (drop ?D p) (drop ?D (m_logsPath r) @ ''.'') = None" by (simp add: foreign_file_def)
    from strstr_append_None [OF this] have "\<not> IsOldFile r (drop ?D p) ?cur" by (simp add: old)
    then show ?thesis using False by auto
  qed
  have entries: "HILOG_FILE_DIR @ e \<in> fst ` set fs" if "e \<in> set (dir_entries fs)" for e
  proof -
    from that obtain p q where p: "(p, q) \<in> set fs" "take ?D p = HILOG_FILE_DIR" "e = drop ?D p"
      by (auto simp: dir_entries_def)
    then have "HILOG_FILE_DIR @ e = p" by (metis append_take_drop_id)
    then show ?thesis using p(1) by (auto simp: image_iff intro: bexI [of _ "(p, q)"])
  qed
  show ?thesis
  proof (cases "find (\<lambda>name. IsOldFile r name ?cur) (dir_entries fs)")
    case None
    have "job_name r k (ts k) \<notin> fst ` set fs"
    proof
      assume in_fs: "job_name r k (ts k) \<in> fst ` set fs"
      then have "job_name r k (ts k) \<in> set (job_names r fs)" by (simp add: set_job_names)
      then obtain i where i: "i \<in> set is" "job_name r k (ts k) = job_name r i (ts i)" using win by (auto simp: window_def)
      then have "i = k" using job_name_eq near by metis
      then have pl: "k \<in> set is" "plain_text c (ts k)" using i win by (auto simp: window_def)
      have "drop ?D (job_name r k (ts k)) \<in> set (dir_entries fs)"
        using in_fs job_entry [OF conf pl(2), of k] by (force simp: dir_entries_def)
      then show False using None key [OF in_fs] pl by (auto simp: find_None_iff)
    qed
    then have "fs_remove (job_name r k (ts k)) fs = fs"
      by (auto simp: fs_remove_def image_iff intro!: filter_True)
    with None env show ?thesis by (simp add: RemoveOldFile_def)
  next
    case (Some e)
    then have "IsOldFile r e ?cur" "e \<in> set (dir_entries fs)" by (auto simp: find_Some_iff)
    then have "HILOG_FILE_DIR @ e = job_name r k (ts k)" using key [OF entries, of e] by simp
    with Some env show ?thesis by (simp add: RemoveOldFile_def)
  qed
qed

text \<open>What the window depends on; the other fields of the rotator may change.\<close>

definition same_job :: "LogPersisterRotator \<Rightarrow> LogPersisterRotator \<Rightarrow> bool" where
  "same_job r r' \<longleftrightarrow> m_logsPath r' = m_logsPath r \<and> m_fileNameSuffix r' = m_fileNameSuffix r \<and>
     m_maxLogFileNum r' = m_maxLogFileNum r \<and> m_infoFilePath r' = m_infoFilePath r"

lemma same_job_cong:
  assumes "same_job r r'"
  shows "job_names r' fs = job_names r fs" "job_name r' i t = job_name r i t" "job_file r' p = job_file r p"
    "foreign_file r' p = foreign_file r p" "rotator_conf r' c hs = rotator_conf r c hs"
  using assms by (simp_all add: same_job_def job_names_def job_name_def job_file_def [abs_def] foreign_file_def rotator_conf_def)

lemma window_same_job:
  assumes "same_job r r'" "m_currentLogFileIdx r' = m_currentLogFileIdx r"
  shows "window r' fs c is ts = window r fs c is ts"
  using assms(2) same_job_cong [OF assms(1)] assms(1) by (simp add: window_def same_job_def)

lemma job_names_put:
  "job_names r (fs_put p bs fs) = job_names r fs @ (if job_file r p \<and> \<not> fs_exists p fs then [p] else [])"
  by (simp add: job_names_def filter_fs_put)

lemma window_put_other:
  assumes "window r fs c is ts" "fs_exists p fs \<or> foreign_file r p"
  shows "window r (fs_put p bs fs) c is ts"
  using assms by (auto simp: window_def job_names_put fst_fs_put distinct_fs_put foreign_file_def fs_exists_def)

lemma window_index:
  assumes "rotator_conf r c hs" "window r fs c is ts" "i \<in> set is" "j \<le> unat (m_currentLogFileIdx r) + 1"
    "unat (m_currentLogFileIdx r) + 1 \<le> j + unat (m_maxLogFileNum r)" "job_name r i (ts i) = job_name r j t"
    "j = unat (m_currentLogFileIdx r) + 1 \<longrightarrow> unat (m_currentLogFileIdx r) + 1 < i + unat (m_maxLogFileNum r)"
  shows "i = j"
proof (rule mod_eq_near)
  show "i mod 1000 = j mod 1000" by (rule job_name_eq [OF assms(6)])
  have b: "i \<le> unat (m_currentLogFileIdx r)" "unat (m_currentLogFileIdx r) < i + unat (m_maxLogFileNum r)"
    using assms(2,3) by (auto simp: window_def)
  moreover have "unat (m_maxLogFileNum r) \<le> 1000" using assms(1) by (simp add: rotator_conf_def)
  ultimately show "i < j + 1000" "j < i + 1000" using assms(4,5,7) by linarith+
qed

lemma CreateLogFile_window:
  assumes conf: "rotator_conf r c hs" and win: "window r fs c is ts" and env: "env_regular env r"
    and cur: "unat (m_currentLogFileIdx r) \<notin> set is" "unat (m_currentLogFileIdx r) < 2 ^ 31"
    and create: "CreateLogFile env r fs = (r', fs')"
  shows "same_job r r'" "m_currentLogFileIdx r' = m_currentLogFileIdx r" "m_needRotate r' = m_needRotate r"
    "m_infoFile_open r' = m_infoFile_open r" "m_currentLogOutput_open r'" "fs_exists (m_currentLogFileName r') fs'"
    "window r' fs' c (is @ [unat (m_currentLogFileIdx r)]) (ts(unat (m_currentLogFileIdx r) := env_time env))"
proof -
  let ?cur = "unat (m_currentLogFileIdx r)" and ?t = "env_time env"
  have name: "new_log_name env r = job_name r ?cur ?t"
    using sint_small [OF cur(2)] by (simp add: new_log_name_def job_name_def)
  have r': "r' = r\<lparr>m_currentLogFileName := job_name r ?cur ?t, m_currentLogOutput_open := True\<rparr>"
    and fs': "fs' = fs_put (job_name r ?cur ?t) [] fs"
    using create env by (auto simp: CreateLogFile_def name env_regular_def Let_def)
  show "same_job r r'" "m_currentLogFileIdx r' = m_currentLogFileIdx r" "m_needRotate r' = m_needRotate r"
    "m_infoFile_open r' = m_infoFile_open r" "m_currentLogOutput_open r'" "fs_exists (m_currentLogFileName r') fs'"
    by (simp_all add: r' fs' same_job_def)
  have plain: "plain_text c ?t" using env conf by (simp add: env_regular_def rotator_conf_def nth_append)
  have less: "i < ?cur \<and> ?cur < i + unat (m_maxLogFileNum r) \<and> plain_text c (ts i)" if "i \<in> set is" for i
    using that win cur(1) le_neq_implies_less by (fastforce simp: window_def)
  have fresh: "\<not> fs_exists (job_name r ?cur ?t) fs"
  proof
    assume "fs_exists (job_name r ?cur ?t) fs"
    then have "job_name r ?cur ?t \<in> set (job_names r fs)" by (simp add: fs_exists_def set_job_names)
    then obtain i where i: "i \<in> set is" "job_name r i (ts i) = job_name r ?cur ?t" using win by (auto simp: window_def)
    have "?cur + 1 \<le> ?cur + unat (m_maxLogFileNum r)" using conf by (simp add: rotator_conf_def)
    from window_index [OF conf win i(1) _ this i(2)] have "i = ?cur" by simp
    then show False using i(1) cur(1) by simp
  qed
  have "window r fs' c (is @ [?cur]) (ts(?cur := ?t))"
    using win less plain conf fresh cur(1)
    by (auto simp: window_def fs' job_names_put fst_fs_put distinct_fs_put sorted_wrt_append rotator_conf_def intro!: map_cong)
  then show "window r' fs' c (is @ [?cur]) (ts(?cur := ?t))"
    by (subst window_same_job [of r]) (simp_all add: r' same_job_def)
qed

lemma window_advance:
  assumes conf: "rotator_conf r c hs" and win: "window r fs c is ts" and env: "env_opendir env"
    and big: "unat (m_currentLogFileIdx r) + 1 < 2 ^ 31"
    and fs1: "fs1 = (if m_currentLogFileIdx r + 1 \<ge> m_maxLogFileNum r then RemoveOldFile env r fs else fs)"
  shows "window (r\<lparr>m_currentLogFileIdx := m_currentLogFileIdx r + 1\<rparr>) fs1 c
      (List.filter (\<lambda>i. unat (m_currentLogFileIdx r) + 1 < i + unat (m_maxLogFileNum r)) is) ts"
proof -
  let ?cur = "unat (m_currentLogFileIdx r)" and ?max = "unat (m_maxLogFileNum r)"
  let ?r1 = "r\<lparr>m_currentLogFileIdx := m_currentLogFileIdx r + 1\<rparr>"
  have sj: "same_job r ?r1" by (simp add: same_job_def)
  have u1: "unat (m_currentLogFileIdx r + 1) = ?cur + 1" using big by (simp add: unat_word_ariths)
  have guard: "m_currentLogFileIdx r + 1 \<ge> m_maxLogFileNum r \<longleftrightarrow> ?max \<le> ?cur + 1"
    by (simp add: word_le_nat_alt u1)
  define k where "k = ?cur + 1 - ?max"
  have "job_names r fs1 = map (\<lambda>i. job_name r i (ts i)) (List.filter (\<lambda>i. ?cur + 1 < i + ?max) is) \<and>
      distinct (map fst fs1) \<and> fst ` set fs1 \<subseteq> fst ` set fs"
  proof (cases "?max \<le> ?cur + 1")
    case True
    have rm: "fs1 = fs_remove (job_name r k (ts k)) fs"
      using RemoveOldFile_window [OF conf win env big True k_def] fs1 guard True by simp
    have eq: "job_name r i (ts i) \<noteq> job_name r k (ts k) \<longleftrightarrow> ?cur + 1 < i + ?max" if "i \<in> set is" for i
    proof -
      have "?cur < i + ?max" using win that by (auto simp: window_def)
      then have "i \<noteq> k \<longleftrightarrow> ?cur + 1 < i + ?max" using True unfolding k_def by arith
      moreover have "i = k" if "job_name r i (ts i) = job_name r k (ts k)"
        using True conf
        by (intro window_index [OF conf win \<open>i \<in> set is\<close> _ _ that]) (auto simp: k_def rotator_conf_def)
      ultimately show ?thesis by blast
    qed
    have "List.filter (\<lambda>i. job_name r i (ts i) \<noteq> job_name r k (ts k)) is = List.filter (\<lambda>i. ?cur + 1 < i + ?max) is"
      by (rule filter_cong [OF refl]) (rule eq)
    then have "job_names r fs1 = map (\<lambda>i. job_name r i (ts i)) (List.filter (\<lambda>i. ?cur + 1 < i + ?max) is)"
      using win by (simp add: rm job_names_def filter_fs_remove window_def filter_map comp_def)
    then show ?thesis using win by (auto simp: rm fst_fs_remove distinct_fs_remove window_def)
  next
    case False
    then have "List.filter (\<lambda>i. ?cur + 1 < i + ?max) is = is" by (simp add: filter_id_conv)
    then show ?thesis using win False by (simp add: fs1 guard window_def)
  qed
  moreover from this have "\<forall>p \<in> fst ` set fs1. job_file r p \<or> foreign_file r p" using win unfolding window_def by blast
  moreover have "i \<le> Suc ?cur \<and> plain_text c (ts i)" if "i \<in> set is" for i
    using win that by (auto simp: window_def intro: le_SucI)
  moreover have "sorted_wrt (<) is" using win by (simp add: window_def)
  ultimately show ?thesis
    unfolding window_def same_job_cong [OF sj] by (simp add: u1 sorted_wrt_filter)
qed

lemma Rotate_window:
  assumes conf: "rotator_conf r c hs" and win: "window r fs c is ts" and env: "env_regular env r"
    and big: "unat (m_currentLogFileIdx r) + 1 < 2 ^ 31" and rot: "Rotate env r fs = (r', fs')"
  shows "same_job r r' \<and> m_currentLogOutput_open r' \<and> fs_exists (m_currentLogFileName r') fs' \<and> (\<exists>is' ts'. window r' fs' c is' ts')"
proof -
  let ?r1 = "r\<lparr>m_currentLogFileIdx := m_currentLogFileIdx r + 1\<rparr>"
  define fs1 where "fs1 = (if m_currentLogFileIdx r + 1 \<ge> m_maxLogFileNum r then RemoveOldFile env r fs else fs)"
  define is1 where "is1 = List.filter (\<lambda>i. unat (m_currentLogFileIdx r) + 1 < i + unat (m_maxLogFileNum r)) is"
  obtain r2 fs2 where create: "CreateLogFile env ?r1 fs1 = (r2, fs2)" by fastforce
  have sj: "same_job r ?r1" by (simp add: same_job_def)
  have u1: "unat (m_currentLogFileIdx ?r1) = unat (m_currentLogFileIdx r) + 1" using big by (simp add: unat_word_ariths)
  have win1: "window ?r1 fs1 c is1 ts"
    using window_advance [OF conf win _ big fs1_def] env by (simp add: is1_def env_regular_def)
  have "unat (m_currentLogFileIdx ?r1) \<notin> set is1" using win unfolding u1 by (auto simp: is1_def window_def)
  note c2 = CreateLogFile_window [OF _ win1 _ this _ create]
  have pre: "rotator_conf ?r1 c hs" "env_regular env ?r1" "unat (m_currentLogFileIdx ?r1) < 2 ^ 31"
    using conf env big u1 same_job_cong(5) [OF sj] by (simp_all add: env_regular_def)
  note c2 = c2 [OF pre]
  have up: "r' = r2\<lparr>m_info := (m_info r2)\<lparr>ri_index := m_currentLogFileIdx r2\<rparr>\<rparr>" "fs' = WriteRecoveryInfo env r' fs2"
    using rot create by (auto simp: Rotate_def fs1_def UpdateRotateNumber_def Let_def)
  have sj': "same_job r r'" "same_job r2 r'" using c2(1) by (auto simp: up(1) same_job_def)
  have "rotator_conf r' c hs" using conf same_job_cong(5) [OF sj'(1)] by simp
  then have info: "foreign_file r' (m_infoFilePath r')" by (simp add: rotator_conf_def)
  have "window r' fs2 c (is1 @ [unat (m_currentLogFileIdx ?r1)]) (ts(unat (m_currentLogFileIdx ?r1) := env_time env))"
    using c2(7) window_same_job [OF sj'(2)] by (simp add: up(1))
  then have "window r' fs' c (is1 @ [unat (m_currentLogFileIdx ?r1)]) (ts(unat (m_currentLogFileIdx ?r1) := env_time env))"
    using info by (auto simp: up(2) WriteRecoveryInfo_def Let_def intro!: window_put_other)
  then have "\<exists>is' ts'. window r' fs' c is' ts'" by blast
  moreover have "m_currentLogOutput_open r'" "fs_exists (m_currentLogFileName r') fs'"
    using c2(5,6) by (auto simp: up WriteRecoveryInfo_def Let_def)
  ultimately show ?thesis using sj'(1) by blast
qed

text \<open>The window holds at most as many indices as the configured number of files.\<close>

lemma window_length:
  assumes "window r fs c is ts"
  shows "length (job_names r fs) \<le> unat (m_maxLogFileNum r)"
proof -
  let ?cur = "unat (m_currentLogFileIdx r)" and ?max = "unat (m_maxLogFileNum r)"
  have "set is \<subseteq> {Suc ?cur - ?max..<Suc ?cur}" using assms by (auto simp: window_def)
  then have "card (set is) \<le> card {Suc ?cur - ?max..<Suc ?cur}" by (intro card_mono) auto
  moreover have "distinct is" using assms by (simp add: window_def strict_sorted_iff)
  ultimately show ?thesis using assms by (auto simp: window_def distinct_card)
qed

text \<open>The files that are neither of the job nor taken for its own, apart from its recovery file.\<close>

definition untouched :: "LogPersisterRotator \<Rightarrow> FileSystem \<Rightarrow> FileSystem \<Rightarrow> bool" where
  "untouched r fs fs' \<longleftrightarrow> (\<forall>p. foreign_file r p \<and> p \<noteq> m_infoFilePath r \<longrightarrow> map_of fs' p = map_of fs p)"

lemma untouched_refl [simp]: "untouched r fs fs"
  by (simp add: untouched_def)

lemma untouched_trans: "untouched r fs fs' \<Longrightarrow> untouched r fs' fs'' \<Longrightarrow> untouched r fs fs''"
  by (simp add: untouched_def)

lemma untouched_same_job: "same_job r r' \<Longrightarrow> untouched r' = untouched r"
  using same_job_cong(4) [of r r'] by (auto simp: untouched_def fun_eq_iff same_job_def)

lemma map_of_fs_put: "map_of (fs_put q bs fs) p = (if p = q then Some bs else map_of fs p)"
proof -
  have *: "map_of (map (\<lambda>(q', c). (q', if q' = q then bs else c)) fs) p = map_option (\<lambda>c. if p = q then bs else c) (map_of fs p)"
    by (induction fs) auto
  show ?thesis
  proof (cases "map_of fs q")
    case None
    then have "\<not> fs_exists q fs" by (simp add: fs_exists_def map_of_eq_None_iff)
    with None show ?thesis by (simp add: fs_put_def map_add_def split: option.split)
  next
    case (Some c)
    then have "fs_exists q fs" by (force simp: fs_exists_def dest: map_of_SomeD)
    with Some show ?thesis by (auto simp: fs_put_def * option.map_ident)
  qed
qed

lemma untouched_put: "job_file r q \<or> q = m_infoFilePath r \<Longrightarrow> untouched r fs (fs_put q bs fs)"
  by (auto simp: untouched_def map_of_fs_put foreign_file_def)

lemma untouched_RemoveOldFile: "untouched r fs (RemoveOldFile env r fs)"
proof -
  have "map_of (fs_remove q fs) p = map_of fs p" if "p \<noteq> q" for p q
    using that by (induction fs) (auto simp: fs_remove_def)
  moreover have "p \<noteq> HILOG_FILE_DIR @ e" if "foreign_file r p" "IsOldFile r e idx" for p e idx
    using that strstr_append_None [of e "drop (length HILOG_FILE_DIR) (m_logsPath r) @ ''.''" "GetFileNameIndex (sint (idx + 1 - m_maxLogFileNum r))"]
    by (auto simp: foreign_file_def IsOldFile_def Let_def)
  ultimately show ?thesis
    by (auto simp: RemoveOldFile_def untouched_def find_Some_iff split: option.splits)
qed

lemma CreateLogFile_untouched:
  assumes "CreateLogFile env r fs = (r', fs')"
  shows "untouched r fs fs' \<and> job_file r (m_currentLogFileName r') \<and> same_job r r' \<and> m_currentLogFileIdx r' = m_currentLogFileIdx r"
proof -
  have "job_file r (new_log_name env r)" by (simp add: job_file_def new_log_name_def)
  then show ?thesis using assms untouched_put by (auto simp: CreateLogFile_def Let_def same_job_def split: if_splits)
qed

lemma Rotate_untouched:
  assumes "Rotate env r fs = (r', fs')"
  shows "untouched r fs fs' \<and> job_file r (m_currentLogFileName r') \<and> m_currentLogFileIdx r' = m_currentLogFileIdx r + 1"
proof -
  let ?r1 = "r\<lparr>m_currentLogFileIdx := m_currentLogFileIdx r + 1\<rparr>"
  let ?fs1 = "if m_currentLogFileIdx r + 1 \<ge> m_maxLogFileNum r then RemoveOldFile env r fs else fs"
  have u: "untouched r fs ?fs1" using untouched_RemoveOldFile by simp
  obtain r2 fs2 where c: "CreateLogFile env ?r1 ?fs1 = (r2, fs2)" by fastforce
  have sj: "same_job r ?r1" by (simp add: same_job_def)
  from CreateLogFile_untouched [OF c] have c2: "untouched r ?fs1 fs2" "job_file r (m_currentLogFileName r2)" "same_job r r2"
      "m_currentLogFileIdx r2 = m_currentLogFileIdx r + 1"
    using untouched_same_job [OF sj] same_job_cong(3) [OF sj] by (simp_all add: same_job_def)
  have up: "r' = r2\<lparr>m_info := (m_info r2)\<lparr>ri_index := m_currentLogFileIdx r2\<rparr>\<rparr>" "fs' = WriteRecoveryInfo env r' fs2"
    using assms c by (auto simp: Rotate_def UpdateRotateNumber_def Let_def)
  have "m_infoFilePath r' = m_infoFilePath r" using c2(3) by (simp add: up(1) same_job_def)
  then have "untouched r fs2 fs'" using untouched_put by (simp add: up(2) WriteRecoveryInfo_def Let_def)
  then show ?thesis using untouched_trans [OF u untouched_trans [OF c2(1)]] c2(2,4) by (simp add: up(1))
qed

lemma Input_window:
  assumes inv: "rotator_inv r fs" and env: "env_regular env r" and big: "unat (m_currentLogFileIdx r) + 1 < 2 ^ 31"
    and step: "Input env buf r fs = (e, r', fs')"
  shows "rotator_inv r' fs' \<and> same_job r r' \<and> unat (m_currentLogFileIdx r') \<le> unat (m_currentLogFileIdx r) + 1 \<and> untouched r fs fs'"
proof -
  from inv obtain c hs "is" ts where conf: "rotator_conf r c hs" and win: "window r fs c is ts" and cur: "current_ok r fs is"
    by (auto simp: rotator_inv_def)
  have fin: "rotator_inv r' fs'"
    if "same_job r r'" "window r' fs' c is' ts'" "current_ok r' fs' is'" for is' ts'
    using that conf same_job_cong(5) [OF that(1), of c hs] by (auto simp: rotator_inv_def)
  show ?thesis
  proof (cases "buf = []")
    case True
    then have "r' = r" "fs' = fs" using step by (auto simp: Input_def)
    then show ?thesis using inv by (simp add: same_job_def)
  next
    case buf: False
    define st where "st = (if m_needRotate r
                  then let (ra, fa) = Rotate env r fs in (ra\<lparr>m_needRotate := False\<rparr>, fa)
                  else if \<not> fs_exists (m_currentLogFileName r) fs \<or> \<not> m_currentLogOutput_open r
                  then CreateLogFile env r fs
                  else (r, fs))"
    have u: "unat (m_currentLogFileIdx r + 1) = unat (m_currentLogFileIdx r) + 1" using big by (simp add: unat_word_ariths)
    have "\<exists>is' ts'. same_job r (fst st) \<and> window (fst st) (snd st) c is' ts' \<and>
        m_currentLogOutput_open (fst st) \<and> fs_exists (m_currentLogFileName (fst st)) (snd st) \<and>
        job_file r (m_currentLogFileName (fst st)) \<and> untouched r fs (snd st) \<and> unat (m_currentLogFileIdx (fst st)) \<le> unat (m_currentLogFileIdx r) + 1"
    proof (cases "m_needRotate r")
      case True
      obtain ra fa where rot: "Rotate env r fs = (ra, fa)" by fastforce
      from Rotate_window [OF conf win env big this] obtain is' ts' where
        w: "same_job r ra" "m_currentLogOutput_open ra" "fs_exists (m_currentLogFileName ra) fa" "window ra fa c is' ts'" by auto
      have "window (ra\<lparr>m_needRotate := False\<rparr>) fa c is' ts'"
        using w(4) window_same_job [of ra "ra\<lparr>m_needRotate := False\<rparr>"] by (simp add: same_job_def)
      then show ?thesis using True rot w(1-3) Rotate_untouched [OF rot] u by (intro exI [of _ is'] exI [of _ ts']) (simp add: st_def same_job_def)
    next
      case no_rot: False
      show ?thesis
      proof (cases "m_currentLogOutput_open r \<and> fs_exists (m_currentLogFileName r) fs")
        case True
        then show ?thesis using no_rot win cur by (auto simp: st_def same_job_def current_ok_def)
      next
        case False
        then have new: "unat (m_currentLogFileIdx r) \<notin> set is" "unat (m_currentLogFileIdx r) < 2 ^ 31"
          using cur no_rot big by (auto simp: current_ok_def)
        obtain ra fa where create: "CreateLogFile env r fs = (ra, fa)" by fastforce
        have "st = (ra, fa)" using False no_rot create by (auto simp: st_def)
        with CreateLogFile_window [OF conf win env new create] CreateLogFile_untouched [OF create] show ?thesis by fastforce
      qed
    qed
    then obtain is' ts' where w: "same_job r (fst st)" "window (fst st) (snd st) c is' ts'"
      "m_currentLogOutput_open (fst st)" "fs_exists (m_currentLogFileName (fst st)) (snd st)"
      "job_file r (m_currentLogFileName (fst st))" "untouched r fs (snd st)"
      "unat (m_currentLogFileIdx (fst st)) \<le> unat (m_currentLogFileIdx r) + 1" by blast
    have r': "r' = fst st" "fs' = fs_append (m_currentLogFileName (fst st)) buf (snd st)"
      using step buf w(3) by (auto simp: Input_def st_def [symmetric] split_beta)
    have "untouched r fs fs'" using untouched_trans [OF w(6) untouched_put] w(5) by (simp add: r' fs_append_def)
    moreover have "rotator_inv r' fs'"
      using fin [of is' ts'] w window_put_other [OF w(2)] same_job_cong(3) [OF w(1)] by (simp add: r' fs_append_def current_ok_def)
    ultimately show ?thesis using w(1,7) by (simp add: r'(1))
  qed
qed

lemma FinishInput_window: "rotator_inv r fs \<Longrightarrow> rotator_inv (FinishInput r) fs \<and> same_job r (FinishInput r)"
proof -
  assume "rotator_inv r fs"
  then obtain c hs "is" ts where "rotator_conf r c hs" "window r fs c is ts" by (auto simp: rotator_inv_def)
  moreover have sj: "same_job r (FinishInput r)" by (simp add: same_job_def FinishInput_def)
  ultimately have "rotator_conf (FinishInput r) c hs" "window (FinishInput r) fs c is ts"
    using same_job_cong(5) [OF sj] window_same_job [OF sj] by (simp_all add: FinishInput_def)
  moreover have "current_ok (FinishInput r) fs is" by (simp add: current_ok_def FinishInput_def)
  ultimately show ?thesis using sj by (auto simp: rotator_inv_def)
qed

text \<open>What a job does with its rotator: blocks are written and files are finished.\<close>

datatype rotator_op = Writes FileEnv "char list" | Finishes

fun rotator_run :: "rotator_op list \<Rightarrow> LogPersisterRotator \<Rightarrow> FileSystem \<Rightarrow> LogPersisterRotator \<times> FileSystem" where
  "rotator_run [] r fs = (r, fs)"
| "rotator_run (Writes env buf # ops) r fs = (let (e, r1, fs1) = Input env buf r fs in rotator_run ops r1 fs1)"
| "rotator_run (Finishes # ops) r fs = rotator_run ops (FinishInput r) fs"

lemma rotator_run_inv:
  assumes "rotator_inv r fs" "unat (m_currentLogFileIdx r) + length ops < 2 ^ 31"
    and "\<forall>env buf. Writes env buf \<in> set ops \<longrightarrow> env_regular env r" "rotator_run ops r fs = (r', fs')"
  shows "rotator_inv r' fs' \<and> same_job r r' \<and> untouched r fs fs'"
  using assms
proof (induction ops arbitrary: r fs)
  case Nil
  then show ?case by (simp add: same_job_def)
next
  case (Cons op ops)
  show ?case
  proof (cases op)
    case (Writes env buf)
    obtain e r1 fs1 where i: "Input env buf r fs = (e, r1, fs1)" by (metis prod_cases3)
    have "env_regular env r" "unat (m_currentLogFileIdx r) + 1 < 2 ^ 31" using Cons.prems(2,3) Writes by auto
    note w = Input_window [OF Cons.prems(1) this i]
    have "env_regular env' r1" if "Writes env' buf' \<in> set ops" for env' buf'
      using Cons.prems(3) that w unfolding env_regular_def same_job_def by auto
    then have "rotator_inv r' fs' \<and> same_job r1 r' \<and> untouched r1 fs1 fs'"
      using Cons.IH [of r1 fs1] Cons.prems(2,4) w i Writes by auto
    then show ?thesis using w untouched_trans [of r fs fs1 fs'] untouched_same_job [of r r1] by (auto simp: same_job_def)
  next
    case Finishes
    note w = FinishInput_window [OF Cons.prems(1)]
    have "env_regular env' (FinishInput r)" if "Writes env' buf' \<in> set ops" for env' buf'
      using Cons.prems(3) that unfolding env_regular_def FinishInput_def by auto
    then have "rotator_inv r' fs' \<and> same_job (FinishInput r) r' \<and> untouched (FinishInput r) fs fs'"
      using Cons.IH [of "FinishInput r" fs] Cons.prems(2,4) w Finishes by (auto simp: FinishInput_def)
    then show ?thesis using w untouched_same_job [of r "FinishInput r"] by (auto simp: same_job_def)
  qed
qed


definition demo_rotator :: LogPersisterRotator where
  "demo_rotator = \<lparr>m_maxLogFileNum = 2, m_logsPath = HILOG_FILE_DIR @ ''hilog'', m_fileNameSuffix = ''.gz'',
     m_currentLogFileName = HILOG_FILE_DIR @ ''hilog.001.20170805-103001.gz'', m_currentLogFileIdx = 1,
     m_currentLogOutput_open = False, m_id = 10, m_infoFile_open = False,
     m_infoFilePath = HILOG_FILE_DIR @ ''.persisterInfo_10.info'',
     m_info = \<lparr>ri_index = 1, ri_msg = \<lparr>sm_compressAlg = 2, sm_filePath = HILOG_FILE_DIR @ ''hilog'', sm_fileSize = 65536,
       sm_fileNum = 2, sm_jobId = 10, sm_filter = demo_filter\<rparr>\<rparr>, m_needRotate = True\<rparr>"

definition demo_files :: FileSystem where
  "demo_files = [(HILOG_FILE_DIR @ ''hilog.000.20170805-103000.gz'', ''a''), (HILOG_FILE_DIR @ ''.persisterInfo_10.info'', ''''),
     (HILOG_FILE_DIR @ ''hilog.001.20170805-103001.gz'', ''b'')]"

definition demo_file_env :: FileEnv where
  "demo_file_env = \<lparr>env_time = ''20170805-103002'', env_access = (\<lambda>_. True), env_open = (\<lambda>_. True), env_opendir = True,
     env_layout = (\<lambda>_. ''''), env_char_signed = False\<rparr>"

definition demo_times :: "nat \<Rightarrow> string" where
  "demo_times i = (if i = 0 then ''20170805-103000'' else ''20170805-103001'')"

lemma demo_rotator_inv: "rotator_inv demo_rotator demo_files"
proof -
  have "rotator_conf demo_rotator (CHR ''h'') ''ilog''" by code_simp
  moreover have "window demo_rotator demo_files (CHR ''h'') [0, 1] demo_times" by code_simp
  moreover have "current_ok demo_rotator demo_files [0, 1]" by code_simp
  ultimately show ?thesis unfolding rotator_inv_def by blast
qed


end
