(* ===== verification/Log_Persister.thy ===== *)
theory Log_Persister
  imports Log_Compress Log_Persister_Rotator Log_Buffer
begin

text \<open>
  The persist jobs, \<open>log_persister.h\<close> and \<open>log_persister.cpp\<close>. A job formats the logs of its
  filter, gathers the text in a plain buffer that is mapped to an auxiliary file, and compresses
  and writes the buffer when it is full, after an idle interval and at the end. The static list
  \<open>s_logPersisters\<close> is passed explicitly. The thread of a job is a function over the events it
  meets; its join by \<open>Stop\<close> runs the code behind its loop. A mapped auxiliary file is its
  content before \<open>offset\<close>; what a restored job finds there is a parameter.
\<close>

section \<open>Jobs\<close>

record LogPersister =
  m_startMsg :: LogPersistStartMsg
  m_plainLogFilePath :: string
  m_mappedPlainLogFile :: LogPersisterBuffer
  m_plainLogSize :: u32
  m_compressor :: "LogCompress option"
  m_compressBuffer :: LogPersisterBuffer
  m_fileRotator :: "LogPersisterRotator option"
  m_bufReader :: ReaderId
  m_stopThread :: bool
  m_persisterThread :: bool
  m_inited :: bool

text \<open>
  The environment of a job: files, compression libraries, local time, and the plain buffer found
  by \<open>fopen\<close> and \<open>mmap\<close> for a restored job.
\<close>

record PersistEnv =
  pe_file :: FileEnv
  pe_deflate :: Zlib
  pe_zstd :: "Zstd option"
  pe_localtime :: "u32 \<Rightarrow> tm option"
  pe_wlength :: "string \<Rightarrow> nat"
  pe_recover :: "string \<Rightarrow> char list option"
  pe_mmap :: bool

definition LogPersister_new :: "ReaderId \<Rightarrow> LogPersister" where
  "LogPersister_new rid =
     \<lparr>m_startMsg = StartMsg_zero, m_plainLogFilePath = [], m_mappedPlainLogFile = [], m_plainLogSize = 0,
      m_compressor = None, m_compressBuffer = [], m_fileRotator = None, m_bufReader = rid,
      m_stopThread = False, m_persisterThread = False, m_inited = False\<rparr>"

definition InitCompression :: "LogPersister \<Rightarrow> int \<times> LogPersister" where
  "InitCompression lp =
     (let alg = unat (sm_compressAlg (m_startMsg lp));
          c = (if alg = COMPRESS_TYPE_NONE then Some NoneCompressor
               else if alg = COMPRESS_TYPE_ZLIB then Some ZlibCompressor
               else if alg = COMPRESS_TYPE_ZSTD then Some ZstdCompressor else m_compressor lp);
          lp' = lp\<lparr>m_compressBuffer := [], m_compressor := c\<rparr>
      in (if c = None then RET_FAIL else RET_SUCCESS, lp'))"

definition InitFileRotator ::
  "PersistEnv \<Rightarrow> PersistRecoveryInfo \<Rightarrow> bool \<Rightarrow> LogPersister \<Rightarrow> FileSystem \<Rightarrow> int \<times> LogPersister \<times> FileSystem" where
  "InitFileRotator env info restore lp fs =
     (let alg = unat (sm_compressAlg (m_startMsg lp));
          fileSuffix = (if alg = COMPRESS_TYPE_ZSTD then ''.zst'' else if alg = COMPRESS_TYPE_ZLIB then ''.gz'' else []);
          r = LogPersisterRotator_new (c_str (sm_filePath (m_startMsg lp))) (sm_jobId (m_startMsg lp))
                (sm_fileNum (m_startMsg lp)) fileSuffix;
          (ret, r', fs') = Rotator_Init (pe_file env) info restore r fs
      in (ret, lp\<lparr>m_fileRotator := Some r'\<rparr>, fs'))"

section \<open>Writing\<close>

text \<open>
  The guard compares the length cut to 16 bits; the copy uses the full length. A line that passes
  the guard and does not fit is dropped with the result \<open>true\<close>.
\<close>

definition WriteUncompressedLogs :: "string \<Rightarrow> LogPersister \<Rightarrow> bool \<times> LogPersister" where
  "WriteUncompressedLogs logLine lp =
     (let size16 = of_nat (length logLine) :: u16;
          remainingSpace = MAX_PERSISTER_BUFFER_SIZE - length (m_mappedPlainLogFile lp)
      in if remainingSpace < unat size16 then (False, lp)
         else let (r, copied) = memcpy_s remainingSpace logLine (length logLine)
              in if r \<noteq> 0 then (True, lp)
                 else (True, lp\<lparr>m_mappedPlainLogFile := m_mappedPlainLogFile lp @ copied\<rparr>))"

definition WriteCompressedLogs :: "PersistEnv \<Rightarrow> LogPersister \<Rightarrow> FileSystem \<Rightarrow> LogPersister \<times> FileSystem" where
  "WriteCompressedLogs env lp fs =
     (case m_fileRotator lp of
        None \<Rightarrow> (lp, fs)
      | Some r \<Rightarrow>
          if m_mappedPlainLogFile lp = [] then (lp, fs)
          else let (e, r1, fs1) = Input (pe_file env) (m_compressBuffer lp) r fs;
                   n = m_plainLogSize lp + of_nat (length (m_mappedPlainLogFile lp));
                   full = (n \<ge> sm_fileSize (m_startMsg lp))
               in (lp\<lparr>m_plainLogSize := (if full then 0 else n),
                      m_fileRotator := Some (if full then FinishInput r1 else r1),
                      m_compressBuffer := [], m_mappedPlainLogFile := []\<rparr>, fs1))"

definition CompressPlain :: "PersistEnv \<Rightarrow> LogPersister \<Rightarrow> int \<times> LogPersister" where
  "CompressPlain env lp =
     (case m_compressor lp of
        None \<Rightarrow> (- 1, lp)
      | Some c \<Rightarrow> let (ret, out) = Compress (pe_deflate env) (pe_zstd env) c (m_mappedPlainLogFile lp) (m_compressBuffer lp)
                 in (ret, lp\<lparr>m_compressBuffer := out\<rparr>))"

definition content_of :: "HilogData \<Rightarrow> LogContent" where
  "content_of d = \<lparr>c_level = ucast (d_level d), c_type = ucast (d_type d), c_pid = d_pid d, c_tid = d_tid d,
     c_domain = d_domain d, c_tv_sec = d_tv_sec d, c_tv_nsec = d_tv_nsec d, c_mono_sec = d_mono_sec d,
     c_tag = d_tag d, c_log = d_content d\<rparr>"

definition persist_format :: LogFormat where
  "persist_format = \<lparr>colorful = False, timeFormat = FT_TIME, timeAccuFormat = FA_MSEC, year = False, zone = False, wrap = False\<rparr>"

definition format_log :: "PersistEnv \<Rightarrow> HilogData \<Rightarrow> string" where
  "format_log env d = LogPrintWithFormat (pe_localtime env) (pe_wlength env) (content_of d) persist_format"

definition WriteLogData :: "PersistEnv \<Rightarrow> HilogData \<Rightarrow> LogPersister \<Rightarrow> FileSystem \<Rightarrow> int \<times> LogPersister \<times> FileSystem" where
  "WriteLogData env logData lp fs =
     (let line = format_log env logData; (ok, lp1) = WriteUncompressedLogs line lp
      in if ok then (0, lp1, fs)
         else let (compressionResult, lp2) = CompressPlain env lp1
              in if compressionResult \<noteq> 0 then (RET_FAIL, lp2, fs)
                 else let (lp3, fs3) = WriteCompressedLogs env lp2 fs; (ok', lp4) = WriteUncompressedLogs line lp3
                      in (if ok' then 0 else RET_FAIL, lp4, fs3))"

definition PrepareUncompressedFile ::
  "PersistEnv \<Rightarrow> string \<Rightarrow> bool \<Rightarrow> LogPersister \<Rightarrow> FileSystem \<Rightarrow> int \<times> LogPersister \<times> FileSystem" where
  "PrepareUncompressedFile env parentPath restore lp fs =
     (let p = parentPath @ ''/'' @ ''.'' @ AUXILLARY_PERSISTER_PREFIX @ Uint2DecStr (sm_jobId (m_startMsg lp));
          lp1 = lp\<lparr>m_plainLogFilePath := p\<rparr>;
          opened = (if restore then pe_recover env p else if env_open (pe_file env) p then Some [] else None)
      in case opened of
           None \<Rightarrow> (ERR_LOG_PERSIST_FILE_OPEN_FAIL, lp1, fs)
         | Some plain \<Rightarrow>
             if \<not> pe_mmap env then (RET_FAIL, lp1, fs)
             else let lp2 = lp1\<lparr>m_mappedPlainLogFile := plain\<rparr>
                  in if restore
                     then let (compressionResult, lp3) = CompressPlain env lp2
                          in if compressionResult \<noteq> 0 then (RET_FAIL, lp3, fs)
                             else let (lp4, fs4) = WriteCompressedLogs env lp3 fs in (0, lp4, fs4)
                     else (0, lp2, fs))"

section \<open>The register of jobs\<close>

definition CheckRegistered :: "u32 \<Rightarrow> string \<Rightarrow> LogPersister list \<Rightarrow> bool" where
  "CheckRegistered jid logPath regs =
     list_ex (\<lambda>lp. sm_jobId (m_startMsg lp) = jid \<or> c_str (sm_filePath (m_startMsg lp)) = logPath) regs"

definition GetLogPersisterById :: "u32 \<Rightarrow> LogPersister list \<Rightarrow> LogPersister option" where
  "GetLogPersisterById jid regs = find (\<lambda>lp. sm_jobId (m_startMsg lp) = jid) regs"

definition RegisterLogPersister :: "LogPersister \<Rightarrow> LogPersister list \<Rightarrow> LogPersister list" where
  "RegisterLogPersister obj regs = regs @ [obj]"

fun DeregisterLogPersister :: "LogPersister \<Rightarrow> LogPersister list \<Rightarrow> LogPersister list" where
  "DeregisterLogPersister obj [] = []"
| "DeregisterLogPersister obj (lp # regs) =
     (if sm_jobId (m_startMsg lp) = sm_jobId (m_startMsg obj) then regs else lp # DeregisterLogPersister obj regs)"

text \<open>
  \<open>Init\<close> of an object that is not registered yet: the return value, the object, the register and
  the files. The registered object is the one that is returned.
\<close>

definition Persister_Init ::
  "PersistEnv \<Rightarrow> PersistRecoveryInfo \<Rightarrow> bool \<Rightarrow> LogPersister \<Rightarrow> LogPersister list \<Rightarrow> FileSystem \<Rightarrow>
   int \<times> LogPersister \<times> LogPersister list \<times> FileSystem" where
  "Persister_Init env info restore lp regs fs =
     (if m_inited lp then (0, lp, regs, fs)
      else let lp0 = lp\<lparr>m_startMsg := ri_msg info\<rparr>; path = c_str (sm_filePath (ri_msg info))
           in if CHR ''/'' \<notin> set path then (ERR_LOG_PERSIST_FILE_PATH_INVALID, lp0, regs, fs)
              else if \<not> env_access (pe_file env) (parent_dir path) then (ERR_LOG_PERSIST_FILE_PATH_INVALID, lp0, regs, fs)
              else if CheckRegistered (sm_jobId (ri_msg info)) path regs then (ERR_LOG_PERSIST_TASK_EXISTED, lp0, regs, fs)
              else let (r1, lp1) = InitCompression lp0
                   in if r1 \<noteq> RET_SUCCESS then (ERR_LOG_PERSIST_COMPRESS_INIT_FAIL, lp1, regs, fs)
                      else let (r2, lp2, fs2) = InitFileRotator env info restore lp1 fs
                           in if r2 \<noteq> RET_SUCCESS then (r2, lp2, regs, fs2)
                              else let (r3, lp3, fs3) = PrepareUncompressedFile env (parent_dir path) restore lp2 fs2
                                   in if r3 \<noteq> 0 then (r3, lp3, regs, fs3)
                                      else let lp4 = lp3\<lparr>m_inited := True\<rparr>
                                           in (0, lp4, RegisterLogPersister lp4 regs, fs3))"

section \<open>The thread\<close>

text \<open>The flush after an idle interval and at the end: the result of the compression is ignored.\<close>

definition ForceWrite :: "PersistEnv \<Rightarrow> LogPersister \<Rightarrow> FileSystem \<Rightarrow> LogPersister \<times> FileSystem" where
  "ForceWrite env lp fs = (let (ret, lp1) = CompressPlain env lp in WriteCompressedLogs env lp1 fs)"

definition Start :: "LogPersister \<Rightarrow> LogPersister" where
  "Start lp = (if \<not> m_inited lp then lp else if \<not> m_persisterThread lp then lp\<lparr>m_persisterThread := True\<rparr> else lp)"

text \<open>
  One turn of \<open>ReceiveLogLoop\<close> and of \<open>Refresh\<close>: a log is written, or the thread waits and flushes
  when the wait timed out. An expression that is not well formed throws out of \<open>Query\<close>.
\<close>

definition ReceiveLog ::
  "PersistEnv \<Rightarrow> (string \<Rightarrow> string \<Rightarrow> bool option) \<Rightarrow> LogTimeStamp \<Rightarrow> LogTimeStamp \<Rightarrow> bool \<Rightarrow> LogPersister \<Rightarrow> HilogBuffer \<Rightarrow> FileSystem \<Rightarrow>
   regex_error + LogPersister \<times> HilogBuffer \<times> FileSystem" where
  "ReceiveLog env rx ts ts_mono timeout lp b fs =
     (let (res, b') = Query rx ts ts_mono (sm_filter (m_startMsg lp)) (m_bufReader lp) 0 b
      in case res of
           Inl e \<Rightarrow> Inl e
         | Inr (Some d) \<Rightarrow> (let (ret, lp', fs') = WriteLogData env d lp fs in Inr (lp', b', fs'))
         | Inr None \<Rightarrow>
             if timeout then let (lp', fs') = ForceWrite env lp fs in Inr (lp', b', fs')
             else Inr (lp, b', fs))"

definition LoopExit :: "PersistEnv \<Rightarrow> LogPersister \<Rightarrow> FileSystem \<Rightarrow> LogPersister \<times> FileSystem" where
  "LoopExit env lp fs =
     (let (lp1, fs1) = ForceWrite env lp fs
      in (lp1\<lparr>m_fileRotator := map_option FinishInput (m_fileRotator lp1)\<rparr>, fs1))"

text \<open>
  The loop over a sequence of turns, each given by what the environment does during it; the stop
  flag is seen after them.
\<close>

fun ReceiveLogLoop ::
  "(PersistEnv \<times> (string \<Rightarrow> string \<Rightarrow> bool option) \<times> LogTimeStamp \<times> LogTimeStamp \<times> bool) list \<Rightarrow> PersistEnv \<Rightarrow>
   LogPersister \<Rightarrow> HilogBuffer \<Rightarrow> FileSystem \<Rightarrow> regex_error + LogPersister \<times> HilogBuffer \<times> FileSystem" where
  "ReceiveLogLoop [] env lp b fs = (let (lp', fs') = LoopExit env lp fs in Inr (lp', b, fs'))"
| "ReceiveLogLoop ((env1, rx, ts, ts_mono, timeout) # turns) env lp b fs =
     (case ReceiveLog env1 rx ts ts_mono timeout lp b fs of
        Inl e \<Rightarrow> Inl e
      | Inr (lp', b', fs') \<Rightarrow> ReceiveLogLoop turns env lp' b' fs')"

definition Stop :: "PersistEnv \<Rightarrow> LogPersister \<Rightarrow> FileSystem \<Rightarrow> LogPersister \<times> FileSystem" where
  "Stop env lp fs = (if \<not> m_persisterThread lp then (lp, fs) else LoopExit env (lp\<lparr>m_stopThread := True\<rparr>) fs)"

definition Deinit ::
  "PersistEnv \<Rightarrow> LogPersister \<Rightarrow> LogPersister list \<Rightarrow> FileSystem \<Rightarrow> int \<times> LogPersister \<times> LogPersister list \<times> FileSystem" where
  "Deinit env lp regs fs =
     (if \<not> m_inited lp then (0, lp, regs, fs)
      else let (lp1, fs1) = Stop env lp fs
           in (0, lp1\<lparr>m_inited := False\<rparr>, DeregisterLogPersister lp1 regs, fs_remove (m_plainLogFilePath lp1) fs1))"

text \<open>The destructor: the reader is removed and the rotator removes its info file.\<close>

definition LogPersister_delete ::
  "PersistEnv \<Rightarrow> LogPersister \<Rightarrow> HilogBuffer \<Rightarrow> FileSystem \<Rightarrow> HilogBuffer \<times> FileSystem" where
  "LogPersister_delete env lp b fs =
     (RemoveBufReader (m_bufReader lp) b,
      case m_fileRotator lp of None \<Rightarrow> fs | Some r \<Rightarrow> LogPersisterRotator_delete r fs)"

text \<open>\<open>Kill\<close>; the last reference to the object goes out of scope at its end.\<close>

definition Kill ::
  "PersistEnv \<Rightarrow> u32 \<Rightarrow> LogPersister list \<Rightarrow> HilogBuffer \<Rightarrow> FileSystem \<Rightarrow> int \<times> LogPersister list \<times> HilogBuffer \<times> FileSystem" where
  "Kill env jid regs b fs =
     (case GetLogPersisterById jid regs of
        None \<Rightarrow> (ERR_LOG_PERSIST_JOBID_FAIL, regs, b, fs)
      | Some lp \<Rightarrow>
          let (ret, lp1, regs1, fs1) = Deinit env lp regs fs; (b2, fs2) = LogPersister_delete env lp1 b fs1
          in (ret, regs1, b2, fs2))"

text \<open>A turn of the job by another thread, writing the object back into the register.\<close>

definition put_job :: "LogPersister \<Rightarrow> LogPersister list \<Rightarrow> LogPersister list" where
  "put_job lp regs = map (\<lambda>l. if sm_jobId (m_startMsg l) = sm_jobId (m_startMsg lp) then lp else l) regs"

definition Refresh ::
  "PersistEnv \<Rightarrow> (string \<Rightarrow> string \<Rightarrow> bool option) \<Rightarrow> LogTimeStamp \<Rightarrow> LogTimeStamp \<Rightarrow> bool \<Rightarrow> u32 \<Rightarrow> LogPersister list \<Rightarrow> HilogBuffer \<Rightarrow>
   FileSystem \<Rightarrow> regex_error + int \<times> LogPersister list \<times> HilogBuffer \<times> FileSystem" where
  "Refresh env rx ts ts_mono timeout jid regs b fs =
     (case GetLogPersisterById jid regs of
        None \<Rightarrow> Inr (ERR_LOG_PERSIST_JOBID_FAIL, regs, b, fs)
      | Some lp \<Rightarrow>
          (case ReceiveLog env rx ts ts_mono timeout lp b fs of
             Inl e \<Rightarrow> Inl e
           | Inr (lp', b', fs') \<Rightarrow> Inr (0, put_job lp' regs, b', fs')))"

section \<open>Queries and clearing\<close>

text \<open>What \<open>FillInfo\<close> leaves unset when the path does not fit is \<open>None\<close>.\<close>

record LogPersistQueryResult =
  qr_jobId :: u32
  qr_logType :: u16
  qr_rest :: "(string \<times> u16 \<times> u32 \<times> u32) option"

definition FillInfo :: "LogPersister \<Rightarrow> LogPersistQueryResult \<Rightarrow> LogPersistQueryResult" where
  "FillInfo lp response =
     (let msg = m_startMsg lp; path = c_str (sm_filePath msg); response1 = response\<lparr>qr_jobId := sm_jobId msg\<rparr>
      in if length path \<ge> FILE_PATH_MAX_LEN then response1
         else response1\<lparr>qr_rest := Some (path, sm_compressAlg msg, sm_fileSize msg, sm_fileNum msg)\<rparr>)"

definition Persister_Query :: "LogPersister list \<Rightarrow> LogPersistQueryResult list" where
  "Persister_Query regs =
     map (\<lambda>lp. FillInfo lp \<lparr>qr_jobId = 0, qr_logType = types (sm_filter (m_startMsg lp)), qr_rest = None\<rparr>) regs"

text \<open>\<open>std::regex_match(dName, "^hilog.*gz$")\<close>; the dot does not match a line terminator.\<close>

definition hilogFilePattern :: "string \<Rightarrow> bool" where
  "hilogFilePattern s \<longleftrightarrow> length s \<ge> 7 \<and> take 5 s = ''hilog'' \<and> drop (length s - 2) s = ''gz'' \<and>
     NEWLINE \<notin> set (drop 5 s) \<and> CHR 0x0D \<notin> set (drop 5 s)"

definition Clear :: "bool \<Rightarrow> FileSystem \<Rightarrow> FileSystem" where
  "Clear opendir fs =
     (if \<not> opendir then fs
      else foldl (\<lambda>fs dName. if hilogFilePattern dName then fs_remove (HILOG_FILE_DIR @ dName) fs else fs) fs (dir_entries fs))"

end
