(* ===== verification/Persister_Props.thy ===== *)
theory Persister_Props
  imports Log_Persister Rotator_Window "HOL-Library.Sublist"
begin

text \<open>
  What the persist jobs guarantee: no log is lost between the plain buffer and the files of a
  job whose compressor works, a restored job writes the buffer its predecessor left, job ids and paths are
  unique; and the two ways a job loses logs.
\<close>

section \<open>No log is lost\<close>

text \<open>What the file a rotator writes to next holds already: a new file is empty.\<close>

definition current_text :: "LogPersisterRotator \<Rightarrow> FileSystem \<Rightarrow> char list" where
  "current_text r fs =
     (if m_needRotate r \<or> \<not> fs_exists (m_currentLogFileName r) fs \<or> \<not> m_currentLogOutput_open r then []
      else fs_content (m_currentLogFileName r) fs)"

lemma Rotate_current:
  assumes "\<forall>p. env_open env p" "m_infoFilePath r \<noteq> new_log_name env (r\<lparr>m_currentLogFileIdx := m_currentLogFileIdx r + 1\<rparr>)"
  shows "fs_content (m_currentLogFileName (fst (Rotate env r fs))) (snd (Rotate env r fs)) = []"
    "m_currentLogOutput_open (fst (Rotate env r fs))"
  using assms
  by (simp_all add: Rotate_def CreateLogFile_def UpdateRotateNumber_def WriteRecoveryInfo_def Let_def split_beta)

lemma Input_appends:
  assumes "buf \<noteq> []" "\<forall>p. env_open env p" "m_infoFilePath r \<noteq> new_log_name env (r\<lparr>m_currentLogFileIdx := m_currentLogFileIdx r + 1\<rparr>)"
    and "Input env buf r fs = (e, r', fs')"
  shows "fs_content (m_currentLogFileName r') fs' = current_text r fs @ buf"
proof -
  have create: "m_currentLogOutput_open (fst (CreateLogFile env r fs))"
      "fs_content (m_currentLogFileName (fst (CreateLogFile env r fs))) (snd (CreateLogFile env r fs)) = []"
    using assms(2) by (simp_all add: CreateLogFile_def Let_def)
  show ?thesis
    using assms(1,4) create Rotate_current [OF assms(2,3), of fs]
    by (auto simp: Input_def current_text_def fs_append_def Let_def split_beta split: if_splits)
qed

text \<open>The bytes a compressor makes of the plain buffer.\<close>

definition encoded :: "PersistEnv \<Rightarrow> LogCompress \<Rightarrow> LogPersisterBuffer \<Rightarrow> char list option" where
  "encoded env c i =
     (case c of
        NoneCompressor \<Rightarrow> Some i
      | ZlibCompressor \<Rightarrow> zlib_data (pe_deflate env) i
      | ZstdCompressor \<Rightarrow> (case pe_zstd env of None \<Rightarrow> None | Some z \<Rightarrow> zstd_data z i))"

lemma CompressPlain_encoded:
  assumes "m_compressor lp = Some c" "m_compressBuffer lp = []" "encoded env c (m_mappedPlainLogFile lp) = Some z"
    and "length z \<le> MAX_PERSISTER_BUFFER_SIZE"
  shows "CompressPlain env lp = (0, lp\<lparr>m_compressBuffer := z\<rparr>)"
proof -
  have "Compress (pe_deflate env) (pe_zstd env) c (m_mappedPlainLogFile lp) [] = (0, z)"
    using assms(3,4) none_compress.appends [of _ z "[]"] zlib_compress.appends [of "pe_deflate env" _ z "[]"] zstd_compress.appends [of _ _ z "[]"]
    by (cases c) (auto simp: encoded_def Compress_def split: option.splits)
  then show ?thesis using assms(1,2) by (simp add: CompressPlain_def)
qed

lemma WriteUncompressedLogs_fits:
  assumes "length line < 65536" "length (m_mappedPlainLogFile lp) + length line \<le> MAX_PERSISTER_BUFFER_SIZE"
  shows "WriteUncompressedLogs line lp = (True, lp\<lparr>m_mappedPlainLogFile := m_mappedPlainLogFile lp @ line\<rparr>)"
proof (cases "line = [] \<and> length (m_mappedPlainLogFile lp) = MAX_PERSISTER_BUFFER_SIZE")
  case True
  then show ?thesis by (simp add: WriteUncompressedLogs_def memcpy_s_def)
next
  case False
  then have "0 < MAX_PERSISTER_BUFFER_SIZE - length (m_mappedPlainLogFile lp)"
    using assms(2) by (cases line) auto
  then show ?thesis
    using assms unat_u16_small [OF assms(1)]
    by (simp add: WriteUncompressedLogs_def memcpy_s_fits Let_def del: MAX_PERSISTER_BUFFER_SIZE_def)
qed

lemma WriteUncompressedLogs_full:
  assumes "length line < 65536" "MAX_PERSISTER_BUFFER_SIZE < length (m_mappedPlainLogFile lp) + length line"
    and "length (m_mappedPlainLogFile lp) \<le> MAX_PERSISTER_BUFFER_SIZE"
  shows "WriteUncompressedLogs line lp = (False, lp)"
proof -
  have "MAX_PERSISTER_BUFFER_SIZE - length (m_mappedPlainLogFile lp) < length line" using assms(2,3) by linarith
  then show ?thesis
    using unat_u16_small [OF assms(1)] by (simp add: WriteUncompressedLogs_def Let_def del: MAX_PERSISTER_BUFFER_SIZE_def)
qed

lemma WriteCompressedLogs_effect:
  assumes "m_fileRotator lp = Some r" "m_mappedPlainLogFile lp \<noteq> []"
    and "Input (pe_file env) (m_compressBuffer lp) r fs = (e, r', fs')"
  shows "\<exists>lp'. WriteCompressedLogs env lp fs = (lp', fs') \<and> m_mappedPlainLogFile lp' = [] \<and> m_compressBuffer lp' = [] \<and>
     m_fileRotator lp' \<in> {Some r', Some (FinishInput r')} \<and> m_startMsg lp' = m_startMsg lp \<and> m_compressor lp' = m_compressor lp"
  using assms by (simp add: WriteCompressedLogs_def Let_def)

text \<open>The name and the content of the file a rotator writes to do not change when the input is finished.\<close>

lemma FinishInput_name [simp]: "m_currentLogFileName (FinishInput r) = m_currentLogFileName r"
  by (simp add: FinishInput_def)

text \<open>
  C24: A job whose compressor works loses no log. A formatted log of fewer than 65536 characters is
  either appended to the plain buffer and nothing else changes, or the whole buffer, as the
  compressor encodes it, is first appended to what the current file holds, or begins a new file when
  a rotation is due, and the log begins the empty buffer. The call succeeds whatever the fill level.
  Files can be opened, the compress buffer was empty, the recovery file is not taken for a log file,
  and the encoding of a buffer that is not empty is not empty and fits the compress buffer, as it
  always does without compression.
\<close>

theorem WriteLogData_keeps_log:
  assumes job: "m_compressor lp = Some c" "m_fileRotator lp = Some r" "m_compressBuffer lp = []"
      "length (m_mappedPlainLogFile lp) \<le> MAX_PERSISTER_BUFFER_SIZE"
    and code: "encoded env c (m_mappedPlainLogFile lp) = Some z" "length z \<le> MAX_PERSISTER_BUFFER_SIZE" "m_mappedPlainLogFile lp \<noteq> [] \<Longrightarrow> z \<noteq> []"
    and line: "length (format_log env d) < 65536" and env: "\<forall>p. env_open (pe_file env) p"
    and info: "m_infoFilePath r \<noteq> new_log_name (pe_file env) (r\<lparr>m_currentLogFileIdx := m_currentLogFileIdx r + 1\<rparr>)"
  shows "\<exists>lp' r' fs'. WriteLogData env d lp fs = (0, lp', fs') \<and> m_fileRotator lp' = Some r' \<and> m_compressBuffer lp' = [] \<and>
     (m_mappedPlainLogFile lp' = m_mappedPlainLogFile lp @ format_log env d \<and> r' = r \<and> fs' = fs \<or>
      m_mappedPlainLogFile lp' = format_log env d \<and>
      fs_content (m_currentLogFileName r') fs' = current_text r fs @ z)"
proof (cases "length (m_mappedPlainLogFile lp) + length (format_log env d) \<le> MAX_PERSISTER_BUFFER_SIZE")
  case True
  from WriteUncompressedLogs_fits [OF line True] show ?thesis
    using job by (simp add: WriteLogData_def)
next
  case False
  let ?plain = "m_mappedPlainLogFile lp"
  have full: "WriteUncompressedLogs (format_log env d) lp = (False, lp)"
    using False line job(4) by (intro WriteUncompressedLogs_full) simp_all
  have ne: "?plain \<noteq> []" using False line by auto
  define lp2 where "lp2 = lp\<lparr>m_compressBuffer := z\<rparr>"
  have comp: "CompressPlain env lp = (0, lp2)"
    using CompressPlain_encoded [OF job(1,3) code(1,2)] by (simp add: lp2_def)
  obtain e r' fs' where inp: "Input (pe_file env) (m_compressBuffer lp2) r fs = (e, r', fs')" by (metis prod_cases3)
  have "m_fileRotator lp2 = Some r" "m_mappedPlainLogFile lp2 \<noteq> []" using job ne by (simp_all add: lp2_def)
  from WriteCompressedLogs_effect [OF this inp] obtain lp3 where
    lp3: "WriteCompressedLogs env lp2 fs = (lp3, fs')" "m_mappedPlainLogFile lp3 = []" "m_compressBuffer lp3 = []"
      "m_fileRotator lp3 \<in> {Some r', Some (FinishInput r')}" by blast
  have again: "WriteUncompressedLogs (format_log env d) lp3 = (True, lp3\<lparr>m_mappedPlainLogFile := format_log env d\<rparr>)"
    using WriteUncompressedLogs_fits [OF line, of lp3] lp3(2) line by simp
  obtain r3 where r3: "m_fileRotator lp3 = Some r3" "m_currentLogFileName r3 = m_currentLogFileName r'"
    using lp3(4) by auto
  have "fs_content (m_currentLogFileName r3) fs' = current_text r fs @ z"
    using Input_appends [OF _ env info inp] code(3) [OF ne] r3(2) by (simp add: lp2_def)
  then show ?thesis
    using full comp lp3 again r3(1) by (simp add: WriteLogData_def)
qed

section \<open>A line of 64 KiB\<close>

text \<open>
  C25: A formatted log of 65536 characters or more that is longer than the rest of the buffer, but
  whose length modulo 65536 is not, is dropped with the result \<open>0\<close>: the check of the free space uses the length cut to
  16 bits.
\<close>

theorem long_line_dropped:
  assumes "65536 \<le> length (format_log env d)" "length (m_mappedPlainLogFile lp) \<le> MAX_PERSISTER_BUFFER_SIZE"
    and "length (format_log env d) mod 65536 + length (m_mappedPlainLogFile lp) \<le> MAX_PERSISTER_BUFFER_SIZE"
    and "65536 < length (format_log env d) + length (m_mappedPlainLogFile lp)"
  shows "WriteLogData env d lp fs = (0, lp, fs)"
  using assms by (auto simp: WriteLogData_def WriteUncompressedLogs_def memcpy_s_def unat_of_nat Let_def)

section \<open>Idle jobs\<close>

definition force_writes :: "PersistEnv \<Rightarrow> nat \<Rightarrow> LogPersister \<times> FileSystem \<Rightarrow> LogPersister \<times> FileSystem" where
  "force_writes env n = ((\<lambda>(lp, fs). ForceWrite env lp fs) ^^ n)"

lemma ForceWrite_idle:
  assumes "m_compressor lp = Some ZlibCompressor" "m_mappedPlainLogFile lp = []"
  shows "ForceWrite env lp fs = (lp\<lparr>m_compressBuffer := snd (ZlibCompress (pe_deflate env) [] (m_compressBuffer lp))\<rparr>, fs)"
  using assms by (simp add: ForceWrite_def CompressPlain_def Compress_def WriteCompressedLogs_def split_beta split: option.split)

lemma force_writes_idle:
  assumes "m_compressor lp = Some ZlibCompressor" "m_mappedPlainLogFile lp = []"
  shows "force_writes env n (lp, fs) =
    (lp\<lparr>m_compressBuffer := ((\<lambda>out. snd (ZlibCompress (pe_deflate env) [] out)) ^^ n) (m_compressBuffer lp)\<rparr>, fs)"
  using assms by (induction n) (simp_all add: force_writes_def ForceWrite_idle)

text \<open>
  C26: An idle job with zlib compression loses logs. Every idle interval compresses the empty
  plain buffer and appends the resulting empty stream to the compression buffer, which is only
  reset when there was something to write. Once the free space is smaller than the next
  compressed text, the flush ignores the failed compression, writes the stale empty streams and
  discards the text.
\<close>

theorem idle_job_loses_logs:
  assumes job: "m_compressor lp = Some ZlibCompressor" "m_fileRotator lp = Some r" "m_mappedPlainLogFile lp = []"
      "m_compressBuffer lp = []"
    and empty: "zlib_data (pe_deflate env) [] = Some z" "z \<noteq> []" "n * length z \<le> MAX_PERSISTER_BUFFER_SIZE"
    and pending: "t \<noteq> []" "zlib_data (pe_deflate env) t = Some zt" "MAX_PERSISTER_BUFFER_SIZE < n * length z + length zt"
    and idle: "force_writes env n (lp, fs) = (lp1, fs1)"
    and flush: "ForceWrite env (lp1\<lparr>m_mappedPlainLogFile := t\<rparr>) fs1 = (lp2, fs2)"
  shows "fs1 = fs \<and> m_compressBuffer lp1 = concat (replicate n z) \<and>
    m_mappedPlainLogFile lp2 = [] \<and> m_compressBuffer lp2 = [] \<and>
    fs2 = snd (snd (Input (pe_file env) (concat (replicate n z)) r fs))"
proof -
  have lp1: "lp1 = lp\<lparr>m_compressBuffer := concat (replicate n z)\<rparr>" "fs1 = fs"
    using idle force_writes_idle [OF job(1,3)] zlib_compress.repeated_fills [of "pe_deflate env" "[]" z n, OF empty] job(4)
    by auto
  have len: "length (concat (replicate n z)) = n * length z" by (induction n) auto
  have failed: "ZlibCompress (pe_deflate env) t (concat (replicate n z)) = (- 1, concat (replicate n z))"
    using pending by (intro zlib_compress.fails) (simp add: len)
  obtain e r' fs' where inp: "Input (pe_file env) (concat (replicate n z)) r fs = (e, r', fs')" by (metis prod_cases3)
  let ?lp = "lp1\<lparr>m_mappedPlainLogFile := t\<rparr>"
  have "CompressPlain env ?lp = (- 1, ?lp)"
    using failed job by (simp add: CompressPlain_def Compress_def lp1)
  with WriteCompressedLogs_effect [of ?lp r env fs e r' fs'] inp job pending(1) flush lp1
  show ?thesis by (auto simp: ForceWrite_def)
qed

section \<open>Unique ids and paths\<close>

definition job_path :: "LogPersister \<Rightarrow> string" where
  "job_path lp = c_str (sm_filePath (m_startMsg lp))"

definition job_id :: "LogPersister \<Rightarrow> u32" where
  "job_id lp = sm_jobId (m_startMsg lp)"

inductive reg_step :: "LogPersister list \<times> HilogBuffer \<times> FileSystem \<Rightarrow> LogPersister list \<times> HilogBuffer \<times> FileSystem \<Rightarrow> bool" where
  init: "Persister_Init env info restore (LogPersister_new rid) regs fs = (ret, lp, regs', fs') \<Longrightarrow>
     reg_step (regs, b, fs) (regs', b', fs')"
| kill: "Kill env jid regs b fs = (ret, regs', b', fs') \<Longrightarrow> reg_step (regs, b, fs) (regs', b', fs')"
| refresh: "Refresh env rx ts tm timeout jid regs b fs = Inr (ret, regs', b', fs') \<Longrightarrow> reg_step (regs, b, fs) (regs', b', fs')"
| turn: "lp \<in> set regs \<Longrightarrow> ReceiveLog env rx ts tm timeout lp b fs = Inr (lp', b', fs') \<Longrightarrow>
     reg_step (regs, b, fs) (put_job lp' regs, b', fs')"
| start: "lp \<in> set regs \<Longrightarrow> reg_step (regs, b, fs) (put_job (Start lp) regs, b, fs)"

inductive reg_reach :: "LogPersister list \<times> HilogBuffer \<times> FileSystem \<Rightarrow> bool" where
  empty: "reg_reach ([], b, fs)"
| step: "reg_reach s \<Longrightarrow> reg_step s s' \<Longrightarrow> reg_reach s'"

definition reg_inv :: "LogPersister list \<Rightarrow> bool" where
  "reg_inv regs \<longleftrightarrow> distinct (map job_id regs) \<and> distinct (map job_path regs) \<and> list_all m_inited regs"

lemma WriteUncompressedLogs_msg:
  "m_startMsg (snd (WriteUncompressedLogs line lp)) = m_startMsg lp \<and> m_inited (snd (WriteUncompressedLogs line lp)) = m_inited lp"
  by (simp add: WriteUncompressedLogs_def Let_def split_beta)

lemma WriteCompressedLogs_msg:
  "m_startMsg (fst (WriteCompressedLogs env lp fs)) = m_startMsg lp \<and> m_inited (fst (WriteCompressedLogs env lp fs)) = m_inited lp"
  by (simp add: WriteCompressedLogs_def Let_def split_beta split: option.split)

lemma CompressPlain_msg:
  "m_startMsg (snd (CompressPlain env lp)) = m_startMsg lp \<and> m_inited (snd (CompressPlain env lp)) = m_inited lp"
  by (simp add: CompressPlain_def Let_def split_beta split: option.split)

lemmas msg_kept = WriteUncompressedLogs_msg WriteCompressedLogs_msg CompressPlain_msg

lemma Prepare_msg:
  "m_startMsg (fst (snd (PrepareUncompressedFile env par restore lp fs))) = m_startMsg lp \<and>
   m_inited (fst (snd (PrepareUncompressedFile env par restore lp fs))) = m_inited lp"
  by (simp add: PrepareUncompressedFile_def Let_def split_beta msg_kept split: option.split)

lemma ReceiveLog_msg:
  "ReceiveLog env rx ts tm timeout lp b fs = Inr (lp', b', fs') \<Longrightarrow> m_startMsg lp' = m_startMsg lp \<and> m_inited lp' = m_inited lp"
  by (auto simp: ReceiveLog_def WriteLogData_def ForceWrite_def Let_def split_beta msg_kept split: sum.splits option.splits if_splits)

lemma Init_msg:
  assumes "Persister_Init env info restore lp regs fs = (ret, lp', regs', fs')" "\<not> m_inited lp"
  shows "regs' = regs \<or> (regs' = regs @ [lp'] \<and> m_startMsg lp' = ri_msg info \<and> m_inited lp' \<and>
     \<not> CheckRegistered (sm_jobId (ri_msg info)) (c_str (sm_filePath (ri_msg info))) regs)"
proof -
  have c: "m_startMsg (snd (InitCompression l)) = m_startMsg l" for l
    by (simp add: InitCompression_def Let_def)
  have r: "m_startMsg (fst (snd (InitFileRotator env info restore l f))) = m_startMsg l" for l f
    by (simp add: InitFileRotator_def Let_def split_beta)
  show ?thesis
    using assms c r Prepare_msg by (auto simp: Persister_Init_def RegisterLogPersister_def Let_def split_beta split: if_splits)
qed

lemma Deregister_subseq: "subseq (DeregisterLogPersister lp regs) regs"
  by (induction regs) auto

lemma distinct_subseq: "subseq xs ys \<Longrightarrow> distinct ys \<Longrightarrow> distinct xs"
  by (induction rule: list_emb.induct) (auto elim: list_emb_set)

lemma reg_inv_subseq:
  assumes "subseq regs' regs" "reg_inv regs"
  shows "reg_inv regs'"
proof -
  have "set regs' \<subseteq> set regs" using assms(1) by (auto elim: list_emb_set)
  moreover have "distinct (map job_id regs')" "distinct (map job_path regs')"
    using assms(2) distinct_subseq [OF subseq_map [OF assms(1)]] by (auto simp: reg_inv_def)
  ultimately show ?thesis using assms(2) by (auto simp: reg_inv_def list_all_iff)
qed

text \<open>A turn of a job keeps its message, so the register keeps ids and paths.\<close>

lemma reg_inv_put_job:
  assumes "reg_inv regs" "lp \<in> set regs" "m_startMsg lp' = m_startMsg lp" "m_inited lp'"
  shows "reg_inv (put_job lp' regs)"
proof -
  have "l = lp" if "l \<in> set regs" "job_id l = job_id lp" for l
    using assms(1,2) that by (auto simp: reg_inv_def distinct_map inj_on_def)
  then have "map job_id (put_job lp' regs) = map job_id regs" "map job_path (put_job lp' regs) = map job_path regs"
    using assms(3) by (auto simp: put_job_def job_id_def job_path_def)
  moreover have "list_all m_inited (put_job lp' regs)"
    using assms(1,4) by (auto simp: reg_inv_def put_job_def list_all_iff)
  ultimately show ?thesis using assms(1) by (simp add: reg_inv_def)
qed

lemma reg_inv_turn:
  assumes "reg_inv regs" "lp \<in> set regs" "ReceiveLog env rx ts tm timeout lp b fs = Inr (lp', b', fs')"
  shows "reg_inv (put_job lp' regs)"
proof (rule reg_inv_put_job [OF assms(1,2)])
  have "m_inited lp" using assms(1,2) by (auto simp: reg_inv_def list_all_iff)
  then show "m_startMsg lp' = m_startMsg lp" "m_inited lp'" using ReceiveLog_msg [OF assms(3)] by simp_all
qed

lemma reg_step_inv:
  assumes "reg_step s s'" "reg_inv (fst s)"
  shows "reg_inv (fst s')"
  using assms(1)
proof cases
  case (init env info restore rid regs fs ret lp regs' fs' b b')
  consider "regs' = regs" | "regs' = regs @ [lp]" "m_startMsg lp = ri_msg info" "m_inited lp"
      "\<not> CheckRegistered (sm_jobId (ri_msg info)) (c_str (sm_filePath (ri_msg info))) regs"
    using Init_msg [OF init(3)] by (auto simp: LogPersister_new_def)
  then show ?thesis
  proof cases
    case 1
    then show ?thesis using init(1,2) assms(2) by simp
  next
    case 2
    then have "job_id lp \<notin> job_id ` set regs" "job_path lp \<notin> job_path ` set regs"
      by (auto simp: CheckRegistered_def list_ex_iff job_id_def job_path_def)
    then show ?thesis using 2 init(1,2) assms(2) by (simp add: reg_inv_def)
  qed
next
  case (kill env jid regs b fs ret regs' b' fs')
  then have "subseq regs' regs"
    by (auto simp: Kill_def Deinit_def Let_def split_beta Deregister_subseq split: option.splits if_splits)
  then show ?thesis using kill assms(2) reg_inv_subseq by simp
next
  case (refresh env rx ts tm timeout jid regs b fs ret regs' b' fs')
  then show ?thesis
  proof (cases "GetLogPersisterById jid regs")
    case None
    then show ?thesis using refresh assms(2) by (simp add: Refresh_def)
  next
    case (Some lp)
    then have lp: "lp \<in> set regs" by (auto simp: GetLogPersisterById_def find_Some_iff)
    obtain lp' where "ReceiveLog env rx ts tm timeout lp b fs = Inr (lp', b', fs')" "regs' = put_job lp' regs"
      using refresh(3) Some by (auto simp: Refresh_def split: sum.splits)
    moreover have "reg_inv (put_job lp' regs)"
      using refresh(1) assms(2) by (intro reg_inv_turn [OF _ lp calculation(1)]) simp
    ultimately show ?thesis using refresh(2) by simp
  qed
next
  case (turn lp regs env rx ts tm timeout b fs lp' b' fs')
  have "reg_inv (put_job lp' regs)" using turn(1) assms(2) by (intro reg_inv_turn [OF _ turn(3,4)]) simp
  then show ?thesis using turn(2) by simp
next
  case (start lp regs b fs)
  then have "m_inited lp" using assms(2) by (auto simp: reg_inv_def list_all_iff)
  then have "reg_inv (put_job (Start lp) regs)"
    using start(1) assms(2) by (intro reg_inv_put_job [OF _ start(3)]) (simp_all add: Start_def)
  then show ?thesis using start(2) by simp
qed

text \<open>
  C27: In every state of the register of persist jobs reached by starting, running, refreshing and
  killing jobs, no two jobs have the same id or write to the same path, and every registered job
  is initialised.
\<close>

theorem register_unique:
  assumes "reg_reach s"
  shows "distinct (map job_id (fst s)) \<and> distinct (map job_path (fst s)) \<and> list_all m_inited (fst s)"
proof -
  have "reg_inv (fst s)"
    using assms by (induction rule: reg_reach.induct) (auto simp: reg_inv_def [of "[]"] dest: reg_step_inv)
  then show ?thesis by (simp add: reg_inv_def)
qed

lemma parent_dir_eq: "CHR ''/'' \<notin> set name \<Longrightarrow> parent_dir (dir @ CHR ''/'' # name) = dir"
  by (simp add: parent_dir_def dropWhile_append)

section \<open>Restored jobs\<close>

lemma Input_rotated:
  assumes "buf \<noteq> []" "\<forall>p. env_open env p" "m_needRotate r"
    "m_infoFilePath r \<noteq> new_log_name env (r\<lparr>m_currentLogFileIdx := m_currentLogFileIdx r + 1\<rparr>)"
    "Input env buf r fs = (e, r', fs')"
  shows "fs_content (m_currentLogFileName r') fs' = buf"
  using Input_appends [OF assms(1,2,4,5)] assms(3) by (simp add: current_text_def)

text \<open>The compressor that \<open>InitCompression\<close> chooses.\<close>

definition compressor_of :: "u16 \<Rightarrow> LogCompress option" where
  "compressor_of alg =
     (if unat alg = COMPRESS_TYPE_NONE then Some NoneCompressor
      else if unat alg = COMPRESS_TYPE_ZLIB then Some ZlibCompressor
      else if unat alg = COMPRESS_TYPE_ZSTD then Some ZstdCompressor else None)"

lemma Init_steps:
  assumes init: "Persister_Init env info True (LogPersister_new rid) regs fs = (0, lp, regs', fs')"
    and alg: "compressor_of (sm_compressAlg (ri_msg info)) = Some cm"
    and path: "c_str (sm_filePath (ri_msg info)) = dir @ CHR ''/'' # c # name" "CHR ''/'' \<notin> set (c # name)" "c \<noteq> CHR ''.''"
    and env: "\<forall>q. env_open (pe_file env) q"
    and lp1: "lp1 = (LogPersister_new rid)\<lparr>m_startMsg := ri_msg info, m_compressBuffer := [], m_compressor := Some cm\<rparr>"
  obtains r fs2 lp3 where "PrepareUncompressedFile env dir True (lp1\<lparr>m_fileRotator := Some r\<rparr>) fs2 = (0, lp3, fs')"
    "lp = lp3\<lparr>m_inited := True\<rparr>" "regs' = regs @ [lp]" "m_needRotate r"
    "m_infoFilePath r \<noteq> new_log_name (pe_file env) (r\<lparr>m_currentLogFileIdx := m_currentLogFileIdx r + 1\<rparr>)"
proof -
  let ?path = "c_str (sm_filePath (ri_msg info))"
  have dir: "parent_dir ?path = dir" using path(1) parent_dir_eq [OF path(2)] by simp
  have ic: "InitCompression ((LogPersister_new rid)\<lparr>m_startMsg := ri_msg info\<rparr>) = (RET_SUCCESS, lp1)"
    using alg by (auto simp: InitCompression_def lp1 LogPersister_new_def compressor_of_def Let_def split: if_splits)
  obtain r fs2 where rot: "InitFileRotator env info True lp1 fs = (RET_SUCCESS, lp1\<lparr>m_fileRotator := Some r\<rparr>, fs2)"
    and r: "m_needRotate r" "m_logsPath r = ?path"
      "m_infoFilePath r = dir @ ''/'' @ ''.'' @ AUXILLARY_PERSISTER_PREFIX @ Uint2DecStr (sm_jobId (ri_msg info)) @ ''.info''"
    using env dir by (simp add: InitFileRotator_def Rotator_Init_def OpenInfoFile_def LogPersisterRotator_new_def SetFileIndex_def
        UpdateRotateNumber_def Let_def lp1)
  have other: "m_infoFilePath r \<noteq> new_log_name (pe_file env) (r\<lparr>m_currentLogFileIdx := m_currentLogFileIdx r + 1\<rparr>)"
    using path(1,3) by (simp add: r new_log_name_def)
  obtain r3 lp3 fs3 where q: "PrepareUncompressedFile env dir True (lp1\<lparr>m_fileRotator := Some r\<rparr>) fs2 = (r3, lp3, fs3)"
    by (metis prod_cases3)
  have "r3 = 0" "lp = lp3\<lparr>m_inited := True\<rparr>" "fs' = fs3" "regs' = regs @ [lp]"
    using init ic rot q dir unfolding Persister_Init_def
    by (auto simp: Let_def LogPersister_new_def RegisterLogPersister_def split: if_splits)
  then show ?thesis using that q r(1) other by blast
qed

text \<open>
  C28: A restored job writes what its predecessor had gathered but not written. After a
  successful \<open>Init\<close> with \<open>restore\<close> the job is registered behind the others, its plain buffer is
  empty, and the content of the plain buffer found in the auxiliary file, as the compressor of the
  job encodes it, is the whole content of a new log file. Files can be opened, the name of the job
  does not begin with a dot, and the encoding is not empty and fits the compress buffer, as it always
  does without compression.
\<close>

theorem restore_writes_plain:
  assumes init: "Persister_Init env info True (LogPersister_new rid) regs fs = (0, lp, regs', fs')"
    and alg: "compressor_of (sm_compressAlg (ri_msg info)) = Some cm"
    and path: "c_str (sm_filePath (ri_msg info)) = dir @ CHR ''/'' # c # name" "CHR ''/'' \<notin> set (c # name)" "c \<noteq> CHR ''.''"
    and plain: "pe_recover env (dir @ ''/'' @ ''.'' @ AUXILLARY_PERSISTER_PREFIX @ Uint2DecStr (sm_jobId (ri_msg info))) = Some p" "p \<noteq> []"
    and code: "encoded env cm p = Some z" "z \<noteq> []" "length z \<le> MAX_PERSISTER_BUFFER_SIZE"
    and env: "\<forall>q. env_open (pe_file env) q"
  shows "\<exists>r. regs' = regs @ [lp] \<and> m_fileRotator lp = Some r \<and> fs_content (m_currentLogFileName r) fs' = z \<and> m_mappedPlainLogFile lp = []"
proof -
  define lp1 where "lp1 = (LogPersister_new rid)\<lparr>m_startMsg := ri_msg info, m_compressBuffer := [], m_compressor := Some cm\<rparr>"
  obtain r fs2 lp3 where prep: "PrepareUncompressedFile env dir True (lp1\<lparr>m_fileRotator := Some r\<rparr>) fs2 = (0, lp3, fs')"
    and lp: "lp = lp3\<lparr>m_inited := True\<rparr>" "regs' = regs @ [lp]"
    and r: "m_needRotate r" "m_infoFilePath r \<noteq> new_log_name (pe_file env) (r\<lparr>m_currentLogFileIdx := m_currentLogFileIdx r + 1\<rparr>)"
    using Init_steps [OF init alg path env lp1_def] by blast
  have mm: "pe_mmap env"
    using prep by (auto simp: PrepareUncompressedFile_def Let_def split: option.splits if_splits)
  define lp2 where "lp2 = lp1\<lparr>m_fileRotator := Some r, m_plainLogFilePath := dir @ ''/'' @ ''.'' @ AUXILLARY_PERSISTER_PREFIX @
      Uint2DecStr (sm_jobId (ri_msg info)), m_mappedPlainLogFile := p\<rparr>"
  have cp: "CompressPlain env lp2 = (0, lp2\<lparr>m_compressBuffer := z\<rparr>)"
    using code(1,3) by (intro CompressPlain_encoded [of _ cm]) (simp_all add: lp2_def lp1_def)
  obtain e r' fs4 where inp: "Input (pe_file env) (m_compressBuffer (lp2\<lparr>m_compressBuffer := z\<rparr>)) r fs2 = (e, r', fs4)" by (metis prod_cases3)
  have "m_fileRotator (lp2\<lparr>m_compressBuffer := z\<rparr>) = Some r" "m_mappedPlainLogFile (lp2\<lparr>m_compressBuffer := z\<rparr>) \<noteq> []"
    using plain by (simp_all add: lp2_def)
  from WriteCompressedLogs_effect [OF this inp] obtain lp4 where lp4: "WriteCompressedLogs env (lp2\<lparr>m_compressBuffer := z\<rparr>) fs2 = (lp4, fs4)"
      "m_mappedPlainLogFile lp4 = []" "m_fileRotator lp4 \<in> {Some r', Some (FinishInput r')}" by blast
  have "lp1\<lparr>m_fileRotator := Some r, m_plainLogFilePath := dir @ ''/'' @ ''.'' @ AUXILLARY_PERSISTER_PREFIX @
      Uint2DecStr (sm_jobId (m_startMsg lp1)), m_mappedPlainLogFile := p\<rparr> = lp2" by (simp add: lp2_def lp1_def)
  then have "PrepareUncompressedFile env dir True (lp1\<lparr>m_fileRotator := Some r\<rparr>) fs2 = (0, lp4, fs4)"
    using plain mm lp4(1) cp by (simp add: PrepareUncompressedFile_def Let_def lp1_def)
  then have "lp3 = lp4" "fs' = fs4" using prep by auto
  moreover have "fs_content (m_currentLogFileName r') fs4 = z"
    using Input_rotated [OF _ env r(1,2) inp] code(2) by simp
  ultimately show ?thesis using lp lp4(2,3) by auto
qed

section \<open>Examples\<close>

definition demo_persist_env :: PersistEnv where
  "demo_persist_env = \<lparr>pe_file = demo_file_env,
     pe_deflate = \<lparr>zl_init = True, zl_bound = (\<lambda>n. n + 100),
       zl_deflate = (\<lambda>calls. Some (length (fst (last calls)), replicate 20 (CHR ''z'') @ fst (last calls)))\<rparr>, pe_zstd = None, pe_localtime = demo_time,
     pe_wlength = length, pe_recover = (\<lambda>_. Some ''kept''), pe_mmap = True\<rparr>"

definition demo_info :: PersistRecoveryInfo where
  "demo_info = \<lparr>ri_index = 4, ri_msg = \<lparr>sm_compressAlg = 0, sm_filePath = ''/data/log/hilog/hilog'' @ [NUL], sm_fileSize = 65536,
     sm_fileNum = 2, sm_jobId = 10, sm_filter = demo_filter\<rparr>\<rparr>"

definition demo_job :: LogPersister where
  "demo_job = (LogPersister_new 0)\<lparr>m_startMsg := ri_msg demo_info, m_compressor := Some ZlibCompressor,
     m_fileRotator := Some demo_rotator, m_inited := True\<rparr>"

definition demo_log :: "string \<Rightarrow> HilogData" where
  "demo_log t = \<lparr>d_len = of_nat (length t + 3), d_version = 0, d_type = 3, d_level = 4, d_tagLen = 2, d_tv_sec = 1501929000,
     d_tv_nsec = 7000000, d_mono_sec = 100, d_pid = 812, d_tid = 815, d_domain = 0xD00002D,
     d_mem = Some (map Some (''t'' @ [NUL] @ t @ [NUL]))\<rparr>"

text \<open>The formatted form of an example log: every line has 43 characters in front.\<close>

lemma demo_prefix: "length (PrintLogPrefix demo_time (content_of (demo_log t)) persist_format) = 43"
proof -
  let ?c = "content_of (demo_log t)"
  have tag: "d_tag (demo_log t) = ''t''" by (simp add: d_tag_def demo_log_def)
  have r2: "replicate 2 x = [x, x]" for x :: char by (simp add: numeral_2_eq_2)
  have a: "PrefixAccu ?c persist_format = (''.007'', True)"
    by (simp add: PrefixAccu_def content_of_def demo_log_def persist_format_def Num2Str.simps [of 10] digit_char_def pad_def r2)
  have "PrefixTime demo_time ?c persist_format = (''08-05 10:30:00'', True)"
    by (simp add: PrefixTime_def content_of_def persist_format_def demo_time_def dec2_def pad_def Num2Str.simps [of 10] digit_char_def)
  moreover have "length (PrefixSource ?c) = 25"
    by (simp add: PrefixSource_def content_of_def tag, simp add: demo_log_def Uint2DecStr_def Uint2HexStr_def ShortDomain_def
        pad_def Num2Str.simps [of 10] Num2Str.simps [of 16] digit_char_def GetLogTypePrefix_def LogLevel2ShortStr_def
        g_ShortLogLevels_def GetValue_def)
  ultimately show ?thesis using a by (simp add: PrintLogPrefix_def)
qed

lemma demo_log_content: "NUL \<notin> set t \<Longrightarrow> d_content (demo_log t) = t"
  by (simp add: d_content_def demo_log_def mem_str_map_Some)

lemma format_demo_log:
  assumes "NUL \<notin> set t" "\<forall>l \<in> set (split_lines [] t). length l < MAX_LOG_LEN"
  shows "length (format_log demo_persist_env (demo_log t)) = sum_list (map (\<lambda>l. length l + 44) (text_lines t))"
proof -
  have "c_log (content_of (demo_log t)) = t" using demo_log_content [OF assms(1)] by (simp add: content_of_def)
  then have "format_log demo_persist_env (demo_log t) =
      with_prefix (PrintLogPrefix demo_time (content_of (demo_log t)) persist_format) (text_lines t)"
    using LogPrint_lines [of persist_format "content_of (demo_log t)" demo_time length] assms(2)
    by (simp add: format_log_def demo_persist_env_def persist_format_def)
  then show ?thesis
    using demo_prefix [of t] by (simp add: with_prefix_def length_concat comp_def add.commute)
qed

text \<open>A log for a job with an empty buffer.\<close>

theorem WriteLogData_keeps_log_witness:
  "\<exists>lp' r' fs'. WriteLogData demo_persist_env (demo_log ''up'') (demo_job\<lparr>m_compressor := Some NoneCompressor\<rparr>) demo_files = (0, lp', fs') \<and>
     m_fileRotator lp' = Some r' \<and> m_mappedPlainLogFile lp' = format_log demo_persist_env (demo_log ''up'')"
proof -
  let ?job = "demo_job\<lparr>m_compressor := Some NoneCompressor\<rparr>"
  have line: "length (format_log demo_persist_env (demo_log ''up'')) < 65536"
    by (subst format_demo_log) (simp_all add: text_lines_def)
  have job: "m_compressor ?job = Some NoneCompressor" "m_fileRotator ?job = Some demo_rotator" "m_compressBuffer ?job = []"
      "length (m_mappedPlainLogFile ?job) \<le> MAX_PERSISTER_BUFFER_SIZE" "m_mappedPlainLogFile ?job = []"
    by (simp_all add: demo_job_def LogPersister_new_def)
  have code: "encoded demo_persist_env NoneCompressor (m_mappedPlainLogFile ?job) = Some []" by (simp add: encoded_def job(5))
  have "\<forall>p. env_open (pe_file demo_persist_env) p" by (simp add: demo_persist_env_def demo_file_env_def)
  moreover have "m_infoFilePath demo_rotator \<noteq> new_log_name (pe_file demo_persist_env) (demo_rotator\<lparr>m_currentLogFileIdx := m_currentLogFileIdx demo_rotator + 1\<rparr>)"
    by (simp add: demo_rotator_def new_log_name_def)
  ultimately show ?thesis
    using WriteLogData_keeps_log [OF job(1-4) code _ _ line, of demo_files] job(5) by auto
qed

lemma replicate_lines:
  "split_lines [] (concat (replicate n [CHR ''a'', NEWLINE])) = replicate n ''a'' @ [[]]"
  by (induction n) simp_all

theorem long_line_dropped_witness:
  "WriteLogData demo_persist_env (demo_log (concat (replicate 2000 [CHR ''a'', NEWLINE]))) demo_job demo_files = (0, demo_job, demo_files)"
proof -
  let ?t = "concat (replicate 2000 [CHR ''a'', NEWLINE])"
  have "length (format_log demo_persist_env (demo_log ?t)) = 2000 * 45"
    by (subst format_demo_log) (auto simp: replicate_lines [unfolded NEWLINE_def] text_lines_def sum_list_replicate)
  then show ?thesis
    by (intro long_line_dropped) (simp_all add: demo_job_def LogPersister_new_def)
qed

theorem idle_job_loses_logs_witness:
  "\<exists>lp1 fs1 lp2 fs2. force_writes demo_persist_env 3276 (demo_job, demo_files) = (lp1, fs1) \<and>
     ForceWrite demo_persist_env (lp1\<lparr>m_mappedPlainLogFile := ''text''\<rparr>) fs1 = (lp2, fs2) \<and>
     m_mappedPlainLogFile lp2 = [] \<and>
     fs2 = snd (snd (Input demo_file_env (concat (replicate 3276 (replicate 20 (CHR ''z'')))) demo_rotator demo_files))"
proof -
  obtain lp1 fs1 where s1: "force_writes demo_persist_env 3276 (demo_job, demo_files) = (lp1, fs1)" by fastforce
  obtain lp2 fs2 where s2: "ForceWrite demo_persist_env (lp1\<lparr>m_mappedPlainLogFile := ''text''\<rparr>) fs1 = (lp2, fs2)" by fastforce
  have d: "zlib_data (pe_deflate demo_persist_env) [] = Some (replicate 20 (CHR ''z''))"
    "zlib_data (pe_deflate demo_persist_env) ''text'' = Some (replicate 20 (CHR ''z'') @ ''text'')"
    by (simp_all add: zlib_data_def demo_persist_env_def chunks.simps deflate_loop.simps memcpy_s_def)
  have job: "m_compressor demo_job = Some ZlibCompressor" "m_fileRotator demo_job = Some demo_rotator"
    "m_mappedPlainLogFile demo_job = []" "m_compressBuffer demo_job = []"
    by (simp_all add: demo_job_def LogPersister_new_def)
  have "pe_file demo_persist_env = demo_file_env" by (simp add: demo_persist_env_def)
  with idle_job_loses_logs [OF job d(1) _ _ _ d(2) _ s1 s2] s1 s2 show ?thesis by simp
qed

lemma demo_init:
  "\<exists>lp fs'. Persister_Init demo_persist_env demo_info True (LogPersister_new 0) [] [] = (0, lp, [lp], fs')"
proof -
  obtain ret lp regs fs' where i: "Persister_Init demo_persist_env demo_info True (LogPersister_new 0) [] [] = (ret, lp, regs, fs')"
    by (metis prod_cases4)
  then have "ret = 0 \<and> regs = [lp]"
    by (auto simp: Persister_Init_def LogPersister_new_def demo_info_def demo_persist_env_def demo_file_env_def CheckRegistered_def
        InitCompression_def InitFileRotator_def Rotator_Init_def OpenInfoFile_def LogPersisterRotator_new_def UpdateRotateNumber_def
        PrepareUncompressedFile_def CompressPlain_def Compress_def NoneCompress_def append_compressed_ok RegisterLogPersister_def
        COMPRESS_TYPE_NONE_def Let_def split_beta)
  with i show ?thesis by simp
qed

theorem restore_writes_plain_witness:
  "\<exists>lp r fs'. Persister_Init demo_persist_env demo_info True (LogPersister_new 0) [] [] = (0, lp, [lp], fs') \<and>
     m_fileRotator lp = Some r \<and> fs_content (m_currentLogFileName r) fs' = ''kept''"
proof -
  obtain lp fs' where i: "Persister_Init demo_persist_env demo_info True (LogPersister_new 0) [] [] = (0, lp, [lp], fs')"
    using demo_init by blast
  have "c_str (sm_filePath (ri_msg demo_info)) = ''/data/log/hilog'' @ CHR ''/'' # CHR ''h'' # ''ilog''"
    by (simp add: demo_info_def)
  from restore_writes_plain [OF i _ this, of NoneCompressor "''kept''" "''kept''"]
  have "\<exists>r. m_fileRotator lp = Some r \<and> fs_content (m_currentLogFileName r) fs' = ''kept'' \<and> m_mappedPlainLogFile lp = []"
    by (simp add: demo_info_def demo_persist_env_def demo_file_env_def COMPRESS_TYPE_NONE_def compressor_of_def encoded_def)
  with i show ?thesis by blast
qed

theorem register_unique_witness:
  "\<exists>lp b fs'. reg_reach ([lp], b, fs') \<and> distinct (map job_path [lp]) \<and> m_inited lp"
proof -
  obtain lp fs' where i: "Persister_Init demo_persist_env demo_info True (LogPersister_new 0) [] [] = (0, lp, [lp], fs')"
    using demo_init by blast
  fix b :: HilogBuffer
  have "reg_reach ([lp], b, fs')"
    using reg_reach.step [OF reg_reach.empty [of b "[]"] reg_step.init [OF i, of b b]] .
  with register_unique [OF this] show ?thesis by (intro exI [of _ lp] exI [of _ b] exI [of _ fs']) simp
qed

end
