(* ===== verification/Hilog_Properties.thy ===== *)
theory Hilog_Properties
  imports Log_Utils
begin

text \<open>
  The system properties of \<open>properties.cpp\<close>: names, the cache \<open>CacheData\<close> in front of the
  parameter service, the switches and levels built on it, the uncached properties and the
  setters. The parameter service is not part of the repository. A call sees one state of it, a
  \<open>ParamSys\<close>: the commit id of the service, the handle of a name (\<open>-1\<close> when there is none), the
  commit id and the value of a handle. A setter is given the effect of \<open>SetParameter\<close>. The
  locks are tried, not awaited: \<open>locked\<close> says whether \<open>pthread_mutex_trylock\<close> succeeds.
\<close>

section \<open>Names\<close>

datatype PropType = PROP_PRIVATE | PROP_ONCE_DEBUG | PROP_PERSIST_DEBUG | PROP_GLOBAL_LOG_LEVEL
  | PROP_PERSIST_GLOBAL_LOG_LEVEL | PROP_DOMAIN_LOG_LEVEL | PROP_PERSIST_DOMAIN_LOG_LEVEL | PROP_TAG_LOG_LEVEL
  | PROP_PERSIST_TAG_LOG_LEVEL | PROP_DOMAIN_FLOWCTRL | PROP_PROCESS_FLOWCTRL | PROP_KMSG | PROP_BUFFER_SIZE
  | PROP_PROC_QUOTA | PROP_STATS_ENABLE | PROP_STATS_TAG_ENABLE | PROP_DOMAIN_QUOTA

fun GetPropertyName :: "PropType \<Rightarrow> string" where
  "GetPropertyName PROP_PRIVATE = ''hilog.private.on''"
| "GetPropertyName PROP_ONCE_DEBUG = ''hilog.debug.on''"
| "GetPropertyName PROP_PERSIST_DEBUG = ''persist.sys.hilog.debug.on''"
| "GetPropertyName PROP_GLOBAL_LOG_LEVEL = ''hilog.loggable.global''"
| "GetPropertyName PROP_PERSIST_GLOBAL_LOG_LEVEL = ''persist.sys.hilog.loggable.global''"
| "GetPropertyName PROP_DOMAIN_LOG_LEVEL = ''hilog.loggable.domain.''"
| "GetPropertyName PROP_PERSIST_DOMAIN_LOG_LEVEL = ''persist.sys.hilog.loggable.domain.''"
| "GetPropertyName PROP_TAG_LOG_LEVEL = ''hilog.loggable.tag.''"
| "GetPropertyName PROP_PERSIST_TAG_LOG_LEVEL = ''persist.sys.hilog.loggable.tag.''"
| "GetPropertyName PROP_DOMAIN_FLOWCTRL = ''hilog.flowctrl.domain.on''"
| "GetPropertyName PROP_PROCESS_FLOWCTRL = ''hilog.flowctrl.proc.on''"
| "GetPropertyName PROP_KMSG = ''persist.sys.hilog.kmsg.on''"
| "GetPropertyName PROP_BUFFER_SIZE = ''hilog.buffersize.''"
| "GetPropertyName PROP_PROC_QUOTA = ''hilog.quota.proc.''"
| "GetPropertyName PROP_STATS_ENABLE = ''persist.sys.hilog.stats''"
| "GetPropertyName PROP_STATS_TAG_ENABLE = ''persist.sys.hilog.stats.tag''"
| "GetPropertyName PROP_DOMAIN_QUOTA = ''hilog.quota.domain.''"

text \<open>Only the cached properties have a lock.\<close>

definition has_lock :: "PropType \<Rightarrow> bool" where
  "has_lock t \<longleftrightarrow> t \<notin> {PROP_KMSG, PROP_BUFFER_SIZE, PROP_PROC_QUOTA, PROP_STATS_ENABLE, PROP_STATS_TAG_ENABLE, PROP_DOMAIN_QUOTA}"

record ParamSys =
  GetSystemCommitId :: int
  FindParameter :: "string \<Rightarrow> int"
  GetParameterCommitId :: "int \<Rightarrow> int"
  GetParameterValue :: "int \<Rightarrow> string option"

definition LockByProp :: "(PropType \<Rightarrow> bool) \<Rightarrow> PropType \<Rightarrow> bool" where
  "LockByProp trylock t \<longleftrightarrow> has_lock t \<and> trylock t"

definition PropertyGet :: "ParamSys \<Rightarrow> string \<Rightarrow> string option" where
  "PropertyGet ps key =
     (let handle = FindParameter ps key in if handle = - 1 then None else GetParameterValue ps handle)"

definition PropertySet :: "(string \<Rightarrow> string \<Rightarrow> 'p \<Rightarrow> int \<times> 'p) \<Rightarrow> string \<Rightarrow> string \<Rightarrow> 'p \<Rightarrow> int \<times> 'p" where
  "PropertySet SetParameter key val p =
     (let (result, p') = SetParameter key val p in (if result < 0 then RET_FAIL else RET_SUCCESS, p'))"

section \<open>The cache\<close>

record 'a CacheData =
  m_handle :: int
  m_commit :: int
  m_sysCommit :: int
  m_value :: 'a
  m_defaultValue :: 'a
  m_propType :: PropType
  m_key :: string

definition CacheData_new :: "'a \<Rightarrow> PropType \<Rightarrow> string \<Rightarrow> 'a CacheData" where
  "CacheData_new defaultValue t suffix =
     \<lparr>m_handle = - 1, m_commit = - 1, m_sysCommit = - 1, m_value = defaultValue, m_defaultValue = defaultValue,
      m_propType = t, m_key = GetPropertyName t @ suffix\<rparr>"

definition getDirectValue :: "(string \<Rightarrow> 'a \<Rightarrow> 'a) \<Rightarrow> ParamSys \<Rightarrow> 'a CacheData \<Rightarrow> 'a \<times> 'a CacheData" where
  "getDirectValue conv ps c =
     (case GetParameterValue ps (m_handle c) of
        None \<Rightarrow> (m_defaultValue c, c)
      | Some raw \<Rightarrow> let v = conv raw (m_defaultValue c) in (v, c\<lparr>m_value := v\<rparr>))"

definition updateValue :: "(string \<Rightarrow> 'a \<Rightarrow> 'a) \<Rightarrow> ParamSys \<Rightarrow> 'a CacheData \<Rightarrow> 'a CacheData" where
  "updateValue conv ps c =
     (case GetParameterValue ps (m_handle c) of
        None \<Rightarrow> c\<lparr>m_value := m_defaultValue c\<rparr>
      | Some raw \<Rightarrow> c\<lparr>m_value := conv raw (m_defaultValue c)\<rparr>)"

definition getValue :: "(string \<Rightarrow> 'a \<Rightarrow> 'a) \<Rightarrow> (PropType \<Rightarrow> bool) \<Rightarrow> ParamSys \<Rightarrow> 'a CacheData \<Rightarrow> 'a \<times> 'a CacheData" where
  "getValue conv trylock ps c =
     (let sysCommitId = GetSystemCommitId ps in
      if sysCommitId = m_sysCommit c then (m_value c, c)
      else let c1 = c\<lparr>m_sysCommit := sysCommitId\<rparr>; handle = FindParameter ps (m_key c) in
           if m_handle c1 = - 1 \<and> handle = - 1 then (m_defaultValue c1, c1)
           else let c2 = (if m_handle c1 = - 1 then c1\<lparr>m_handle := handle\<rparr> else c1);
                    currentCommit = GetParameterCommitId ps (m_handle c2)
                in if LockByProp trylock (m_propType c2)
                   then let c3 = (if currentCommit \<noteq> m_commit c2 then (updateValue conv ps c2)\<lparr>m_commit := currentCommit\<rparr> else c2)
                        in (m_value c3, c3)
                   else getDirectValue conv ps c2)"

definition TextToBool :: "string \<Rightarrow> bool \<Rightarrow> bool" where
  "TextToBool data defaultVal = (if data = ''true'' then True else if data = ''false'' then False else defaultVal)"

definition TextToLogLevel :: "string \<Rightarrow> nat \<Rightarrow> nat" where
  "TextToLogLevel data defaultVal =
     (let level = PrettyStr2LogLevel data in if level = LOG_LEVEL_MIN then defaultVal else level)"

section \<open>Switches and levels\<close>

text \<open>The static caches of the accessors, and those of \<open>IsDebuggableHap\<close>.\<close>

record PropCaches =
  pc_private :: "bool CacheData"
  pc_onceDebug :: "bool CacheData"
  pc_persistDebug :: "bool CacheData"
  pc_global :: "nat CacheData"
  pc_persistGlobal :: "nat CacheData"
  pc_domain :: "(u32 \<times> nat CacheData) list"
  pc_persistDomain :: "(u32 \<times> nat CacheData) list"
  pc_tag :: "(string \<times> nat CacheData) list"
  pc_persistTag :: "(string \<times> nat CacheData) list"
  pc_process :: "bool CacheData"
  pc_domainFlow :: "bool CacheData"
  pc_hapInit :: bool
  pc_hapRet :: bool

definition PropCaches_new :: PropCaches where
  "PropCaches_new = \<lparr>pc_private = CacheData_new True PROP_PRIVATE [], pc_onceDebug = CacheData_new False PROP_ONCE_DEBUG [],
     pc_persistDebug = CacheData_new False PROP_PERSIST_DEBUG [], pc_global = CacheData_new LOG_LEVEL_MIN PROP_GLOBAL_LOG_LEVEL [],
     pc_persistGlobal = CacheData_new LOG_LEVEL_MIN PROP_PERSIST_GLOBAL_LOG_LEVEL [], pc_domain = [], pc_persistDomain = [],
     pc_tag = [], pc_persistTag = [], pc_process = CacheData_new False PROP_PROCESS_FLOWCTRL [],
     pc_domainFlow = CacheData_new False PROP_DOMAIN_FLOWCTRL [], pc_hapInit = False, pc_hapRet = False\<rparr>"

record PropEnv =
  pv_sys :: ParamSys
  pv_lock :: "PropType \<Rightarrow> bool"
  pv_hap :: "string option"

definition switchValue :: "PropEnv \<Rightarrow> bool CacheData \<Rightarrow> bool \<times> bool CacheData" where
  "switchValue env c = getValue TextToBool (pv_lock env) (pv_sys env) c"

definition levelValue :: "PropEnv \<Rightarrow> nat CacheData \<Rightarrow> nat \<times> nat CacheData" where
  "levelValue env c = getValue TextToLogLevel (pv_lock env) (pv_sys env) c"

definition IsPrivateSwitchOn :: "PropEnv \<Rightarrow> PropCaches \<Rightarrow> bool \<times> PropCaches" where
  "IsPrivateSwitchOn env pc = (let (v, c) = switchValue env (pc_private pc) in (v, pc\<lparr>pc_private := c\<rparr>))"

definition IsOnceDebugOn :: "PropEnv \<Rightarrow> PropCaches \<Rightarrow> bool \<times> PropCaches" where
  "IsOnceDebugOn env pc = (let (v, c) = switchValue env (pc_onceDebug pc) in (v, pc\<lparr>pc_onceDebug := c\<rparr>))"

definition IsPersistDebugOn :: "PropEnv \<Rightarrow> PropCaches \<Rightarrow> bool \<times> PropCaches" where
  "IsPersistDebugOn env pc = (let (v, c) = switchValue env (pc_persistDebug pc) in (v, pc\<lparr>pc_persistDebug := c\<rparr>))"

definition IsDebugOn :: "PropEnv \<Rightarrow> PropCaches \<Rightarrow> bool \<times> PropCaches" where
  "IsDebugOn env pc = (let (v, pc1) = IsOnceDebugOn env pc in if v then (True, pc1) else IsPersistDebugOn env pc1)"

definition IsDebuggableHap :: "PropEnv \<Rightarrow> PropCaches \<Rightarrow> bool \<times> PropCaches" where
  "IsDebuggableHap env pc =
     (if pc_hapInit pc then (pc_hapRet pc, pc)
      else case pv_hap env of
             None \<Rightarrow> (False, pc)
           | Some res \<Rightarrow> let ret = (res = ''true'') in (ret, pc\<lparr>pc_hapInit := True, pc_hapRet := ret\<rparr>))"

definition IsPrivateModeEnable :: "PropEnv \<Rightarrow> PropCaches \<Rightarrow> bool \<times> PropCaches" where
  "IsPrivateModeEnable env pc =
     (let (d, pc1) = IsDebugOn env pc in
      if d then (False, pc1)
      else let (h, pc2) = IsDebuggableHap env pc1 in
           if h then (False, pc2) else IsPrivateSwitchOn env pc2)"

definition GetGlobalLevel :: "PropEnv \<Rightarrow> PropCaches \<Rightarrow> nat \<times> PropCaches" where
  "GetGlobalLevel env pc = (let (v, c) = levelValue env (pc_global pc) in (v, pc\<lparr>pc_global := c\<rparr>))"

definition GetPersistGlobalLevel :: "PropEnv \<Rightarrow> PropCaches \<Rightarrow> nat \<times> PropCaches" where
  "GetPersistGlobalLevel env pc = (let (v, c) = levelValue env (pc_persistGlobal pc) in (v, pc\<lparr>pc_persistGlobal := c\<rparr>))"

definition GetGlobalLogLevel :: "PropEnv \<Rightarrow> PropCaches \<Rightarrow> nat \<times> PropCaches" where
  "GetGlobalLogLevel env pc =
     (let (globalLevel, pc1) = GetGlobalLevel env pc
      in if globalLevel = LOG_LEVEL_MIN then GetPersistGlobalLevel env pc1 else (globalLevel, pc1))"

text \<open>A level per key: the cache of the key is created on its first use.\<close>

definition GetLevel :: "PropEnv \<Rightarrow> ('k \<Rightarrow> string) \<Rightarrow> ('k \<times> nat CacheData) list \<Rightarrow> 'k \<Rightarrow> PropType \<Rightarrow> nat \<times> ('k \<times> nat CacheData) list" where
  "GetLevel env key_name mp key t =
     (case map_of mp key of
        Some c \<Rightarrow> let (v, c') = levelValue env c in (v, map (\<lambda>(k, d). (k, if k = key then c' else d)) mp)
      | None \<Rightarrow> let (v, c') = levelValue env (CacheData_new LOG_LEVEL_MIN t (key_name key)) in (v, mp @ [(key, c')]))"

definition GetDomainLevel :: "PropEnv \<Rightarrow> u32 \<Rightarrow> PropCaches \<Rightarrow> nat \<times> PropCaches" where
  "GetDomainLevel env d pc =
     (let (v, mp) = GetLevel env Uint2HexStr (pc_domain pc) d PROP_DOMAIN_LOG_LEVEL in (v, pc\<lparr>pc_domain := mp\<rparr>))"

definition GetPersistDomainLevel :: "PropEnv \<Rightarrow> u32 \<Rightarrow> PropCaches \<Rightarrow> nat \<times> PropCaches" where
  "GetPersistDomainLevel env d pc =
     (let (v, mp) = GetLevel env Uint2HexStr (pc_persistDomain pc) d PROP_PERSIST_DOMAIN_LOG_LEVEL in (v, pc\<lparr>pc_persistDomain := mp\<rparr>))"

definition GetTagLevel :: "PropEnv \<Rightarrow> string \<Rightarrow> PropCaches \<Rightarrow> nat \<times> PropCaches" where
  "GetTagLevel env tag pc =
     (let (v, mp) = GetLevel env (\<lambda>k. k) (pc_tag pc) tag PROP_TAG_LOG_LEVEL in (v, pc\<lparr>pc_tag := mp\<rparr>))"

definition GetPersistTagLevel :: "PropEnv \<Rightarrow> string \<Rightarrow> PropCaches \<Rightarrow> nat \<times> PropCaches" where
  "GetPersistTagLevel env tag pc =
     (let (v, mp) = GetLevel env (\<lambda>k. k) (pc_persistTag pc) tag PROP_PERSIST_TAG_LOG_LEVEL in (v, pc\<lparr>pc_persistTag := mp\<rparr>))"

definition IsProcessSwitchOn :: "PropEnv \<Rightarrow> PropCaches \<Rightarrow> bool \<times> PropCaches" where
  "IsProcessSwitchOn env pc = (let (v, c) = switchValue env (pc_process pc) in (v, pc\<lparr>pc_process := c\<rparr>))"

definition IsDomainSwitchOn :: "PropEnv \<Rightarrow> PropCaches \<Rightarrow> bool \<times> PropCaches" where
  "IsDomainSwitchOn env pc = (let (v, c) = switchValue env (pc_domainFlow pc) in (v, pc\<lparr>pc_domainFlow := c\<rparr>))"

section \<open>Uncached properties\<close>

text \<open>\<open>std::stoi\<close>: white space, a sign, digits; it throws without a digit and outside of \<open>int\<close>.\<close>

datatype stoi_error = InvalidArgument | StoiOutOfRange

definition stoi :: "string \<Rightarrow> stoi_error + int" where
  "stoi s =
     (let (neg, t) = strip_sign (dropWhile isspace s); ds = takeWhile (is_digit 10) t;
          v = (if neg then - int (digits_value 10 ds) else int (digits_value 10 ds))
      in if ds = [] then Inl InvalidArgument
         else if v < - (2 ^ 31) \<or> 2 ^ 31 \<le> v then Inl StoiOutOfRange else Inr v)"

definition boolProp :: "ParamSys \<Rightarrow> PropType \<Rightarrow> bool" where
  "boolProp ps t = (case PropertyGet ps (GetPropertyName t) of None \<Rightarrow> False | Some raw \<Rightarrow> TextToBool raw False)"

definition IsKmsgSwitchOn :: "ParamSys \<Rightarrow> bool" where
  "IsKmsgSwitchOn ps = boolProp ps PROP_KMSG"

definition IsStatsEnable :: "ParamSys \<Rightarrow> bool" where
  "IsStatsEnable ps = boolProp ps PROP_STATS_ENABLE"

definition IsTagStatsEnable :: "ParamSys \<Rightarrow> bool" where
  "IsTagStatsEnable ps = boolProp ps PROP_STATS_TAG_ENABLE"

definition GetBufferSizePropName :: "nat \<Rightarrow> bool \<Rightarrow> string" where
  "GetBufferSizePropName t persist =
     (if persist then ''persist.sys.'' else []) @ GetPropertyName PROP_BUFFER_SIZE @
     (if t \<ge> LOG_TYPE_MAX then ''global'' else LogType2Str t)"

definition intProp :: "ParamSys \<Rightarrow> string \<Rightarrow> int \<Rightarrow> stoi_error + int" where
  "intProp ps key defaultVal =
     (case PropertyGet ps key of
        None \<Rightarrow> Inr defaultVal
      | Some s \<Rightarrow> if s = [] then Inr defaultVal else stoi s)"

definition DEFAULT_QUOTA :: int where
  "DEFAULT_QUOTA = 51200"

definition GetBufferSize :: "ParamSys \<Rightarrow> nat \<Rightarrow> bool \<Rightarrow> stoi_error + size_t" where
  "GetBufferSize ps t persist =
     (if t > LOG_TYPE_MAX then Inr 0
      else case intProp ps (GetBufferSizePropName t persist) 0 of Inl e \<Rightarrow> Inl e | Inr v \<Rightarrow> Inr (of_int v))"

definition GetProcessQuota :: "ParamSys \<Rightarrow> string \<Rightarrow> stoi_error + int" where
  "GetProcessQuota ps proc = intProp ps (GetPropertyName PROP_PROC_QUOTA @ proc) DEFAULT_QUOTA"

definition GetDomainQuota :: "ParamSys \<Rightarrow> u32 \<Rightarrow> stoi_error + int" where
  "GetDomainQuota ps d = intProp ps (GetPropertyName PROP_DOMAIN_QUOTA @ Uint2HexStr d) DEFAULT_QUOTA"

section \<open>Setters\<close>

type_synonym 'p setter = "string \<Rightarrow> string \<Rightarrow> 'p \<Rightarrow> int \<times> 'p"

definition SetBoolValue :: "'p setter \<Rightarrow> PropType \<Rightarrow> bool \<Rightarrow> 'p \<Rightarrow> int \<times> 'p" where
  "SetBoolValue sp t val p =
     (let key = GetPropertyName t
      in if key = [] then (RET_FAIL, p) else PropertySet sp key (if val then ''true'' else ''false'') p)"

definition SetLevel :: "'p setter \<Rightarrow> PropType \<Rightarrow> string \<Rightarrow> nat \<Rightarrow> 'p \<Rightarrow> int \<times> 'p" where
  "SetLevel sp t suffix lvl p =
     (let key = GetPropertyName t @ suffix in if key = [] then (RET_FAIL, p) else PropertySet sp key (LogLevel2ShortStr lvl) p)"

definition SetPrivateSwitchOn :: "'p setter \<Rightarrow> bool \<Rightarrow> 'p \<Rightarrow> int \<times> 'p" where
  "SetPrivateSwitchOn sp on = SetBoolValue sp PROP_PRIVATE on"

definition SetOnceDebugOn :: "'p setter \<Rightarrow> bool \<Rightarrow> 'p \<Rightarrow> int \<times> 'p" where
  "SetOnceDebugOn sp on = SetBoolValue sp PROP_ONCE_DEBUG on"

definition SetPersistDebugOn :: "'p setter \<Rightarrow> bool \<Rightarrow> 'p \<Rightarrow> int \<times> 'p" where
  "SetPersistDebugOn sp on = SetBoolValue sp PROP_PERSIST_DEBUG on"

definition SetGlobalLevel :: "'p setter \<Rightarrow> nat \<Rightarrow> 'p \<Rightarrow> int \<times> 'p" where
  "SetGlobalLevel sp lvl = SetLevel sp PROP_GLOBAL_LOG_LEVEL [] lvl"

definition SetPersistGlobalLevel :: "'p setter \<Rightarrow> nat \<Rightarrow> 'p \<Rightarrow> int \<times> 'p" where
  "SetPersistGlobalLevel sp lvl = SetLevel sp PROP_PERSIST_GLOBAL_LOG_LEVEL [] lvl"

definition SetTagLevel :: "'p setter \<Rightarrow> string \<Rightarrow> nat \<Rightarrow> 'p \<Rightarrow> int \<times> 'p" where
  "SetTagLevel sp tag lvl = SetLevel sp PROP_TAG_LOG_LEVEL tag lvl"

definition SetPersistTagLevel :: "'p setter \<Rightarrow> string \<Rightarrow> nat \<Rightarrow> 'p \<Rightarrow> int \<times> 'p" where
  "SetPersistTagLevel sp tag lvl = SetLevel sp PROP_PERSIST_TAG_LOG_LEVEL tag lvl"

definition SetDomainLevel :: "'p setter \<Rightarrow> u32 \<Rightarrow> nat \<Rightarrow> 'p \<Rightarrow> int \<times> 'p" where
  "SetDomainLevel sp d lvl = SetLevel sp PROP_DOMAIN_LOG_LEVEL (Uint2HexStr d) lvl"

definition SetPersistDomainLevel :: "'p setter \<Rightarrow> u32 \<Rightarrow> nat \<Rightarrow> 'p \<Rightarrow> int \<times> 'p" where
  "SetPersistDomainLevel sp d lvl = SetLevel sp PROP_PERSIST_DOMAIN_LOG_LEVEL (Uint2HexStr d) lvl"

definition SetProcessSwitchOn :: "'p setter \<Rightarrow> bool \<Rightarrow> 'p \<Rightarrow> int \<times> 'p" where
  "SetProcessSwitchOn sp on = SetBoolValue sp PROP_PROCESS_FLOWCTRL on"

definition SetDomainSwitchOn :: "'p setter \<Rightarrow> bool \<Rightarrow> 'p \<Rightarrow> int \<times> 'p" where
  "SetDomainSwitchOn sp on = SetBoolValue sp PROP_DOMAIN_FLOWCTRL on"

definition SetKmsgSwitchOn :: "'p setter \<Rightarrow> bool \<Rightarrow> 'p \<Rightarrow> int \<times> 'p" where
  "SetKmsgSwitchOn sp on = SetBoolValue sp PROP_KMSG on"

definition SetBufferSize :: "'p setter \<Rightarrow> nat \<Rightarrow> bool \<Rightarrow> size_t \<Rightarrow> 'p \<Rightarrow> int \<times> 'p" where
  "SetBufferSize sp t persist sz p =
     (if t > LOG_TYPE_MAX then (RET_FAIL, p)
      else PropertySet sp (GetBufferSizePropName t persist) (Num2Str 10 (unat sz)) p)"

section \<open>The cache is transparent\<close>

text \<open>What a read without a cache would return.\<close>

definition direct_value :: "(string \<Rightarrow> 'a \<Rightarrow> 'a) \<Rightarrow> string \<Rightarrow> 'a \<Rightarrow> ParamSys \<Rightarrow> 'a" where
  "direct_value conv key dflt ps = (case PropertyGet ps key of None \<Rightarrow> dflt | Some raw \<Rightarrow> conv raw dflt)"

text \<open>
  The documented behaviour of the parameter service, for one name: commit ids are not negative
  and do not decrease, an unchanged commit id of the service or of a parameter means an unchanged
  value, a parameter keeps its handle, and an existing parameter can be read.
\<close>

definition readable :: "string \<Rightarrow> ParamSys \<Rightarrow> bool" where
  "readable key s \<longleftrightarrow> 0 \<le> GetSystemCommitId s \<and>
     (let h = FindParameter s key in h \<noteq> - 1 \<longrightarrow> GetParameterValue s h \<noteq> None \<and> 0 \<le> GetParameterCommitId s h)"

definition evolves :: "string \<Rightarrow> ParamSys \<Rightarrow> ParamSys \<Rightarrow> bool" where
  "evolves key s t \<longleftrightarrow>
     (let h = FindParameter s key in
      (GetSystemCommitId s = GetSystemCommitId t \<longrightarrow> FindParameter t key = h \<and> GetParameterValue s h = GetParameterValue t h) \<and>
      (h \<noteq> - 1 \<longrightarrow> FindParameter t key = h \<and> GetParameterCommitId s h \<le> GetParameterCommitId t h \<and>
         (GetParameterCommitId s h = GetParameterCommitId t h \<longrightarrow> GetParameterValue s h = GetParameterValue t h)))"

fun cache_reads :: "(string \<Rightarrow> 'a \<Rightarrow> 'a) \<Rightarrow> 'a CacheData \<Rightarrow> ((PropType \<Rightarrow> bool) \<times> ParamSys) list \<Rightarrow> 'a list" where
  "cache_reads conv c [] = []"
| "cache_reads conv c ((lk, s) # rest) = (let (v, c') = getValue conv lk s c in v # cache_reads conv c' rest)"

definition cache_inv :: "(string \<Rightarrow> 'a \<Rightarrow> 'a) \<Rightarrow> 'a CacheData \<Rightarrow> ParamSys \<Rightarrow> bool" where
  "cache_inv conv c s \<longleftrightarrow> m_sysCommit c = GetSystemCommitId s \<and> m_handle c = FindParameter s (m_key c) \<and>
     m_value c = direct_value conv (m_key c) (m_defaultValue c) s \<and>
     (if m_handle c = - 1 then m_commit c = - 1 else m_commit c \<le> GetParameterCommitId s (m_handle c))"

lemma getValue_fresh:
  assumes "m_sysCommit c = - 1" "m_handle c = - 1" "m_commit c = - 1" "m_value c = m_defaultValue c" "readable (m_key c) t"
    "getValue conv lk t c = (v, c')"
  shows "v = direct_value conv (m_key c) (m_defaultValue c) t \<and> cache_inv conv c' t \<and>
    m_key c' = m_key c \<and> m_defaultValue c' = m_defaultValue c"
  using assms
  by (auto simp: getValue_def getDirectValue_def updateValue_def direct_value_def PropertyGet_def cache_inv_def readable_def Let_def
      split: option.splits if_splits)

lemma getValue_cached:
  assumes inv: "cache_inv conv c s" and ev: "evolves (m_key c) s t" and rd: "readable (m_key c) t"
    and get: "getValue conv lk t c = (v, c')"
  shows "v = direct_value conv (m_key c) (m_defaultValue c) t \<and> cache_inv conv c' t \<and>
    m_key c' = m_key c \<and> m_defaultValue c' = m_defaultValue c"
proof (cases "GetSystemCommitId t = m_sysCommit c")
  case True
  then have "v = m_value c" "c' = c" using get by (auto simp: getValue_def)
  moreover have "FindParameter t (m_key c) = m_handle c" "GetParameterValue s (m_handle c) = GetParameterValue t (m_handle c)"
    using inv ev True by (auto simp: cache_inv_def evolves_def Let_def)
  moreover have "m_handle c \<noteq> - 1 \<Longrightarrow> GetParameterCommitId s (m_handle c) \<le> GetParameterCommitId t (m_handle c)"
    using inv ev by (auto simp: cache_inv_def evolves_def Let_def)
  ultimately show ?thesis
    using inv True by (auto simp: cache_inv_def direct_value_def PropertyGet_def Let_def split: if_splits)
next
  case changed: False
  show ?thesis
  proof (cases "m_handle c = - 1")
    case True
    then have "m_value c = m_defaultValue c" "m_commit c = - 1"
      using inv by (auto simp: cache_inv_def direct_value_def PropertyGet_def)
    with True changed get rd show ?thesis
      by (auto simp: getValue_def getDirectValue_def updateValue_def direct_value_def PropertyGet_def cache_inv_def readable_def Let_def
          split: option.splits if_splits)
  next
    case False
    then have h: "FindParameter t (m_key c) = m_handle c" "GetParameterCommitId s (m_handle c) \<le> GetParameterCommitId t (m_handle c)"
      "GetParameterCommitId s (m_handle c) = GetParameterCommitId t (m_handle c) \<Longrightarrow>
        GetParameterValue s (m_handle c) = GetParameterValue t (m_handle c)"
      using inv ev by (auto simp: cache_inv_def evolves_def Let_def)
    have c: "m_commit c \<le> GetParameterCommitId s (m_handle c)" using inv False by (auto simp: cache_inv_def)
    have same: "m_value c = direct_value conv (m_key c) (m_defaultValue c) t" if "m_commit c = GetParameterCommitId t (m_handle c)"
    proof -
      have "GetParameterCommitId s (m_handle c) = GetParameterCommitId t (m_handle c)" using c h(2) that by simp
      with h inv False show ?thesis by (auto simp: cache_inv_def direct_value_def PropertyGet_def Let_def)
    qed
    obtain raw where "GetParameterValue t (m_handle c) = Some raw" using rd h(1) False by (auto simp: readable_def Let_def)
    moreover from this have "direct_value conv (m_key c) (m_defaultValue c) t = conv raw (m_defaultValue c)"
      using h(1) False by (simp add: direct_value_def PropertyGet_def)
    ultimately show ?thesis
      using get changed False h(1,2) c same
      by (auto simp: getValue_def getDirectValue_def updateValue_def cache_inv_def Let_def split: if_splits)
  qed
qed

lemma cache_reads_direct:
  assumes "cache_inv conv c s" "sorted_wrt (evolves (m_key c)) (s # map snd rs)" "\<forall>t \<in> set (map snd rs). readable (m_key c) t"
  shows "cache_reads conv c rs = map (\<lambda>(lk, t). direct_value conv (m_key c) (m_defaultValue c) t) rs"
  using assms
proof (induction rs arbitrary: c s)
  case (Cons r rs)
  obtain lk t where r: "r = (lk, t)" by fastforce
  obtain v c' where get: "getValue conv lk t c = (v, c')" by fastforce
  have "evolves (m_key c) s t" "readable (m_key c) t" using Cons.prems by (auto simp: r)
  from getValue_cached [OF Cons.prems(1) this get] Cons.IH [of c' t] Cons.prems show ?case
    by (simp add: r get)
qed simp

text \<open>
  C31: The property cache is transparent: however the reads of a property interleave with changes
  of the parameter service, and whether or not the lock of the property can be taken, every read
  returns what a direct read of the service at that moment returns.
\<close>

theorem cache_transparent:
  assumes "sorted_wrt (evolves (GetPropertyName pt @ suffix)) (map snd rs)"
    and "\<forall>s \<in> set (map snd rs). readable (GetPropertyName pt @ suffix) s"
  shows "cache_reads conv (CacheData_new dflt pt suffix) rs =
    map (\<lambda>(lk, s). direct_value conv (GetPropertyName pt @ suffix) dflt s) rs"
proof (cases rs)
  case (Cons r rest)
  obtain lk t where r: "r = (lk, t)" by fastforce
  let ?c = "CacheData_new dflt pt suffix"
  obtain v c' where get: "getValue conv lk t ?c = (v, c')" by fastforce
  have "readable (m_key ?c) t" using assms(2) by (simp add: Cons r CacheData_new_def)
  from getValue_fresh [OF _ _ _ _ this get]
  have step: "v = direct_value conv (GetPropertyName pt @ suffix) dflt t" "cache_inv conv c' t"
    "m_key c' = GetPropertyName pt @ suffix" "m_defaultValue c' = dflt"
    by (simp_all add: CacheData_new_def)
  then show ?thesis
    using cache_reads_direct [OF step(2), of rest] assms by (simp add: Cons r get)
qed simp

text \<open>A service with one parameter, and a change of it.\<close>

definition demo_param :: "int \<Rightarrow> string \<Rightarrow> ParamSys" where
  "demo_param commit v = \<lparr>GetSystemCommitId = commit, FindParameter = (\<lambda>_. 3), GetParameterCommitId = (\<lambda>_. commit),
     GetParameterValue = (\<lambda>_. Some v)\<rparr>"

theorem cache_transparent_witness:
  "cache_reads TextToBool (CacheData_new True PROP_PRIVATE [])
     [(\<lambda>_. True, demo_param 1 ''false''), (\<lambda>_. False, demo_param 2 ''true''), (\<lambda>_. True, demo_param 2 ''true'')] = [False, True, True]"
proof -
  let ?rs = "[(\<lambda>_. True, demo_param 1 ''false''), (\<lambda>_. False, demo_param 2 ''true''), (\<lambda>_. True, demo_param 2 ''true'')]"
  have "sorted_wrt (evolves (GetPropertyName PROP_PRIVATE @ [])) (map snd ?rs)"
    "\<forall>s \<in> set (map snd ?rs). readable (GetPropertyName PROP_PRIVATE @ []) s"
    by (simp_all add: evolves_def readable_def demo_param_def)
  from cache_transparent [OF this, of TextToBool True] show ?thesis
    by (simp add: direct_value_def PropertyGet_def demo_param_def TextToBool_def)
qed

section \<open>Stored values are read back\<close>

lemma stoi_Num2Str:
  assumes "n < 2 ^ 31"
  shows "stoi (Num2Str 10 n) = Inr (int n)"
proof -
  let ?s = "Num2Str 10 n"
  have d: "\<exists>d < 10. c = digit_char d" if "c \<in> set ?s" for c
    using Num2Str_digits [OF _ _ that] by simp
  obtain c cs where s: "?s = c # cs" by (cases ?s) simp_all
  have "\<exists>d < 16. c = digit_char d" using d [of c] s by force
  then have "\<not> isspace c" "c \<noteq> CHR ''-''" "c \<noteq> CHR ''+''" using digit_chars by auto
  then have "strip_sign (dropWhile isspace ?s) = (False, ?s)" by (simp add: s strip_sign_def)
  moreover have "takeWhile (is_digit 10) ?s = ?s"
    using d is_digit_digit_char [of _ 10] by (auto simp: takeWhile_eq_all_conv)
  moreover have "int n < 2 ^ 31" using assms by simp
  ultimately show ?thesis
    by (simp add: stoi_def digits_value_Num2Str del: takeWhile_eq_all_conv)
qed

text \<open>
  With a parameter service that stores what it is given, a buffer size below \<open>2\<^sup>3\<^sup>1\<close> and a log level
  from \<open>LOG_DEBUG\<close> to \<open>LOG_FATAL\<close> are read back as they were set.
\<close>

theorem property_roundtrip:
  assumes "\<forall>k v p. PropertyGet (view (snd (sp k v p))) k = Some v" "t \<le> LOG_TYPE_MAX" "unat sz < 2 ^ 31"
    and "LOG_DEBUG \<le> lvl" "lvl \<le> LOG_FATAL"
  shows "GetBufferSize (view (snd (SetBufferSize sp t persist sz p))) t persist = Inr sz \<and>
    direct_value TextToLogLevel (GetPropertyName pt @ suffix) dflt (view (snd (SetLevel sp pt suffix lvl p))) = lvl"
proof
  have "snd (SetBufferSize sp t persist sz p) = snd (sp (GetBufferSizePropName t persist) (Num2Str 10 (unat sz)) p)"
    using assms(2) by (simp add: SetBufferSize_def PropertySet_def split_beta)
  then have get: "PropertyGet (view (snd (SetBufferSize sp t persist sz p))) (GetBufferSizePropName t persist) = Some (Num2Str 10 (unat sz))"
    using assms(1) by simp
  then show "GetBufferSize (view (snd (SetBufferSize sp t persist sz p))) t persist = Inr sz"
    using assms(2) stoi_Num2Str [OF assms(3)] by (simp add: GetBufferSize_def intProp_def)
  have ne: "GetPropertyName pt \<noteq> []" by (cases pt) simp_all
  have "lvl \<in> {3, 4, 5, 6, 7}" using assms(4,5) by auto
  moreover have "TextToLogLevel (LogLevel2ShortStr l) dflt = l" if "l \<in> {3, 4, 5, 6, 7}" for l
    using that by (elim insertE) (simp_all add: TextToLogLevel_def PrettyStr2LogLevel_def ShortStr2LogLevel_def
        LogLevel2ShortStr_def kv_table_defs GetValue_def GetKey_def short_level_cmp_def tolower_def)
  ultimately show "direct_value TextToLogLevel (GetPropertyName pt @ suffix) dflt (view (snd (SetLevel sp pt suffix lvl p))) = lvl"
    using assms(1) ne by (simp add: direct_value_def SetLevel_def PropertySet_def split_beta Let_def)
qed

theorem property_roundtrip_witness:
  "GetBufferSize (demo_param 1 (snd (SetBufferSize (\<lambda>k v p. (0, v)) LOG_APP True 262144 ''x''))) LOG_APP True = Inr 262144"
  using property_roundtrip [of "\<lambda>p. demo_param 1 p" "\<lambda>k v p. (0, v)" LOG_APP 262144 LOG_INFO True "''x''" PROP_GLOBAL_LOG_LEVEL "[]" 0]
  by (simp add: PropertyGet_def demo_param_def)

end
