(* ===== verification/Log_Kmsg.thy ===== *)
theory Log_Kmsg
  imports Log_Buffer_Inv
begin

text \<open>
  The kernel log: \<open>kmsg_parser.cpp\<close> turns what a read of \<open>/proc/kmsg\<close> returns into a message,
  \<open>log_kmsg.cpp\<close> reads in a thread and inserts into the kernel buffer. The results of the reads,
  the clock, the constant \<open>BUFSIZ\<close> of the C library, and what the readers of the buffer do while an
  insertion waits, are parameters. Calls of \<open>Start\<close> and \<open>Stop\<close> from several threads and the reading
  thread interleave in a step relation.
\<close>

section \<open>Parsing\<close>

definition KmsgLevelMap :: "nat \<Rightarrow> nat" where
  "KmsgLevelMap prio =
     (if prio \<in> {0, 1, 2} then LOG_FATAL else if prio = 3 then LOG_ERROR else if prio \<in> {4, 5} then LOG_WARN
      else if prio = 6 then LOG_INFO else LOG_DEBUG)"

text \<open>
  The message is built in zeroed memory of \<open>msgLen\<close> bytes; the two copies write the empty tag and
  the text with their terminators.
\<close>

definition ParseKmsg :: "LogTimeStamp \<Rightarrow> char list \<Rightarrow> HilogMsg option" where
  "ParseKmsg ts kmsgBuffer =
     (let kmsgStr = c_str kmsgBuffer; tagStr = []; tagLen = length tagStr; len = length kmsgStr + 1;
          msgLen = SIZEOF_HilogMsg + tagLen + len + 1;
          (e1, bs1) = strncpy_s (msgLen - SIZEOF_HilogMsg) tagStr tagLen;
          (e2, bs2) = strncpy_s (msgLen - SIZEOF_HilogMsg - tagLen) kmsgStr len
      in if e1 \<noteq> EOK \<or> e2 \<noteq> EOK then None
         else Some \<lparr>m_len = of_nat msgLen, m_version = 0, m_type = of_nat LOG_KMSG, m_level = of_nat (KmsgLevelMap LOG_INFO),
                m_tagLen = of_nat (tagLen + 1), m_tv_sec = tv_sec ts, m_tv_nsec = tv_nsec ts, m_mono_sec = 0, m_pid = 0,
                m_tid = 0, m_domain = 0, m_payload = bs1 @ bs2\<rparr>)"

section \<open>Reading\<close>

datatype read_result = ReadOk "char list" | ReadEPIPE | ReadError

text \<open>
  The insertion is retried while the buffer is full. \<open>waits\<close> lists what happens to the buffer
  during each wait; \<open>None\<close> is a loop that has not ended within them.
\<close>

fun InsertRetry :: "BufferLimits \<Rightarrow> HilogMsg \<Rightarrow> (HilogBuffer \<Rightarrow> HilogBuffer) list \<Rightarrow> HilogBuffer \<Rightarrow> HilogBuffer option" where
  "InsertRetry limits msg waits b =
     (case Insert limits msg False b of
        (n, isFull, b', ns) \<Rightarrow>
          if \<not> isFull then Some b'
          else case waits of [] \<Rightarrow> None | w # ws \<Rightarrow> InsertRetry limits msg ws (w b'))"

declare InsertRetry.simps [simp del]

text \<open>
  One read, repeated on \<open>EPIPE\<close>: the size as returned, \<open>-1\<close> for an error, and the buffer; \<open>None\<close>
  when the reads or the waits of the environment do not suffice.
\<close>

fun LinuxReadOneKmsg ::
  "nat \<Rightarrow> BufferLimits \<Rightarrow> LogTimeStamp \<Rightarrow> read_result list \<Rightarrow> (HilogBuffer \<Rightarrow> HilogBuffer) list \<Rightarrow> HilogBuffer \<Rightarrow> (int \<times> HilogBuffer) option" where
  "LinuxReadOneKmsg bufsiz limits ts [] waits b = None"
| "LinuxReadOneKmsg bufsiz limits ts (ReadEPIPE # rs) waits b = LinuxReadOneKmsg bufsiz limits ts rs waits b"
| "LinuxReadOneKmsg bufsiz limits ts (ReadError # rs) waits b = Some (- 1, b)"
| "LinuxReadOneKmsg bufsiz limits ts (ReadOk bs # rs) waits b =
     (let kmsgBuffer = take (bufsiz - 1) bs in
      if kmsgBuffer = [] then Some (0, b)
      else case ParseKmsg ts kmsgBuffer of
             None \<Rightarrow> Some (int (length kmsgBuffer), b)
           | Some msg \<Rightarrow> map_option (\<lambda>b'. (int (length kmsgBuffer), b')) (InsertRetry limits msg waits b))"

text \<open>
  The loop of the thread over its turns. Each turn sees the stop flag or reads once; after more
  than ten failures in a row the function returns \<open>-1\<close>. \<open>None\<close> is a loop that is still running.
\<close>

datatype kmsg_turn = SeesStop | Reads LogTimeStamp "read_result list" "(HilogBuffer \<Rightarrow> HilogBuffer) list"

fun ReadLoop :: "nat \<Rightarrow> BufferLimits \<Rightarrow> kmsg_turn list \<Rightarrow> nat \<Rightarrow> HilogBuffer \<Rightarrow> (int \<times> HilogBuffer) option" where
  "ReadLoop bufsiz limits [] rdFailTimes b = None"
| "ReadLoop bufsiz limits (SeesStop # ts) rdFailTimes b = Some (1, b)"
| "ReadLoop bufsiz limits (Reads now rs waits # ts) rdFailTimes b =
     (case LinuxReadOneKmsg bufsiz limits now rs waits b of
        None \<Rightarrow> None
      | Some (sz, b') \<Rightarrow>
          if sz < 0
          then if 10 < rdFailTimes + 1 then Some (- 1, b') else ReadLoop bufsiz limits ts (rdFailTimes + 1) b'
          else ReadLoop bufsiz limits ts 0 b')"

text \<open>\<open>opened\<close> is whether \<open>/proc/kmsg\<close> or the control file could be opened.\<close>

definition LinuxReadAllKmsg :: "nat \<Rightarrow> BufferLimits \<Rightarrow> bool \<Rightarrow> kmsg_turn list \<Rightarrow> HilogBuffer \<Rightarrow> (int \<times> HilogBuffer) option" where
  "LinuxReadAllKmsg bufsiz limits opened turns b = (if \<not> opened then Some (RET_FAIL, b) else ReadLoop bufsiz limits turns 0 b)"

section \<open>Starting and stopping\<close>

datatype ThreadStatus = START | NONEXIST | STOP

text \<open>
  Where a caller stands in \<open>Start\<close>, with \<open>startMtx\<close> held, or in \<open>Stop\<close>, which takes no lock.
  \<open>StartTest\<close> and \<open>StopTest\<close> stand in front of the test of the status, \<open>StartSpawn\<close> in front of the
  assignment of the new thread, \<open>StartSet\<close> and \<open>StopSet\<close> in front of that of the status,
  \<open>StopJoinable\<close> in front of \<open>joinable\<close> and \<open>StopJoin\<close> in front of the return of \<open>join\<close>.
\<close>

datatype call_pc = Idle | StartTest | StartSpawn | StartSet | StopTest | StopSet | StopJoinable | StopJoin

text \<open>
  The shared state: the status, whether the thread runs, whether the thread object is joinable,
  whether the daemon was ended by \<open>std::terminate\<close> or has undefined behaviour, and the callers.
\<close>

record KmsgState =
  threadStatus :: ThreadStatus
  thread_runs :: bool
  joinable :: bool
  faulted :: bool
  callers :: "nat \<Rightarrow> call_pc"

definition LogKmsg_new :: KmsgState where
  "LogKmsg_new = \<lparr>threadStatus = NONEXIST, thread_runs = False, joinable = False, faulted = False, callers = (\<lambda>_. Idle)\<rparr>"

definition goes :: "nat \<Rightarrow> call_pc \<Rightarrow> KmsgState \<Rightarrow> KmsgState" where
  "goes i pc s = s\<lparr>callers := (callers s)(i := pc)\<rparr>"

datatype kmsg_act = CallStart nat | CallStop nat | Proceed nat | ThreadStops | ThreadFails

text \<open>
  The steps. The assignment of a thread to an object that is joinable ends the daemon, and so does
  \<open>join\<close> on one that is not; joining the same thread twice at once is undefined. The thread ends when
  it sees \<open>STOP\<close>, and after too many read errors or a failed open.
\<close>

inductive kmsg_step :: "kmsg_act \<Rightarrow> KmsgState \<Rightarrow> KmsgState \<Rightarrow> bool" where
  start_lock: "callers s i = Idle \<Longrightarrow> \<forall>j. callers s j \<notin> {StartTest, StartSpawn, StartSet} \<Longrightarrow>
     kmsg_step (CallStart i) s (goes i StartTest s)"
| start_test: "callers s i = StartTest \<Longrightarrow>
     kmsg_step (Proceed i) s (goes i (if threadStatus s \<in> {NONEXIST, STOP} then StartSpawn else StartSet) s)"
| start_spawn: "callers s i = StartSpawn \<Longrightarrow> \<not> joinable s \<Longrightarrow>
     kmsg_step (Proceed i) s (goes i StartSet s\<lparr>thread_runs := True, joinable := True\<rparr>)"
| start_fault: "callers s i = StartSpawn \<Longrightarrow> joinable s \<Longrightarrow> kmsg_step (Proceed i) s (s\<lparr>faulted := True\<rparr>)"
| start_set: "callers s i = StartSet \<Longrightarrow> kmsg_step (Proceed i) s (goes i Idle s\<lparr>threadStatus := START\<rparr>)"
| stop_call: "callers s i = Idle \<Longrightarrow> kmsg_step (CallStop i) s (goes i StopTest s)"
| stop_test: "callers s i = StopTest \<Longrightarrow>
     kmsg_step (Proceed i) s (goes i (if threadStatus s \<in> {NONEXIST, STOP} then Idle else StopSet) s)"
| stop_set: "callers s i = StopSet \<Longrightarrow> kmsg_step (Proceed i) s (goes i StopJoinable s\<lparr>threadStatus := STOP\<rparr>)"
| stop_joinable: "callers s i = StopJoinable \<Longrightarrow> kmsg_step (Proceed i) s (goes i (if joinable s then StopJoin else Idle) s)"
| stop_join: "callers s i = StopJoin \<Longrightarrow> joinable s \<Longrightarrow> \<not> thread_runs s \<Longrightarrow> \<forall>j. j \<noteq> i \<longrightarrow> callers s j \<noteq> StopJoin \<Longrightarrow>
     kmsg_step (Proceed i) s (goes i Idle s\<lparr>joinable := False\<rparr>)"
| stop_fault: "callers s i = StopJoin \<Longrightarrow> \<not> joinable s \<or> (\<exists>j. j \<noteq> i \<and> callers s j = StopJoin) \<Longrightarrow>
     kmsg_step (Proceed i) s (s\<lparr>faulted := True\<rparr>)"
| thread_stops: "thread_runs s \<Longrightarrow> threadStatus s = STOP \<Longrightarrow> kmsg_step ThreadStops s (s\<lparr>thread_runs := False\<rparr>)"
| thread_fails: "thread_runs s \<Longrightarrow> kmsg_step ThreadFails s (s\<lparr>thread_runs := False\<rparr>)"

inductive_cases kmsg_stepE: "kmsg_step a s s'"

text \<open>Runs from a state; in a serial run a call begins only when no other one is under way.\<close>

fun is_call :: "kmsg_act \<Rightarrow> bool" where
  "is_call (CallStart i) = True"
| "is_call (CallStop i) = True"
| "is_call a = False"

inductive kmsg_run :: "bool \<Rightarrow> KmsgState \<Rightarrow> kmsg_act list \<Rightarrow> KmsgState \<Rightarrow> bool" for serial where
  none: "kmsg_run serial s [] s"
| step: "kmsg_step a s s' \<Longrightarrow> \<not> faulted s \<Longrightarrow> (serial \<Longrightarrow> is_call a \<Longrightarrow> \<forall>i. callers s i = Idle) \<Longrightarrow>
     kmsg_run serial s' as s'' \<Longrightarrow> kmsg_run serial s (a # as) s''"

section \<open>What is stored of a kernel message\<close>

lemma strncpy_s_all: "length s < n \<Longrightarrow> NUL \<notin> set s \<Longrightarrow> strncpy_s n s (length s + k) = (EOK, s @ [NUL])"
  by (simp add: strncpy_s_def c_str_no_NUL)

lemma ParseKmsg_eq:
  "ParseKmsg ts bs = Some \<lparr>m_len = of_nat (length (c_str bs) + 30), m_version = 0, m_type = 4, m_level = 5, m_tagLen = 1,
     m_tv_sec = tv_sec ts, m_tv_nsec = tv_nsec ts, m_mono_sec = 0, m_pid = 0, m_tid = 0, m_domain = 0,
     m_payload = NUL # c_str bs @ [NUL]\<rparr>"
  using strncpy_s_all [of "c_str bs" "length (c_str bs) + 2" 1] strncpy_s_all [of "[]" "length (c_str bs) + 2" 0]
  by (simp add: ParseKmsg_def KmsgLevelMap_def Let_def)

text \<open>
  C32: What a read of the kernel log returns becomes one message of type \<open>LOG_KMSG\<close> with an empty
  tag and, whatever the priority in the text, the level \<open>LOG_WARN\<close>. The buffer accepts it exactly
  when the text is shorter than \<open>MAX_LOG_LEN\<close>, and then stores the text unchanged; a longer read,
  which happens where \<open>BUFSIZ\<close> is greater, is dropped as a whole. The length of the message has to
  fit its 16 bits.
\<close>

theorem kmsg_message:
  assumes "SIZEOF_HilogMsg + length (c_str bs) + 2 < 2 ^ 16"
  shows "\<exists>msg. ParseKmsg ts bs = Some msg \<and> unat (m_type msg) = LOG_KMSG \<and> unat (m_level msg) = LOG_WARN \<and>
    (if length (c_str bs) < MAX_LOG_LEN
     then accepts msg \<and> d_tag (HilogData_of_msg msg) = [] \<and> d_content (HilogData_of_msg msg) = c_str bs
     else \<forall>limits b. Insert limits msg False b = (0, False, b, []))"
proof -
  define msg where "msg = the (ParseKmsg ts bs)"
  have parsed: "ParseKmsg ts bs = Some msg" by (simp add: msg_def ParseKmsg_eq)
  let ?n = "length (c_str bs)"
  have len: "CONTENT_LEN msg = of_nat (?n + 1)"
  proof -
    have ml: "m_len msg = of_nat (?n + 30)" by (simp add: msg_def ParseKmsg_eq)
    have "unat (of_nat (?n + 30) :: u16) = ?n + 30" using assms by (simp add: unat_of_nat del: of_nat_add)
    then have "ucast (m_len msg) = (of_nat (?n + 30) :: size_t)"
      unfolding ml by (metis of_nat_unat)
    then have "CONTENT_LEN msg = of_nat (?n + 30) - of_nat SIZEOF_HilogMsg - 1"
      by (simp add: CONTENT_LEN_def msg_def ParseKmsg_eq)
    also have "\<dots> = of_nat (?n + 1)" by simp
    finally show ?thesis .
  qed
  have ulen: "unat (CONTENT_LEN msg) = ?n + 1"
    unfolding len using assms by (simp add: unat_of_nat del: of_nat_add of_nat_Suc)
  have fields: "unat (m_type msg) = LOG_KMSG" "unat (m_level msg) = LOG_WARN" "m_tagLen msg = 1" "unat (m_tagLen msg) = 1"
    by (simp_all add: msg_def ParseKmsg_eq)
  show ?thesis
  proof (cases "?n < MAX_LOG_LEN")
    case True
    have acc: "accepts msg"
      using True ulen fields by (auto simp: accepts_def msg_accepted_def)
    then have ma: "msg_accepted msg" by (simp add: accepts_def)
    have payload: "m_payload msg = NUL # c_str bs @ [NUL]" by (simp add: msg_def ParseKmsg_eq)
    have "d_tag (HilogData_of_msg msg) = [] \<and> d_content (HilogData_of_msg msg) = c_str bs"
      using ulen fields payload by (simp add: HilogData_of_msg_accepted [OF ma] CONTENT_PTR_def c_str_no_NUL)
    then show ?thesis using parsed fields acc True by auto
  next
    case False
    then have "\<forall>limits b. Insert limits msg False b = (0, False, b, [])"
      using ulen by (simp add: Insert_def)
    then show ?thesis using parsed fields False by auto
  qed
qed

theorem kmsg_message_witness:
  "\<exists>msg. ParseKmsg (LogTimeStamp 5 6) (''<6>up'' @ [NUL]) = Some msg \<and> unat (m_level msg) = LOG_WARN \<and>
     d_content (HilogData_of_msg msg) = ''<6>up''"
proof -
  have "SIZEOF_HilogMsg + length (c_str (''<6>up'' @ [NUL])) + 2 < 2 ^ 16" by simp
  from kmsg_message [OF this, of "LogTimeStamp 5 6"] show ?thesis by auto
qed

section \<open>Calls that do not overlap\<close>

text \<open>Caller \<open>i\<close> is the only one that may be inside a call.\<close>

definition alone :: "nat \<Rightarrow> KmsgState \<Rightarrow> bool" where
  "alone i s \<longleftrightarrow> \<not> faulted s \<and> (thread_runs s \<longrightarrow> joinable s) \<and> (\<forall>j. j \<noteq> i \<longrightarrow> callers s j = Idle) \<and>
     (callers s i \<in> {Idle, StartTest, StopTest} \<longrightarrow> threadStatus s \<noteq> START \<longrightarrow> \<not> joinable s) \<and>
     (callers s i = StartSpawn \<longrightarrow> \<not> joinable s) \<and> (callers s i = StopJoin \<longrightarrow> joinable s)"

lemma alone_proceeds:
  assumes "kmsg_step a s s'" "\<not> is_call a" "alone i s"
  shows "alone i s'"
proof -
  have one: "callers s j \<noteq> Idle \<Longrightarrow> j = i" for j using assms(3) unfolding alone_def by blast
  have st: "threadStatus s = NONEXIST \<or> threadStatus s = STOP \<longleftrightarrow> threadStatus s \<noteq> START" by (cases "threadStatus s") simp_all
  from assms(1) show ?thesis
  proof cases
    case (start_test k)
    then have "k = i" using one [of k] by simp
    then show ?thesis using start_test assms(3) st by (simp add: alone_def goes_def)
  next
    case (start_spawn k)
    then have "k = i" using one [of k] by simp
    then show ?thesis using start_spawn assms(3) by (simp add: alone_def goes_def)
  next
    case (start_fault k)
    then have "k = i" using one [of k] by simp
    then show ?thesis using start_fault assms(3) by (simp add: alone_def)
  next
    case (start_set k)
    then have "k = i" using one [of k] by simp
    then show ?thesis using start_set assms(3) by (simp add: alone_def goes_def)
  next
    case (stop_test k)
    then have "k = i" using one [of k] by simp
    then show ?thesis using stop_test assms(3) st by (simp add: alone_def goes_def)
  next
    case (stop_set k)
    then have "k = i" using one [of k] by simp
    then show ?thesis using stop_set assms(3) by (simp add: alone_def goes_def)
  next
    case (stop_joinable k)
    then have "k = i" using one [of k] by simp
    then show ?thesis using stop_joinable assms(3) by (simp add: alone_def goes_def)
  next
    case (stop_join k)
    then have "k = i" using one [of k] by simp
    then show ?thesis using stop_join assms(3) by (simp add: alone_def goes_def)
  next
    case (stop_fault k)
    then have "k = i" using one [of k] by simp
    moreover have "\<not> (\<exists>j. j \<noteq> i \<and> callers s j = StopJoin)" using one by fastforce
    ultimately show ?thesis using stop_fault assms(3) by (auto simp: alone_def)
  next
    case thread_stops
    then show ?thesis using assms(3) by (auto simp: alone_def)
  next
    case thread_fails
    then show ?thesis using assms(3) by (auto simp: alone_def)
  qed (use assms(2) in simp_all)
qed

lemma alone_calls:
  assumes "kmsg_step a s s'" "is_call a" "alone i s" "\<forall>j. callers s j = Idle"
  shows "\<exists>k. alone k s'"
proof -
  obtain k pc where "s' = goes k pc s" "pc \<in> {StartTest, StopTest}" using assms(1,2) by cases auto
  then have "alone k s'" using assms(3,4) by (auto simp: alone_def goes_def)
  then show ?thesis ..
qed

lemma serial_alone: "kmsg_run True s as s' \<Longrightarrow> alone i s \<Longrightarrow> \<exists>k. alone k s'"
proof (induction arbitrary: i rule: kmsg_run.induct)
  case (step a s s' as s'')
  have "\<exists>k. alone k s'" using alone_proceeds [OF step.hyps(1) _ step.prems] alone_calls [OF step.hyps(1) _ step.prems] step.hyps(3) by blast
  then show ?case using step.IH by blast
qed blast

lemma alone_new: "alone 0 LogKmsg_new"
  by (simp add: LogKmsg_new_def alone_def)

section \<open>Starting and stopping as wholes\<close>

text \<open>A call of \<open>Start\<close> or \<open>Stop\<close> that no other one overlaps; \<open>Stop\<close> waits for the end of the thread.\<close>

definition LogKmsg_Start :: "KmsgState \<Rightarrow> KmsgState" where
  "LogKmsg_Start s =
     (if threadStatus s \<in> {NONEXIST, STOP}
      then if joinable s then s\<lparr>faulted := True\<rparr> else s\<lparr>thread_runs := True, joinable := True, threadStatus := START\<rparr>
      else s\<lparr>threadStatus := START\<rparr>)"

definition LogKmsg_Stop :: "KmsgState \<Rightarrow> KmsgState" where
  "LogKmsg_Stop s =
     (if threadStatus s \<in> {NONEXIST, STOP} then s
      else s\<lparr>threadStatus := STOP, thread_runs := (if joinable s then False else thread_runs s), joinable := False\<rparr>)"

lemma kmsg_run_step:
  "kmsg_step a s s' \<Longrightarrow> \<not> faulted s \<Longrightarrow> \<not> is_call a \<or> (\<forall>i. callers s i = Idle) \<Longrightarrow> s' = t \<Longrightarrow> kmsg_run serial t as u \<Longrightarrow> kmsg_run serial s (a # as) u"
  by (auto intro: kmsg_run.step)

lemma goes_goes [simp]: "goes i p (goes i q s) = goes i p s"
  by (simp add: goes_def)

lemma goes_status: "goes i p (s\<lparr>threadStatus := t\<rparr>) = goes i p s\<lparr>threadStatus := t\<rparr>"
  by (cases s) (simp add: goes_def)

lemma goes_Idle: "callers s i = Idle \<Longrightarrow> goes i Idle s = s"
  by (simp add: goes_def fun_upd_idem)

lemma Start_is_run:
  assumes "alone i s" "\<forall>j. callers s j = Idle"
  shows "\<exists>as. kmsg_run True s as (LogKmsg_Start s)"
proof -
  have idle: "goes i Idle s = s" using assms(2) by (simp add: goes_Idle)
  have f: "\<not> faulted s" "threadStatus s \<noteq> START \<Longrightarrow> \<not> joinable s" using assms by (simp_all add: alone_def)
  note call = kmsg_run_step [OF kmsg_step.start_lock [of s i] f(1) _ refl]
  show ?thesis
  proof (cases "threadStatus s = START")
    case True
    have "kmsg_run True (goes i StartTest s) [Proceed i, Proceed i] (LogKmsg_Start s)"
      by (rule kmsg_run_step [OF kmsg_step.start_test, of _ _ "goes i StartSet s"],
          simp_all add: goes_def True f(1),
          rule kmsg_run_step [OF kmsg_step.start_set, of _ i "LogKmsg_Start s"],
          simp_all add: goes_def LogKmsg_Start_def True f(1) fun_upd_idem assms(2) kmsg_run.none)
    then show ?thesis using call assms(2) by fastforce
  next
    case False
    then have st: "threadStatus s \<in> {NONEXIST, STOP}" by (cases "threadStatus s") simp_all
    have "kmsg_run True (goes i StartTest s) [Proceed i, Proceed i, Proceed i] (LogKmsg_Start s)"
      by (rule kmsg_run_step [OF kmsg_step.start_test, of _ _ "goes i StartSpawn s"],
          use st in \<open>simp_all add: goes_def f(1)\<close>,
          rule kmsg_run_step [OF kmsg_step.start_spawn, of _ i "goes i StartSet s\<lparr>thread_runs := True, joinable := True\<rparr>"],
          simp_all add: goes_def f(1) f(2) [OF False],
          rule kmsg_run_step [OF kmsg_step.start_set, of _ i "LogKmsg_Start s"],
          simp_all add: goes_def LogKmsg_Start_def st f(1) f(2) [OF False] fun_upd_idem assms(2) kmsg_run.none)
    then show ?thesis using call assms(2) by fastforce
  qed
qed

lemma Stop_is_run:
  assumes "alone i s" "\<forall>j. callers s j = Idle"
  shows "\<exists>as. kmsg_run True s as (LogKmsg_Stop s)"
proof (cases "threadStatus s = START")
  case True
  have f: "\<not> faulted s" "thread_runs s \<longrightarrow> joinable s" using assms(1) by (simp_all add: alone_def)
  let ?t = "goes i StopJoinable s\<lparr>threadStatus := STOP\<rparr>" and ?j = "goes i StopJoin s\<lparr>threadStatus := STOP\<rparr>"
  have last: "kmsg_run True (?j\<lparr>thread_runs := False\<rparr>) [Proceed i] (LogKmsg_Stop s)" if "joinable s"
    by (rule kmsg_run_step [OF kmsg_step.stop_join, of _ _ "LogKmsg_Stop s"])
      (use that assms(2) in \<open>simp_all add: goes_def f(1) LogKmsg_Stop_def True fun_upd_idem kmsg_run.none\<close>)
  have "\<exists>as. kmsg_run True ?j as (LogKmsg_Stop s)" if "joinable s"
  proof (cases "thread_runs s")
    case True
    have "kmsg_run True ?j [ThreadStops, Proceed i] (LogKmsg_Stop s)"
      by (rule kmsg_run_step [OF kmsg_step.thread_stops _ _ refl]) (use last [OF that] True f(1) in \<open>simp_all add: goes_def\<close>)
    then show ?thesis ..
  next
    case False
    then have "?j\<lparr>thread_runs := False\<rparr> = ?j" by (simp add: goes_def)
    then show ?thesis using last [OF that] by metis
  qed
  moreover have "LogKmsg_Stop s = goes i Idle s\<lparr>threadStatus := STOP\<rparr>" if "\<not> joinable s"
    using that f(2) assms(2) by (simp add: LogKmsg_Stop_def True goes_Idle)
  ultimately obtain as where as: "kmsg_run True (if joinable s then ?j else goes i Idle s\<lparr>threadStatus := STOP\<rparr>) as (LogKmsg_Stop s)"
    by (cases "joinable s") (auto intro: kmsg_run.none)
  have "kmsg_run True ?t (Proceed i # as) (LogKmsg_Stop s)"
    by (rule kmsg_run_step [OF kmsg_step.stop_joinable _ _ refl]) (use as f(1) in \<open>auto simp: goes_status, auto simp: goes_def\<close>)
  then have "kmsg_run True (goes i StopSet s) (Proceed i # Proceed i # as) (LogKmsg_Stop s)"
    by (rule kmsg_run_step [OF kmsg_step.stop_set, rotated -1]) (simp_all add: goes_def f(1))
  then have "kmsg_run True (goes i StopTest s) (Proceed i # Proceed i # Proceed i # as) (LogKmsg_Stop s)"
    by (rule kmsg_run_step [OF kmsg_step.stop_test, rotated -1]) (simp_all add: goes_def f(1) True)
  then have "kmsg_run True s (CallStop i # Proceed i # Proceed i # Proceed i # as) (LogKmsg_Stop s)"
    by (rule kmsg_run_step [OF kmsg_step.stop_call, rotated -1]) (use assms(2) f(1) in simp_all)
  then show ?thesis ..
next
  case False
  then have "LogKmsg_Stop s = s" by (cases "threadStatus s") (simp_all add: LogKmsg_Stop_def)
  then show ?thesis using kmsg_run.none by metis
qed

section \<open>Calls that overlap\<close>

text \<open>
  C33: Calls of \<open>Start\<close> and \<open>Stop\<close> that do not overlap never end the daemon. But the status is set
  behind the creation of the thread: a restart whose thread tests the status first leaves the
  status at \<open>START\<close> with no thread, although calls do not overlap and no read ever failed. And when a
  second caller starts the reading while a first one is stopping it, \<open>Stop\<close> holding no lock, the
  new thread is assigned to the object that is still joinable, which ends the daemon.
\<close>

theorem kmsg_start_stop:
  "(\<forall>as s. kmsg_run True LogKmsg_new as s \<longrightarrow> \<not> faulted s) \<and>
   (\<exists>as s. kmsg_run True LogKmsg_new as s \<and> ThreadFails \<notin> set as \<and> (\<forall>i. callers s i = Idle) \<and> threadStatus s = START \<and> \<not> thread_runs s) \<and>
   (\<exists>s. kmsg_run False LogKmsg_new [CallStart 0, Proceed 0, Proceed 0, Proceed 0, CallStop 0, Proceed 0, Proceed 0, CallStart 1, Proceed 1, Proceed 1] s \<and>
        faulted s)"
proof (intro conjI)
  show "\<forall>as s. kmsg_run True LogKmsg_new as s \<longrightarrow> \<not> faulted s"
    using serial_alone [OF _ alone_new] unfolding alone_def by blast
  let ?s = "\<lambda>t r j x y. \<lparr>threadStatus = t, thread_runs = r, joinable = j, faulted = False, callers = (\<lambda>_. Idle)(0 := x, 1 := y)\<rparr>"
  have new: "LogKmsg_new = ?s NONEXIST False False Idle Idle" by (simp add: LogKmsg_new_def fun_eq_iff)
  note sim = goes_def fun_eq_iff
  have start: "kmsg_run ser (?s START True True Idle Idle) as u \<Longrightarrow> kmsg_run ser LogKmsg_new (CallStart 0 # Proceed 0 # Proceed 0 # Proceed 0 # as) u" for ser as u
    unfolding new
    by (rule kmsg_run_step [OF kmsg_step.start_lock, of _ _ "?s NONEXIST False False StartTest Idle"], simp_all add: sim,
        rule kmsg_run_step [OF kmsg_step.start_test, of _ _ "?s NONEXIST False False StartSpawn Idle"], simp_all add: sim,
        rule kmsg_run_step [OF kmsg_step.start_spawn, of _ _ "?s NONEXIST True True StartSet Idle"], simp_all add: sim,
        rule kmsg_run_step [OF kmsg_step.start_set, of _ _ "?s START True True Idle Idle"], simp_all add: sim)
  have stop: "kmsg_run ser (?s STOP True True StopJoinable Idle) as u \<Longrightarrow>
      kmsg_run ser (?s START True True Idle Idle) (CallStop 0 # Proceed 0 # Proceed 0 # as) u" for ser as u
    by (rule kmsg_run_step [OF kmsg_step.stop_call, of _ _ "?s START True True StopTest Idle"], simp_all add: sim,
        rule kmsg_run_step [OF kmsg_step.stop_test, of _ _ "?s START True True StopSet Idle"], simp_all add: sim,
        rule kmsg_run_step [OF kmsg_step.stop_set, of _ _ "?s STOP True True StopJoinable Idle"], simp_all add: sim)
  have restart: "kmsg_run True (?s STOP True True StopJoinable Idle)
      [Proceed 0, ThreadStops, Proceed 0, CallStart 0, Proceed 0, Proceed 0, ThreadStops, Proceed 0] (?s START False True Idle Idle)"
    by (rule kmsg_run_step [OF kmsg_step.stop_joinable, of _ _ "?s STOP True True StopJoin Idle"], simp_all add: sim,
        rule kmsg_run_step [OF kmsg_step.thread_stops, of _ "?s STOP False True StopJoin Idle"], simp_all add: sim,
        rule kmsg_run_step [OF kmsg_step.stop_join, of _ _ "?s STOP False False Idle Idle"], simp_all add: sim,
        rule kmsg_run_step [OF kmsg_step.start_lock, of _ _ "?s STOP False False StartTest Idle"], simp_all add: sim,
        rule kmsg_run_step [OF kmsg_step.start_test, of _ _ "?s STOP False False StartSpawn Idle"], simp_all add: sim,
        rule kmsg_run_step [OF kmsg_step.start_spawn, of _ _ "?s STOP True True StartSet Idle"], simp_all add: sim,
        rule kmsg_run_step [OF kmsg_step.thread_stops, of _ "?s STOP False True StartSet Idle"], simp_all add: sim,
        rule kmsg_run_step [OF kmsg_step.start_set, of _ _ "?s START False True Idle Idle"], simp_all add: sim kmsg_run.none)
  show "\<exists>as s. kmsg_run True LogKmsg_new as s \<and> ThreadFails \<notin> set as \<and> (\<forall>i. callers s i = Idle) \<and> threadStatus s = START \<and> \<not> thread_runs s"
    by (rule exI, rule exI, rule conjI, rule start [OF stop [OF restart]]) simp
  have fault: "kmsg_run False (?s STOP True True StopJoinable Idle) [CallStart 1, Proceed 1, Proceed 1] ((?s STOP True True StopJoinable StartSpawn)\<lparr>faulted := True\<rparr>)"
    by (rule kmsg_run.step [OF kmsg_step.start_lock], simp_all,
        rule kmsg_run_step [OF kmsg_step.start_test, of _ _ "?s STOP True True StopJoinable StartSpawn"], simp_all add: sim,
        rule kmsg_run_step [OF kmsg_step.start_fault, of _ _ "(?s STOP True True StopJoinable StartSpawn)\<lparr>faulted := True\<rparr>"], simp_all add: kmsg_run.none)
  show "\<exists>s. kmsg_run False LogKmsg_new [CallStart 0, Proceed 0, Proceed 0, Proceed 0, CallStop 0, Proceed 0, Proceed 0, CallStart 1, Proceed 1, Proceed 1] s \<and> faulted s"
    by (rule exI, rule conjI, rule start [OF stop [OF fault]]) simp
qed

text \<open>The daemon goes on while calls do not overlap, here through a whole call of \<open>Start\<close>.\<close>

theorem kmsg_start_stop_witness:
  "\<exists>as. kmsg_run True LogKmsg_new as (LogKmsg_Start LogKmsg_new) \<and> \<not> faulted (LogKmsg_Start LogKmsg_new)"
proof -
  have "\<forall>j. callers LogKmsg_new j = Idle" by (simp add: LogKmsg_new_def)
  from Start_is_run [OF alone_new this] show ?thesis using kmsg_start_stop by blast
qed

end
