(* ===== verification/Hilog_Cmd.thy ===== *)
theory Hilog_Cmd
  imports Log_Stats
begin

text \<open>
  The messages between hilogd and its clients, \<open>hilog_cmd.h\<close>. A structure is a record of its
  fields; the arrays of characters are lists. A pointer inside a statistics message is null on the
  wire and is set by the receiver: \<open>None\<close> or \<open>Some\<close> the array. The responses with a placeholder
  carry no information and have no record.
\<close>

section \<open>Commands\<close>

datatype IoctlCmd = OUTPUT_RQST | OUTPUT_RSP | PERSIST_START_RQST | PERSIST_START_RSP | PERSIST_STOP_RQST
  | PERSIST_STOP_RSP | PERSIST_QUERY_RQST | PERSIST_QUERY_RSP | PERSIST_REFRESH_RQST | PERSIST_REFRESH_RSP
  | PERSIST_CLEAR_RQST | PERSIST_CLEAR_RSP | BUFFERSIZE_GET_RQST | BUFFERSIZE_GET_RSP | BUFFERSIZE_SET_RQST
  | BUFFERSIZE_SET_RSP | STATS_QUERY_RQST | STATS_QUERY_RSP | STATS_CLEAR_RQST | STATS_CLEAR_RSP
  | DOMAIN_FLOWCTRL_RQST | DOMAIN_FLOWCTRL_RSP | LOG_REMOVE_RQST | LOG_REMOVE_RSP | KMSG_ENABLE_RQST
  | KMSG_ENABLE_RSP | RSP_ERROR

definition IoctlCmds :: "IoctlCmd list" where
  "IoctlCmds = [OUTPUT_RQST, OUTPUT_RSP, PERSIST_START_RQST, PERSIST_START_RSP, PERSIST_STOP_RQST, PERSIST_STOP_RSP,
     PERSIST_QUERY_RQST, PERSIST_QUERY_RSP, PERSIST_REFRESH_RQST, PERSIST_REFRESH_RSP, PERSIST_CLEAR_RQST,
     PERSIST_CLEAR_RSP, BUFFERSIZE_GET_RQST, BUFFERSIZE_GET_RSP, BUFFERSIZE_SET_RQST, BUFFERSIZE_SET_RSP,
     STATS_QUERY_RQST, STATS_QUERY_RSP, STATS_CLEAR_RQST, STATS_CLEAR_RSP, DOMAIN_FLOWCTRL_RQST,
     DOMAIN_FLOWCTRL_RSP, LOG_REMOVE_RQST, LOG_REMOVE_RSP, KMSG_ENABLE_RQST, KMSG_ENABLE_RSP, RSP_ERROR]"

text \<open>The commands are numbered from 1 in the order of the enumeration.\<close>

definition cmd_of :: "u8 \<Rightarrow> IoctlCmd option" where
  "cmd_of c = (let i = unat c in if 1 \<le> i \<and> i \<le> length IoctlCmds then Some (IoctlCmds ! (i - 1)) else None)"

fun index_of :: "'a \<Rightarrow> 'a list \<Rightarrow> nat" where
  "index_of a [] = 0"
| "index_of a (x # xs) = (if a = x then 0 else Suc (index_of a xs))"

definition code_of :: "IoctlCmd \<Rightarrow> u8" where
  "code_of cmd = of_nat (index_of cmd IoctlCmds + 1)"

lemma cmd_of_code: "cmd_of (code_of cmd) = Some cmd"
  by (cases cmd) (simp_all add: cmd_of_def code_of_def IoctlCmds_def)

record MsgHeader =
  h_ver :: u8
  h_cmd :: u8
  h_err :: "16 word"
  h_len :: u16

definition MSG_VER :: u8 where
  [simp]: "MSG_VER = 0"

section \<open>Requests and responses\<close>

record OutputRqst =
  rq_headLines :: u16
  rq_types :: u16
  rq_levels :: u16
  rq_blackDomain :: bool
  rq_domainCount :: u8
  rq_domains :: "u32 list"
  rq_blackTag :: bool
  rq_tagCount :: u8
  rq_tags :: "char list list"
  rq_blackPid :: bool
  rq_pidCount :: int
  rq_pids :: "u32 list"
  rq_regex :: "char list"
  rq_noBlock :: bool
  rq_tailLines :: u16

record OutputRsp =
  or_len :: u16
  or_level :: u8
  or_type :: u8
  or_pid :: u32
  or_tid :: u32
  or_domain :: u32
  or_tv_sec :: u32
  or_tv_nsec :: u32
  or_mono_sec :: u32
  or_tagLen :: u8
  or_data :: "char option list"

record PersistStartRqst =
  pr_outputFilter :: OutputRqst
  pr_jobId :: u32
  pr_fileSize :: u32
  pr_fileNum :: u16
  pr_fileName :: "char list"
  pr_stream :: "char list"

record JobsRsp =
  js_jobNum :: u8
  js_jobId :: "u32 list"

text \<open>
  What \<open>PersistQueryRsp\<close> sets of a task; \<open>ti_rest\<close> is number and size of the files, path and
  compression, or \<open>None\<close> when they are indeterminate.
\<close>

record PersistTaskInfo =
  ti_jobId :: u32
  ti_types :: u16
  ti_rest :: "(u16 \<times> u32 \<times> string \<times> string) option"

record BufferSizeSetRqst =
  bs_types :: u16
  bs_size :: int

section \<open>Statistics\<close>

record StatsRsp =
  r_lines :: "u32 list"
  r_len :: "u64 list"
  r_dropped :: u32
  r_freqMax :: rat
  r_freqMaxSec :: u32
  r_freqMaxNsec :: u32
  r_throughputMax :: rat
  r_tpMaxSec :: u32
  r_tpMaxNsec :: u32

record TagStatsRsp =
  tr_tag :: string
  tr_stats :: StatsRsp

record DomainStatsRsp =
  dr_domain :: u32
  dr_stats :: StatsRsp
  dr_tagNum :: u16
  dr_tStats :: "TagStatsRsp list option"

record LogTypeDomainStatsRsp =
  ld_type :: u16
  ld_domainNum :: u16
  ld_dStats :: "DomainStatsRsp list option"

record LogTypeStatsRsp =
  lt_type :: u16
  lt_stats :: StatsRsp

record ProcStatsRsp =
  pp_pid :: u32
  pp_name :: string
  pp_stats :: StatsRsp
  pp_typeNum :: u16
  pp_tagNum :: u16
  pp_lStats :: "LogTypeStatsRsp list option"
  pp_tStats :: "TagStatsRsp list option"

record StatsQueryRsp =
  sq_tsBeginSec :: u32
  sq_tsBeginNsec :: u32
  sq_durationSec :: u32
  sq_durationNsec :: u32
  sq_totalLines :: "u32 list"
  sq_totalLens :: "u64 list"
  sq_typeNum :: u16
  sq_procNum :: u16
  sq_ldStats :: "LogTypeDomainStatsRsp list option"
  sq_pStats :: "ProcStatsRsp list option"

section \<open>Packets\<close>

text \<open>
  The sockets are of type \<open>SOCK_SEQPACKET\<close>: what one call writes, one call reads. A packet is what
  one call writes. In the last message of an output, \<open>PktOutputEnd\<close>, every field but \<open>end\<close> is
  left uninitialised.
\<close>

datatype packet = PktHeader MsgHeader | PktOutput OutputRsp | PktOutputEnd
  | PktJobId u32 | PktJobs JobsRsp | PktTasks "PersistTaskInfo list" | PktPlaceholder
  | PktSizes "u32 list" | PktTypes u16
  | PktStats StatsQueryRsp | PktTypeDomains "LogTypeDomainStatsRsp list" | PktDomains "DomainStatsRsp list"
  | PktTags "TagStatsRsp list" | PktProcs "ProcStatsRsp list" | PktProcTypes "LogTypeStatsRsp list"

end
