(* ===== verification/Stats_Report.thy ===== *)
theory Stats_Report
  imports Hilog_Cmd
begin

text \<open>
  The statistics report: how \<open>service_controller.cpp\<close> sends the tables of \<open>LogStats\<close> and how
  \<open>log_ioctl.cpp\<close> on the side of the client reads them back. The tables are hash maps; the lists
  of the model are in the order of their iteration.
\<close>

section \<open>Sending\<close>

definition StatsEntry2StatsRsp :: "StatsEntry \<Rightarrow> StatsRsp" where
  "StatsEntry2StatsRsp entry =
     \<lparr>r_lines = take LevelNum (e_lines entry), r_len = take LevelNum (e_len entry), r_dropped = e_dropped entry,
      r_freqMax = GetFreqMax entry, r_freqMaxSec = tv_sec (realTimeFreqMax entry), r_freqMaxNsec = tv_nsec (realTimeFreqMax entry),
      r_throughputMax = GetThroughputMax entry, r_tpMaxSec = tv_sec (realTimeThroughputMax entry),
      r_tpMaxNsec = tv_nsec (realTimeThroughputMax entry)\<rparr>"

text \<open>The non-empty tables with their types.\<close>

definition used_types :: "LogStats \<Rightarrow> (nat \<times> DomainTable) list" where
  "used_types st = filter (\<lambda>(j, dt). dt \<noteq> []) (enumerate 0 (domainStats st))"

definition SendOverallStats :: "LogTimeStamp \<Rightarrow> LogStats \<Rightarrow> packet list" where
  "SendOverallStats monoNow st =
     (let d = ts_minus monoNow (monoBegin st)
      in [PktStats \<lparr>sq_tsBeginSec = tv_sec (tsBegin st), sq_tsBeginNsec = tv_nsec (tsBegin st), sq_durationSec = tv_sec d,
            sq_durationNsec = tv_nsec d, sq_totalLines = totalLines st, sq_totalLens = totalLens st,
            sq_typeNum = of_nat (length (used_types st)), sq_procNum = of_nat (length (pidStats st)),
            sq_ldStats = None, sq_pStats = None\<rparr>])"

definition SendLogTypeDomainStats :: "LogStats \<Rightarrow> packet list" where
  "SendLogTypeDomainStats st =
     (if used_types st = [] then []
      else [PktTypeDomains (map (\<lambda>(j, dt). \<lparr>ld_type = of_nat j, ld_domainNum = of_nat (length dt), ld_dStats = None\<rparr>) (used_types st))])"

text \<open>A name is cut to the array it is copied into.\<close>

definition name_field :: "nat \<Rightarrow> string \<Rightarrow> string" where
  "name_field n s = c_str (snd (strncpy_s n s (n - 1)))"

definition domain_rsp :: "bool \<Rightarrow> u32 \<times> DomainStatsEntry \<Rightarrow> DomainStatsRsp" where
  "domain_rsp tagEnabled it =
     \<lparr>dr_domain = fst it, dr_stats = StatsEntry2StatsRsp (ds_stats (snd it)),
      dr_tagNum = (if tagEnabled then of_nat (length (ds_tagStats (snd it))) else 0), dr_tStats = None\<rparr>"

definition SendDomainStats :: "LogStats \<Rightarrow> packet list" where
  "SendDomainStats st = map (\<lambda>(j, dt). PktDomains (map (domain_rsp (tagEnable st)) dt)) (used_types st)"

definition tag_rsp :: "string \<times> StatsEntry \<Rightarrow> TagStatsRsp" where
  "tag_rsp it = \<lparr>tr_tag = name_field MAX_TAG_LEN (fst it), tr_stats = StatsEntry2StatsRsp (snd it)\<rparr>"

definition SendTagStats :: "TagTable \<Rightarrow> packet list" where
  "SendTagStats tagTable = (if tagTable = [] then [] else [PktTags (map tag_rsp tagTable)])"

definition SendDomainTagStats :: "LogStats \<Rightarrow> packet list" where
  "SendDomainTagStats st =
     concat (map (\<lambda>(j, dt). concat (map (\<lambda>(k, e). SendTagStats (ds_tagStats e)) dt)) (used_types st))"

definition used_entries :: "PidStatsEntry \<Rightarrow> (nat \<times> StatsEntry) list" where
  "used_entries p = filter (\<lambda>(j, e). GetTotalLines e \<noteq> 0) (enumerate 0 (ps_stats p))"

definition proc_rsp :: "bool \<Rightarrow> u32 \<times> PidStatsEntry \<Rightarrow> ProcStatsRsp" where
  "proc_rsp tagEnabled it =
     \<lparr>pp_pid = fst it, pp_name = name_field MAX_PROC_NAME_LEN (ps_name (snd it)),
      pp_stats = StatsEntry2StatsRsp (ps_statsAll (snd it)), pp_typeNum = of_nat (length (used_entries (snd it))),
      pp_tagNum = (if tagEnabled then of_nat (length (ps_tagStats (snd it))) else 0), pp_lStats = None, pp_tStats = None\<rparr>"

definition SendProcStats :: "LogStats \<Rightarrow> packet list" where
  "SendProcStats st = (if pidStats st = [] then [] else [PktProcs (map (proc_rsp (tagEnable st)) (pidStats st))])"

definition type_rsp :: "nat \<times> StatsEntry \<Rightarrow> LogTypeStatsRsp" where
  "type_rsp it = \<lparr>lt_type = of_nat (fst it), lt_stats = StatsEntry2StatsRsp (snd it)\<rparr>"

text \<open>A process without a counted line ends the function, not only its own turn.\<close>

fun SendProcLogTypeStats_loop :: "PidTable \<Rightarrow> packet list" where
  "SendProcLogTypeStats_loop [] = []"
| "SendProcLogTypeStats_loop ((k, p) # rest) =
     (if used_entries p = [] then [] else PktProcTypes (map type_rsp (used_entries p)) # SendProcLogTypeStats_loop rest)"

definition SendProcLogTypeStats :: "LogStats \<Rightarrow> packet list" where
  "SendProcLogTypeStats st = SendProcLogTypeStats_loop (pidStats st)"

definition SendProcTagStats :: "LogStats \<Rightarrow> packet list" where
  "SendProcTagStats st = concat (map (\<lambda>(k, p). SendTagStats (ps_tagStats p)) (pidStats st))"

definition WriteRspHeader :: "IoctlCmd \<Rightarrow> nat \<Rightarrow> packet" where
  "WriteRspHeader cmd len = PktHeader \<lparr>h_ver = MSG_VER, h_cmd = code_of cmd, h_err = 0, h_len = of_nat len\<rparr>"

definition WriteErrorRsp :: "int \<Rightarrow> packet" where
  "WriteErrorRsp code = PktHeader \<lparr>h_ver = MSG_VER, h_cmd = code_of RSP_ERROR, h_err = of_int code, h_len = 0\<rparr>"

text \<open>The size of the packed structure with two pointers of 8 bytes.\<close>

definition SIZEOF_StatsQueryRsp :: nat where
  "SIZEOF_StatsQueryRsp = 4 * 4 + LevelNum * (4 + 8) + 2 * 2 + 2 * 8"

definition HandleStatsQueryRqst :: "LogTimeStamp \<Rightarrow> LogStats \<Rightarrow> packet list" where
  "HandleStatsQueryRqst monoNow st =
     (if \<not> enable st then [WriteErrorRsp ERR_STATS_NOT_ENABLE]
      else [WriteRspHeader STATS_QUERY_RSP SIZEOF_StatsQueryRsp] @ SendOverallStats monoNow st @ SendLogTypeDomainStats st @
        SendDomainStats st @ (if tagEnable st then SendDomainTagStats st else []) @ SendProcStats st @
        SendProcLogTypeStats st @ (if tagEnable st then SendProcTagStats st else []))"

section \<open>Receiving\<close>

text \<open>
  The client reads into arrays of the announced size. \<open>Garbled\<close> stands for a packet of another
  kind or size than the client expects, whose bytes it would misread.
\<close>

datatype recv_error = Failed int | Garbled

type_synonym 'a recv = "packet list \<Rightarrow> recv_error + 'a \<times> packet list"

definition recv_bind :: "'a recv \<Rightarrow> ('a \<Rightarrow> 'b recv) \<Rightarrow> 'b recv" where
  "recv_bind r k ps = (case r ps of Inl e \<Rightarrow> Inl e | Inr (a, ps') \<Rightarrow> k a ps')"

definition recv_return :: "'a \<Rightarrow> 'a recv" where
  "recv_return a ps = Inr (a, ps)"

definition recv_array :: "(packet \<Rightarrow> 'a list option) \<Rightarrow> nat \<Rightarrow> 'a list recv" where
  "recv_array sel n ps =
     (case ps of
        [] \<Rightarrow> Inl (Failed RET_FAIL)
      | p # ps' \<Rightarrow> (case sel p of Some xs \<Rightarrow> if length xs = n then Inr (xs, ps') else Inl Garbled | None \<Rightarrow> Inl Garbled))"

fun recv_map :: "('a \<Rightarrow> 'b recv) \<Rightarrow> 'a list \<Rightarrow> 'b list recv" where
  "recv_map f [] = recv_return []"
| "recv_map f (x # xs) = recv_bind (f x) (\<lambda>y. recv_bind (recv_map f xs) (\<lambda>ys. recv_return (y # ys)))"

definition sel_type_domains :: "packet \<Rightarrow> LogTypeDomainStatsRsp list option" where
  "sel_type_domains p = (case p of PktTypeDomains xs \<Rightarrow> Some xs | _ \<Rightarrow> None)"

definition sel_domains :: "packet \<Rightarrow> DomainStatsRsp list option" where
  "sel_domains p = (case p of PktDomains xs \<Rightarrow> Some xs | _ \<Rightarrow> None)"

definition sel_tags :: "packet \<Rightarrow> TagStatsRsp list option" where
  "sel_tags p = (case p of PktTags xs \<Rightarrow> Some xs | _ \<Rightarrow> None)"

definition sel_procs :: "packet \<Rightarrow> ProcStatsRsp list option" where
  "sel_procs p = (case p of PktProcs xs \<Rightarrow> Some xs | _ \<Rightarrow> None)"

definition sel_proc_types :: "packet \<Rightarrow> LogTypeStatsRsp list option" where
  "sel_proc_types p = (case p of PktProcTypes xs \<Rightarrow> Some xs | _ \<Rightarrow> None)"

definition ReceiveLogTypeDomainStats :: "StatsQueryRsp \<Rightarrow> StatsQueryRsp recv" where
  "ReceiveLogTypeDomainStats rsp =
     (if sq_typeNum rsp = 0 then (\<lambda>ps. Inl (Failed RET_FAIL))
      else recv_bind (recv_array sel_type_domains (unat (sq_typeNum rsp))) (\<lambda>xs. recv_return (rsp\<lparr>sq_ldStats := Some xs\<rparr>)))"

text \<open>One turn of the loop over the types.\<close>

definition recv_domains :: "LogTypeDomainStatsRsp \<Rightarrow> LogTypeDomainStatsRsp recv" where
  "recv_domains ld =
     (if ld_domainNum ld = 0 then recv_return ld
      else recv_bind (recv_array sel_domains (unat (ld_domainNum ld))) (\<lambda>xs. recv_return (ld\<lparr>ld_dStats := Some xs\<rparr>)))"

definition ReceiveDomainStats :: "StatsQueryRsp \<Rightarrow> StatsQueryRsp recv" where
  "ReceiveDomainStats rsp =
     recv_bind (recv_map recv_domains (the (sq_ldStats rsp))) (\<lambda>lds. recv_return (rsp\<lparr>sq_ldStats := Some lds\<rparr>))"

definition recv_tags :: "u16 \<Rightarrow> TagStatsRsp list option recv" where
  "recv_tags tagNum =
     (if tagNum = 0 then recv_return None else recv_bind (recv_array sel_tags (unat tagNum)) (\<lambda>xs. recv_return (Some xs)))"

text \<open>The array of domains is missing only for a type without domains, over which the inner loop has no turn.\<close>

definition recv_domain_tags :: "DomainStatsRsp \<Rightarrow> DomainStatsRsp recv" where
  "recv_domain_tags d = recv_bind (recv_tags (dr_tagNum d)) (\<lambda>ts. recv_return (d\<lparr>dr_tStats := ts\<rparr>))"

definition recv_type_tags :: "LogTypeDomainStatsRsp \<Rightarrow> LogTypeDomainStatsRsp recv" where
  "recv_type_tags ld =
     (case ld_dStats ld of
        None \<Rightarrow> recv_return ld
      | Some ds \<Rightarrow> recv_bind (recv_map recv_domain_tags ds) (\<lambda>ds'. recv_return (ld\<lparr>ld_dStats := Some ds'\<rparr>)))"

definition ReceiveDomainTagStats :: "StatsQueryRsp \<Rightarrow> StatsQueryRsp recv" where
  "ReceiveDomainTagStats rsp =
     recv_bind (recv_map recv_type_tags (the (sq_ldStats rsp))) (\<lambda>lds. recv_return (rsp\<lparr>sq_ldStats := Some lds\<rparr>))"

definition ReceiveProcStats :: "StatsQueryRsp \<Rightarrow> StatsQueryRsp recv" where
  "ReceiveProcStats rsp =
     (if sq_procNum rsp = 0 then (\<lambda>ps. Inl (Failed RET_FAIL))
      else recv_bind (recv_array sel_procs (unat (sq_procNum rsp))) (\<lambda>xs. recv_return (rsp\<lparr>sq_pStats := Some xs\<rparr>)))"

definition recv_proc_types :: "ProcStatsRsp \<Rightarrow> ProcStatsRsp recv" where
  "recv_proc_types p =
     (if pp_typeNum p = 0 then recv_return p
      else recv_bind (recv_array sel_proc_types (unat (pp_typeNum p))) (\<lambda>xs. recv_return (p\<lparr>pp_lStats := Some xs\<rparr>)))"

definition ReceiveProcLogTypeStats :: "StatsQueryRsp \<Rightarrow> StatsQueryRsp recv" where
  "ReceiveProcLogTypeStats rsp =
     recv_bind (recv_map recv_proc_types (the (sq_pStats rsp))) (\<lambda>pp. recv_return (rsp\<lparr>sq_pStats := Some pp\<rparr>))"

definition recv_proc_tags :: "ProcStatsRsp \<Rightarrow> ProcStatsRsp recv" where
  "recv_proc_tags p = recv_bind (recv_tags (pp_tagNum p)) (\<lambda>ts. recv_return (p\<lparr>pp_tStats := ts\<rparr>))"

definition ReceiveProcTagStats :: "StatsQueryRsp \<Rightarrow> StatsQueryRsp recv" where
  "ReceiveProcTagStats rsp =
     recv_bind (recv_map recv_proc_tags (the (sq_pStats rsp))) (\<lambda>pp. recv_return (rsp\<lparr>sq_pStats := Some pp\<rparr>))"

definition recv_stats :: "StatsQueryRsp recv" where
  "recv_stats ps =
     (case ps of
        [] \<Rightarrow> Inl (Failed ERR_SOCKET_RECEIVE_RSP)
      | p # ps' \<Rightarrow> (case p of PktStats rsp \<Rightarrow> Inr (rsp\<lparr>sq_ldStats := None, sq_pStats := None\<rparr>, ps') | _ \<Rightarrow> Inl Garbled))"

definition ReceiveAndProcessStatsQueryRsp :: "StatsQueryRsp recv" where
  "ReceiveAndProcessStatsQueryRsp =
     recv_bind recv_stats (\<lambda>rsp. recv_bind (ReceiveLogTypeDomainStats rsp) (\<lambda>rsp. recv_bind (ReceiveDomainStats rsp)
       (\<lambda>rsp. recv_bind (ReceiveDomainTagStats rsp) (\<lambda>rsp. recv_bind (ReceiveProcStats rsp)
         (\<lambda>rsp. recv_bind (ReceiveProcLogTypeStats rsp) ReceiveProcTagStats)))))"

text \<open>
  The head of a response, as \<open>RequestMsgHead\<close> checks it: an error response returns its code,
  another command or size is refused.
\<close>

definition ReceiveRspHead :: "IoctlCmd \<Rightarrow> nat \<Rightarrow> unit recv" where
  "ReceiveRspHead rspCmd sz ps =
     (case ps of
        [] \<Rightarrow> Inl (Failed ERR_SOCKET_RECEIVE_RSP)
      | p # ps' \<Rightarrow>
          (case p of
             PktHeader hdr \<Rightarrow>
               if h_cmd hdr = code_of RSP_ERROR then Inl (Failed (sint (h_err hdr)))
               else if h_cmd hdr \<noteq> code_of rspCmd then Inl (Failed RET_FAIL)
               else if unat (h_len hdr) \<noteq> sz then Inl (Failed ERR_MSG_LEN_INVALID)
               else Inr ((), ps')
           | _ \<Rightarrow> Inl Garbled))"

definition RequestStatsQuery :: "StatsQueryRsp recv" where
  "RequestStatsQuery = recv_bind (ReceiveRspHead STATS_QUERY_RSP SIZEOF_StatsQueryRsp) (\<lambda>u. ReceiveAndProcessStatsQueryRsp)"

section \<open>The client receives the tables\<close>

text \<open>The report with all tables in place.\<close>

definition tags_report :: "bool \<Rightarrow> TagTable \<Rightarrow> TagStatsRsp list option" where
  "tags_report tagEnabled tt = (if tagEnabled \<and> tt \<noteq> [] then Some (map tag_rsp tt) else None)"

definition domain_report :: "bool \<Rightarrow> u32 \<times> DomainStatsEntry \<Rightarrow> DomainStatsRsp" where
  "domain_report te it = (domain_rsp te it)\<lparr>dr_tStats := tags_report te (ds_tagStats (snd it))\<rparr>"

definition type_domain_report :: "bool \<Rightarrow> nat \<times> DomainTable \<Rightarrow> LogTypeDomainStatsRsp" where
  "type_domain_report te it =
     \<lparr>ld_type = of_nat (fst it), ld_domainNum = of_nat (length (snd it)), ld_dStats = Some (map (domain_report te) (snd it))\<rparr>"

definition proc_report :: "bool \<Rightarrow> u32 \<times> PidStatsEntry \<Rightarrow> ProcStatsRsp" where
  "proc_report te it =
     (proc_rsp te it)\<lparr>pp_lStats := Some (map type_rsp (used_entries (snd it))), pp_tStats := tags_report te (ps_tagStats (snd it))\<rparr>"

definition stats_report :: "LogTimeStamp \<Rightarrow> LogStats \<Rightarrow> StatsQueryRsp" where
  "stats_report monoNow st =
     (let d = ts_minus monoNow (monoBegin st)
      in \<lparr>sq_tsBeginSec = tv_sec (tsBegin st), sq_tsBeginNsec = tv_nsec (tsBegin st), sq_durationSec = tv_sec d,
          sq_durationNsec = tv_nsec d, sq_totalLines = totalLines st, sq_totalLens = totalLens st,
          sq_typeNum = of_nat (length (used_types st)), sq_procNum = of_nat (length (pidStats st)),
          sq_ldStats = Some (map (type_domain_report (tagEnable st)) (used_types st)),
          sq_pStats = Some (map (proc_report (tagEnable st)) (pidStats st))\<rparr>)"

text \<open>The 16-bit counts of the messages suffice, and every process has a counted line.\<close>

definition counts_fit :: "LogStats \<Rightarrow> bool" where
  "counts_fit st \<longleftrightarrow> length (domainStats st) < 2 ^ 16 \<and> length (pidStats st) < 2 ^ 16 \<and>
     list_all (\<lambda>dt. length dt < 2 ^ 16 \<and> list_all (\<lambda>(k, e). length (ds_tagStats e) < 2 ^ 16) dt) (domainStats st) \<and>
     list_all (\<lambda>(k, p). length (ps_stats p) < 2 ^ 16 \<and> length (ps_tagStats p) < 2 ^ 16) (pidStats st)"

definition reportable :: "LogStats \<Rightarrow> bool" where
  "reportable st \<longleftrightarrow> counts_fit st \<and> used_types st \<noteq> [] \<and> pidStats st \<noteq> [] \<and>
     list_all (\<lambda>(k, p). used_entries p \<noteq> []) (pidStats st)"

lemma unat_u16: "n < 2 ^ 16 \<Longrightarrow> unat (of_nat n :: u16) = n"
  by (simp add: unat_of_nat)

lemma u16_zero: "n < 2 ^ 16 \<Longrightarrow> (of_nat n :: u16) = 0 \<longleftrightarrow> n = 0"
  by (auto dest: arg_cong [where f = unat] simp: unat_u16 simp del: word_of_nat_eq_0_iff)

lemma recv_bind_Inr: "r ps = Inr (a, ps') \<Longrightarrow> recv_bind r k ps = k a ps'"
  by (simp add: recv_bind_def)

lemma recv_return_Inr: "recv_return a ps = Inr (a, ps)"
  by (simp add: recv_return_def)

text \<open>Reading item by item what was sent item by item.\<close>

lemma recv_map_sent:
  assumes "\<And>x ps. x \<in> set xs \<Longrightarrow> f (w x) (out x @ ps) = Inr (g x, ps)"
  shows "recv_map f (map w xs) (concat (map out xs) @ ps) = Inr (map g xs, ps)"
  using assms by (induction xs) (simp_all add: recv_bind_def recv_return_def)

lemma recv_array_sent:
  "sel p = Some xs \<Longrightarrow> length xs = n \<Longrightarrow> recv_array sel n (p # ps) = Inr (xs, ps)"
  by (simp add: recv_array_def)

lemma recv_tags_sent:
  assumes "length tt < 2 ^ 16"
  shows "recv_tags (if te then of_nat (length tt) else 0) ((if te then SendTagStats tt else []) @ ps) = Inr (tags_report te tt, ps)"
proof (cases "te \<and> tt \<noteq> []")
  case True
  then have "recv_array sel_tags (length tt) (PktTags (map tag_rsp tt) # ps) = Inr (map tag_rsp tt, ps)"
    by (simp add: recv_array_def sel_tags_def)
  moreover have "(of_nat (length tt) :: u16) \<noteq> 0" using True assms by (simp only: u16_zero) simp
  ultimately show ?thesis
    using True unat_u16 [OF assms]
    by (simp add: recv_tags_def SendTagStats_def tags_report_def recv_bind_def recv_return_def)
next
  case False
  then have "(if te then of_nat (length tt) else 0 :: u16) = 0" "(if te then SendTagStats tt else []) = []" "tags_report te tt = None"
    by (auto simp: SendTagStats_def tags_report_def)
  then show ?thesis by (simp only:) (simp add: recv_tags_def recv_return_def)
qed

lemma used_types_fit:
  assumes "counts_fit st" "(j, dt) \<in> set (used_types st)"
  shows "dt \<noteq> []" "length dt < 2 ^ 16" "\<And>k e. (k, e) \<in> set dt \<Longrightarrow> length (ds_tagStats e) < 2 ^ 16"
proof -
  have "dt \<in> set (domainStats st)"
    using assms(2) by (auto simp: used_types_def in_set_enumerate_eq)
  then show "length dt < 2 ^ 16" "\<And>k e. (k, e) \<in> set dt \<Longrightarrow> length (ds_tagStats e) < 2 ^ 16"
    using assms(1) by (auto simp: counts_fit_def list_all_iff)
  show "dt \<noteq> []" using assms(2) by (auto simp: used_types_def)
qed

lemma length_used_types: "length (used_types st) \<le> length (domainStats st)"
  unfolding used_types_def using length_filter_le [of _ "enumerate 0 (domainStats st)"] by simp

lemma length_used_entries: "length (used_entries p) \<le> length (ps_stats p)"
  unfolding used_entries_def using length_filter_le [of _ "enumerate 0 (ps_stats p)"] by simp

text \<open>Each loop of the client over what the matching loop of the daemon sent.\<close>

definition type_head :: "nat \<times> DomainTable \<Rightarrow> LogTypeDomainStatsRsp" where
  "type_head it = \<lparr>ld_type = of_nat (fst it), ld_domainNum = of_nat (length (snd it)), ld_dStats = None\<rparr>"

definition type_domains :: "bool \<Rightarrow> nat \<times> DomainTable \<Rightarrow> LogTypeDomainStatsRsp" where
  "type_domains te it = (type_head it)\<lparr>ld_dStats := Some (map (domain_rsp te) (snd it))\<rparr>"

lemma domains_sent:
  assumes "counts_fit st"
  shows "recv_map recv_domains (map type_head (used_types st)) (SendDomainStats st @ ps) =
    Inr (map (type_domains (tagEnable st)) (used_types st), ps)"
proof -
  have "recv_map recv_domains (map type_head (used_types st))
      (concat (map (\<lambda>it. [PktDomains (map (domain_rsp (tagEnable st)) (snd it))]) (used_types st)) @ ps) =
    Inr (map (type_domains (tagEnable st)) (used_types st), ps)"
  proof (rule recv_map_sent)
    fix it ps assume it: "it \<in> set (used_types st)"
    have n: "length (snd it) < 2 ^ 16" "snd it \<noteq> []"
      using used_types_fit(1,2) [OF assms, of "fst it" "snd it"] it by auto
    then have "(of_nat (length (snd it)) :: u16) \<noteq> 0" by (simp only: u16_zero) simp
    then show "recv_domains (type_head it) ([PktDomains (map (domain_rsp (tagEnable st)) (snd it))] @ ps) = Inr (type_domains (tagEnable st) it, ps)"
      using unat_u16 [OF n(1)]
      by (simp add: recv_domains_def type_head_def type_domains_def recv_bind_def recv_array_def sel_domains_def recv_return_def)
  qed
  then show ?thesis by (simp add: SendDomainStats_def case_prod_unfold)
qed

lemma domain_tags_sent:
  assumes "counts_fit st"
  shows "recv_map recv_type_tags (map (type_domains (tagEnable st)) (used_types st))
      ((if tagEnable st then SendDomainTagStats st else []) @ ps) =
    Inr (map (type_domain_report (tagEnable st)) (used_types st), ps)"
proof -
  let ?te = "tagEnable st"
  let ?out = "\<lambda>it :: u32 \<times> DomainStatsEntry. if ?te then SendTagStats (ds_tagStats (snd it)) else []"
  have out: "(if ?te then SendDomainTagStats st else []) = concat (map (\<lambda>it. concat (map ?out (snd it))) (used_types st))"
    by (simp add: SendDomainTagStats_def case_prod_unfold)
  have inner: "recv_map recv_domain_tags (map (domain_rsp ?te) dt) (concat (map ?out dt) @ ps) = Inr (map (domain_report ?te) dt, ps)"
    if "(j, dt) \<in> set (used_types st)" for j dt ps
  proof (rule recv_map_sent)
    fix it ps assume "it \<in> set dt"
    then have "length (ds_tagStats (snd it)) < 2 ^ 16"
      using used_types_fit(3) [OF assms that, of "fst it" "snd it"] by simp
    from recv_tags_sent [OF this, of ?te ps]
    show "recv_domain_tags (domain_rsp ?te it) (?out it @ ps) = Inr (domain_report ?te it, ps)"
      by (simp add: recv_domain_tags_def domain_rsp_def domain_report_def recv_bind_def recv_return_def)
  qed
  show ?thesis
    unfolding out
  proof (rule recv_map_sent)
    fix it ps assume "it \<in> set (used_types st)"
    with inner [of "fst it" "snd it" ps]
    show "recv_type_tags (type_domains ?te it) (concat (map ?out (snd it)) @ ps) = Inr (type_domain_report ?te it, ps)"
      by (simp add: recv_type_tags_def type_domains_def type_head_def type_domain_report_def recv_bind_def recv_return_def)
  qed
qed

definition proc_types :: "bool \<Rightarrow> u32 \<times> PidStatsEntry \<Rightarrow> ProcStatsRsp" where
  "proc_types te it = (proc_rsp te it)\<lparr>pp_lStats := Some (map type_rsp (used_entries (snd it)))\<rparr>"

lemma proc_types_sent:
  assumes "reportable st"
  shows "recv_map recv_proc_types (map (proc_rsp te) (pidStats st)) (SendProcLogTypeStats st @ ps) =
    Inr (map (proc_types te) (pidStats st), ps)"
proof -
  have loop: "SendProcLogTypeStats_loop t = concat (map (\<lambda>it. [PktProcTypes (map type_rsp (used_entries (snd it)))]) t)"
    if "list_all (\<lambda>(k, p). used_entries p \<noteq> []) t" for t
    using that by (induction t rule: SendProcLogTypeStats_loop.induct) auto
  have sent: "SendProcLogTypeStats st = concat (map (\<lambda>it. [PktProcTypes (map type_rsp (used_entries (snd it)))]) (pidStats st))"
    unfolding SendProcLogTypeStats_def by (rule loop) (use assms in \<open>simp add: reportable_def\<close>)
  show ?thesis
    unfolding sent
  proof (rule recv_map_sent)
    fix it ps assume it: "it \<in> set (pidStats st)"
    have l: "length (ps_stats (snd it)) < 2 ^ 16" "used_entries (snd it) \<noteq> []"
      using assms it by (auto simp: reportable_def counts_fit_def list_all_iff)
    have n: "length (used_entries (snd it)) < 2 ^ 16"
      using length_used_entries [of "snd it"] l(1) by linarith
    then have "(of_nat (length (used_entries (snd it))) :: u16) \<noteq> 0" using l(2) by (simp only: u16_zero) simp
    then show "recv_proc_types (proc_rsp te it) ([PktProcTypes (map type_rsp (used_entries (snd it)))] @ ps) = Inr (proc_types te it, ps)"
      using unat_u16 [OF n]
      by (simp add: recv_proc_types_def proc_types_def proc_rsp_def recv_bind_def recv_array_def sel_proc_types_def recv_return_def)
  qed
qed

lemma proc_tags_sent:
  assumes "counts_fit st"
  shows "recv_map recv_proc_tags (map (proc_types (tagEnable st)) (pidStats st)) (if tagEnable st then SendProcTagStats st else []) =
    Inr (map (proc_report (tagEnable st)) (pidStats st), [])"
proof -
  let ?te = "tagEnable st"
  let ?out = "\<lambda>it :: u32 \<times> PidStatsEntry. if ?te then SendTagStats (ps_tagStats (snd it)) else []"
  have "recv_map recv_proc_tags (map (proc_types ?te) (pidStats st)) (concat (map ?out (pidStats st)) @ []) =
    Inr (map (proc_report ?te) (pidStats st), [])"
  proof (rule recv_map_sent)
    fix it ps assume "it \<in> set (pidStats st)"
    then have "length (ps_tagStats (snd it)) < 2 ^ 16" using assms by (auto simp: counts_fit_def list_all_iff)
    from recv_tags_sent [OF this, of ?te ps]
    show "recv_proc_tags (proc_types ?te it) (?out it @ ps) = Inr (proc_report ?te it, ps)"
      by (simp add: recv_proc_tags_def proc_types_def proc_rsp_def proc_report_def recv_bind_def recv_return_def)
  qed
  moreover have "(if ?te then SendProcTagStats st else []) = concat (map ?out (pidStats st))"
    by (simp add: SendProcTagStats_def case_prod_unfold)
  ultimately show ?thesis by simp
qed

text \<open>The stages of the client on what the stages of the daemon send.\<close>

definition stats_head :: "LogTimeStamp \<Rightarrow> LogStats \<Rightarrow> StatsQueryRsp" where
  "stats_head monoNow st = (stats_report monoNow st)\<lparr>sq_ldStats := None, sq_pStats := None\<rparr>"

lemma head_sent:
  "ReceiveRspHead STATS_QUERY_RSP SIZEOF_StatsQueryRsp (WriteRspHeader STATS_QUERY_RSP SIZEOF_StatsQueryRsp # ps) = Inr ((), ps)"
  by (simp add: ReceiveRspHead_def WriteRspHeader_def SIZEOF_StatsQueryRsp_def code_of_def IoctlCmds_def)

lemma overall_sent: "recv_stats (SendOverallStats monoNow st @ ps) = Inr (stats_head monoNow st, ps)"
  by (simp add: recv_stats_def SendOverallStats_def stats_head_def stats_report_def Let_def)

lemma types_stage:
  assumes "counts_fit st" "used_types st \<noteq> []"
  shows "ReceiveLogTypeDomainStats (stats_head now st) (SendLogTypeDomainStats st @ ps) =
    Inr ((stats_head now st)\<lparr>sq_ldStats := Some (map type_head (used_types st))\<rparr>, ps)"
proof -
  have n: "length (used_types st) < 2 ^ 16"
    using assms(1) length_used_types [of st] by (simp add: counts_fit_def)
  then have "(of_nat (length (used_types st)) :: u16) \<noteq> 0" using assms(2) by (simp only: u16_zero) simp
  moreover have "sq_typeNum (stats_head now st) = of_nat (length (used_types st))"
    by (simp add: stats_head_def stats_report_def Let_def)
  ultimately show ?thesis
    using assms(2) unat_u16 [OF n]
    by (simp add: ReceiveLogTypeDomainStats_def SendLogTypeDomainStats_def recv_bind_def recv_array_def sel_type_domains_def
        recv_return_def type_head_def case_prod_unfold)
qed

lemma procs_stage:
  assumes "counts_fit st" "pidStats st \<noteq> []"
  shows "ReceiveProcStats ((stats_head now st)\<lparr>sq_ldStats := l\<rparr>) (SendProcStats st @ ps) =
    Inr ((stats_head now st)\<lparr>sq_ldStats := l, sq_pStats := Some (map (proc_rsp (tagEnable st)) (pidStats st))\<rparr>, ps)"
proof -
  have n: "length (pidStats st) < 2 ^ 16" using assms(1) by (simp add: counts_fit_def)
  then have "(of_nat (length (pidStats st)) :: u16) \<noteq> 0" using assms(2) by (simp only: u16_zero) simp
  moreover have "sq_procNum (stats_head now st) = of_nat (length (pidStats st))"
    by (simp add: stats_head_def stats_report_def Let_def)
  ultimately show ?thesis
    using assms(2) unat_u16 [OF n]
    by (simp add: ReceiveProcStats_def SendProcStats_def recv_bind_def recv_array_def sel_procs_def recv_return_def)
qed

lemma domains_stage:
  "counts_fit st \<Longrightarrow> ReceiveDomainStats (rsp\<lparr>sq_ldStats := Some (map type_head (used_types st))\<rparr>) (SendDomainStats st @ ps) =
    Inr (rsp\<lparr>sq_ldStats := Some (map (type_domains (tagEnable st)) (used_types st))\<rparr>, ps)"
  by (simp add: ReceiveDomainStats_def recv_bind_def domains_sent recv_return_def)

lemma domain_tags_stage:
  "counts_fit st \<Longrightarrow> ReceiveDomainTagStats (rsp\<lparr>sq_ldStats := Some (map (type_domains (tagEnable st)) (used_types st))\<rparr>)
      ((if tagEnable st then SendDomainTagStats st else []) @ ps) =
    Inr (rsp\<lparr>sq_ldStats := Some (map (type_domain_report (tagEnable st)) (used_types st))\<rparr>, ps)"
  using domain_tags_sent [of st ps] by (simp add: ReceiveDomainTagStats_def recv_bind_def recv_return_def del: append.simps)

lemma proc_types_stage:
  "reportable st \<Longrightarrow> ReceiveProcLogTypeStats (rsp\<lparr>sq_pStats := Some (map (proc_rsp te) (pidStats st))\<rparr>) (SendProcLogTypeStats st @ ps) =
    Inr (rsp\<lparr>sq_pStats := Some (map (proc_types te) (pidStats st))\<rparr>, ps)"
  by (simp add: ReceiveProcLogTypeStats_def recv_bind_def proc_types_sent recv_return_def)

lemma proc_tags_stage:
  "counts_fit st \<Longrightarrow> ReceiveProcTagStats (rsp\<lparr>sq_pStats := Some (map (proc_types (tagEnable st)) (pidStats st))\<rparr>)
      (if tagEnable st then SendProcTagStats st else []) =
    Inr (rsp\<lparr>sq_pStats := Some (map (proc_report (tagEnable st)) (pidStats st))\<rparr>, [])"
  using proc_tags_sent [of st] by (simp add: ReceiveProcTagStats_def recv_bind_def recv_return_def)

text \<open>
  C37: What hilogd sends on a statistics query is what the client reassembles: as long as the
  16-bit counts of the messages suffice, something has been counted, and every process has a
  counted line, the client accepts the head of the response, reads every table from the packet
  in which it was sent, with or without statistics per tag, and nothing is left over.
\<close>

theorem stats_report_roundtrip:
  assumes "enable st" "reportable st"
  shows "RequestStatsQuery (HandleStatsQueryRqst monoNow st) = Inr (stats_report monoNow st, [])"
proof -
  have fit: "counts_fit st" "used_types st \<noteq> []" "pidStats st \<noteq> []" using assms(2) unfolding reportable_def by blast+
  have sent: "HandleStatsQueryRqst monoNow st = WriteRspHeader STATS_QUERY_RSP SIZEOF_StatsQueryRsp # SendOverallStats monoNow st @
      SendLogTypeDomainStats st @ SendDomainStats st @ (if tagEnable st then SendDomainTagStats st else []) @ SendProcStats st @
      SendProcLogTypeStats st @ (if tagEnable st then SendProcTagStats st else [])"
    using assms(1) unfolding HandleStatsQueryRqst_def by (simp only: not_True_eq_False if_False append.simps)
  have rep: "(stats_head monoNow st)\<lparr>sq_ldStats := Some (map (type_domain_report (tagEnable st)) (used_types st)),
      sq_pStats := Some (map (proc_report (tagEnable st)) (pidStats st))\<rparr> = stats_report monoNow st"
    by (simp add: stats_head_def stats_report_def Let_def)
  show ?thesis
    unfolding sent RequestStatsQuery_def ReceiveAndProcessStatsQueryRsp_def
    by (simp only: recv_bind_def head_sent overall_sent types_stage [OF fit(1,2)] domains_stage [OF fit(1)] domain_tags_stage [OF fit(1)]
        procs_stage [OF fit(1,3)] proc_types_stage [OF assms(2)] proc_tags_stage [OF fit(1)] sum.case prod.case rep)
qed

definition demo_stats :: LogStats where
  "demo_stats = (case Count (\<lambda>p. Some ''app'') \<lparr>s_level = LOG_INFO, s_type = LOG_APP, s_len = 10, s_dropped = 0, s_domain = 0x1000,
       s_pid = 7, s_tv_sec = 5, s_tv_nsec = 6, s_mono_sec = 7, s_tag = ''T''\<rparr>
     (LogStats_new (LogTimeStamp 1 2) (LogTimeStamp 3 4) True True) of Some st \<Rightarrow> st | None \<Rightarrow> LogStats_new (LogTimeStamp 1 2) (LogTimeStamp 3 4) True True)"

theorem stats_report_roundtrip_witness:
  "RequestStatsQuery (HandleStatsQueryRqst (LogTimeStamp 10 0) demo_stats) = Inr (stats_report (LogTimeStamp 10 0) demo_stats, [])"
proof (rule stats_report_roundtrip)
  show "enable demo_stats" by code_simp
  have "length (domainStats demo_stats) \<le> 6 \<and> length (pidStats demo_stats) \<le> 1 \<and>
     list_all (\<lambda>dt. length dt \<le> 1 \<and> list_all (\<lambda>(k, e). length (ds_tagStats e) \<le> 1) dt) (domainStats demo_stats) \<and>
     list_all (\<lambda>(k, p). length (ps_stats p) \<le> 6 \<and> length (ps_tagStats p) \<le> 1) (pidStats demo_stats)"
    by code_simp
  then have "counts_fit demo_stats" by (fastforce simp: counts_fit_def list_all_iff)
  moreover have "used_types demo_stats \<noteq> [] \<and> pidStats demo_stats \<noteq> [] \<and>
     list_all (\<lambda>(k, p). used_entries p \<noteq> []) (pidStats demo_stats)"
    by code_simp
  ultimately show "reportable demo_stats" by (simp add: reportable_def)
qed

text \<open>
  Right after the statistics were cleared the tables are empty, the daemon announces no types, and
  the client reports a failure although the query succeeded.
\<close>

theorem stats_query_fails_after_clear:
  "enable st \<Longrightarrow> RequestStatsQuery (HandleStatsQueryRqst monoNow (Reset realtime monotonic st)) = Inl (Failed RET_FAIL)"
proof -
  assume en: "enable st"
  let ?st = "Reset realtime monotonic st"
  have "domainStats ?st = replicate (length (domainStats st)) []" by (simp add: Reset_def map_replicate_const)
  then have none: "used_types ?st = []" by (auto simp: used_types_def filter_empty_conv in_set_enumerate_eq)
  then have "sq_typeNum (stats_head monoNow ?st) = 0" by (simp add: stats_head_def stats_report_def Let_def)
  then have "ReceiveLogTypeDomainStats (stats_head monoNow ?st) ps = Inl (Failed RET_FAIL)" for ps
    by (simp add: ReceiveLogTypeDomainStats_def)
  moreover have "enable ?st" using en by (simp add: Reset_def)
  ultimately show ?thesis
    by (simp add: RequestStatsQuery_def HandleStatsQueryRqst_def ReceiveAndProcessStatsQueryRsp_def recv_bind_def head_sent overall_sent)
qed

end
