(* ===== verification/Service_Controller.thy ===== *)
theory Service_Controller
  imports Log_Collector Persister_Props Hilog_Properties Log_Kmsg Stats_Report Log_Buffer_Spec
begin

text \<open>
  The request handlers of hilogd, \<open>service_controller.cpp\<close>. The state of the daemon is passed
  explicitly; a handler returns the packets it writes and the new state. What the operating
  system and other services decide is a parameter. A handler that never returns and a
  \<open>std::regex_error\<close> that leaves it are values of \<open>handler_error\<close>. The object representation of a
  request is read by the receiver as the structure of the command.
\<close>

section \<open>State\<close>

record 'p Service =
  sv_limits :: BufferLimits
  sv_hilog :: HilogBuffer
  sv_kmsg :: HilogBuffer
  sv_collector :: LogCollector
  sv_jobs :: "LogPersister list"
  sv_files :: FileSystem
  sv_kmsgThread :: KmsgState
  sv_params :: 'p

record ServiceController =
  ct_uid :: u32
  ct_pid :: u32
  m_hilogBufferReader :: ReaderId
  m_kmsgBufferReader :: ReaderId

record 'p ServiceEnv =
  ev_cmdline :: "u32 \<Rightarrow> string option"
  ev_status :: "u32 \<Rightarrow> string option"
  ev_regex :: "string \<Rightarrow> string \<Rightarrow> bool option"
  ev_persist :: PersistEnv
  ev_set :: "'p setter"
  ev_stat :: "(int \<times> int) list"
  ev_newReader :: ReaderId
  ev_realtime :: LogTimeStamp
  ev_monotonic :: LogTimeStamp
  ev_opendir :: bool
  ev_timeout :: bool

datatype handler_error = Uncaught regex_error | NoReturn

type_synonym 'p handled = "handler_error + packet list \<times> 'p Service"

definition DEFAULT_LOG_TYPES :: u16 where
  "DEFAULT_LOG_TYPES = mask_all [LOG_APP, LOG_CORE, LOG_INIT, LOG_ONLY_PRERELEASE]"

definition DEFAULT_REMOVE_LOG_TYPES :: u16 where
  "DEFAULT_REMOVE_LOG_TYPES = mask_all [LOG_APP, LOG_CORE, LOG_ONLY_PRERELEASE]"

definition DEFAULT_PERSIST_FILE_NUM :: u32 where
  "DEFAULT_PERSIST_FILE_NUM = 10"

definition DEFAULT_PERSIST_FILE_SIZE :: u32 where
  "DEFAULT_PERSIST_FILE_SIZE = 4 * 1024 * 1024"

definition DEFAULT_PERSIST_NORMAL_JOB_ID :: u32 where
  "DEFAULT_PERSIST_NORMAL_JOB_ID = 1"

definition DEFAULT_PERSIST_KMSG_JOB_ID :: u32 where
  "DEFAULT_PERSIST_KMSG_JOB_ID = 2"

definition SHELL_UID :: u32 where "SHELL_UID = 2000"
definition ROOT_UID :: u32 where "ROOT_UID = 0"
definition LOGD_UID :: u32 where "LOGD_UID = 1036"
definition HIVIEW_UID :: u32 where "HIVIEW_UID = 1201"
definition PROFILER_UID :: u32 where "PROFILER_UID = 3063"

definition IsKmsg :: "u16 \<Rightarrow> bool" where
  "IsKmsg tys \<longleftrightarrow> tys = push_bit LOG_KMSG 1"

text \<open>The buffer of a type of logs, of a reader and of a job: the kernel log has its own.\<close>

definition buffer_of :: "bool \<Rightarrow> 'p Service \<Rightarrow> HilogBuffer" where
  "buffer_of kmsg sv = (if kmsg then sv_kmsg sv else sv_hilog sv)"

definition put_buffer :: "bool \<Rightarrow> HilogBuffer \<Rightarrow> 'p Service \<Rightarrow> 'p Service" where
  "put_buffer kmsg b sv = (if kmsg then sv\<lparr>sv_kmsg := b\<rparr> else sv\<lparr>sv_hilog := b\<rparr>)"

definition ServiceController_new :: "u32 \<Rightarrow> u32 \<Rightarrow> ReaderId \<Rightarrow> ReaderId \<Rightarrow> 'p Service \<Rightarrow> ServiceController \<times> 'p Service" where
  "ServiceController_new uid pid r1 r2 sv =
     (\<lparr>ct_uid = uid, ct_pid = pid, m_hilogBufferReader = r1, m_kmsgBufferReader = r2\<rparr>,
      sv\<lparr>sv_hilog := CreateBufReader r1 True (sv_hilog sv), sv_kmsg := CreateBufReader r2 True (sv_kmsg sv)\<rparr>)"

definition ServiceController_delete :: "ServiceController \<Rightarrow> 'p Service \<Rightarrow> 'p Service" where
  "ServiceController_delete ct sv =
     sv\<lparr>sv_hilog := RemoveBufReader (m_hilogBufferReader ct) (sv_hilog sv), sv_kmsg := RemoveBufReader (m_kmsgBufferReader ct) (sv_kmsg sv)\<rparr>"

section \<open>Output\<close>

definition CheckOutputRqst :: "ServiceController \<Rightarrow> OutputRqst \<Rightarrow> int" where
  "CheckOutputRqst ct rqst =
     (if bit (rq_types rqst) LOG_KMSG \<and> GetBitsCount (ucast (rq_types rqst)) > 1 then ERR_QUERY_TYPE_INVALID
      else if unat (rq_domainCount rqst) > MAX_DOMAINS then ERR_TOO_MANY_DOMAINS
      else if unat (rq_tagCount rqst) > MAX_TAGS then ERR_TOO_MANY_TAGS
      else if rq_pidCount rqst > int MAX_PIDS then ERR_TOO_MANY_PIDS
      else if ct_uid ct \<noteq> ROOT_UID \<and> ct_uid ct \<noteq> SHELL_UID \<and> rq_pidCount rqst > 0 \<and> ct_uid ct \<noteq> HIVIEW_UID \<and> ct_uid ct \<noteq> PROFILER_UID
      then ERR_NO_PID_PERMISSION
      else RET_SUCCESS)"

definition copy_tag :: "char list \<Rightarrow> char list \<Rightarrow> char list" where
  "copy_tag old new = overwrite old (snd (strncpy_s MAX_TAG_LEN new (MAX_TAG_LEN - 1)))"

definition privileged :: "u32 \<Rightarrow> bool" where
  "privileged uid \<longleftrightarrow> uid \<in> {ROOT_UID, SHELL_UID, LOGD_UID, HIVIEW_UID, PROFILER_UID}"

definition filter_of_rqst :: "OutputRqst \<Rightarrow> LogFilter \<Rightarrow> LogFilter" where
  "filter_of_rqst rqst f =
     f\<lparr>types := (if rq_types rqst = 0 then DEFAULT_LOG_TYPES else rq_types rqst),
       levels := (if rq_levels rqst = 0 then NOT (rq_levels rqst) else rq_levels rqst),
       blackDomain := rq_blackDomain rqst, domainCount := unat (rq_domainCount rqst),
       domains := overwrite (domains f) (take (unat (rq_domainCount rqst)) (rq_domains rqst)),
       blackTag := rq_blackTag rqst, tagCount := unat (rq_tagCount rqst),
       tags := overwrite (tags f) (map (\<lambda>(old, new). copy_tag old new) (zip (tags f) (take (unat (rq_tagCount rqst)) (rq_tags rqst)))),
       blackPid := rq_blackPid rqst, pidCount := rq_pidCount rqst,
       pids := overwrite (pids f) (take (nat (rq_pidCount rqst)) (rq_pids rqst)),
       regex := overwrite (regex f) (snd (strncpy_s MAX_REGEX_STR_LEN (rq_regex rqst) (MAX_REGEX_STR_LEN - 1)))\<rparr>"

text \<open>The copies of strings cannot fail: they copy less than the size of the array.\<close>

definition LogFilterFromOutputRqst :: "'p ServiceEnv \<Rightarrow> ServiceController \<Rightarrow> OutputRqst \<Rightarrow> LogFilter \<Rightarrow> LogFilter option" where
  "LogFilterFromOutputRqst env ct rqst f =
     (let f1 = filter_of_rqst rqst f
      in if privileged (ct_uid ct) then Some f1
         else let f2 = f1\<lparr>blackPid := False, pidCount := 1, pids := (pids f1)[0 := ct_pid ct]\<rparr>
              in case GetPPidByPid (ev_cmdline env) (ev_status env) (ct_pid ct) of
                   None \<Rightarrow> None
                 | Some ppid \<Rightarrow>
                     Some (if ppid > 0 then f2\<lparr>pidCount := pidCount f2 + 1, pids := (pids f2)[1 := ppid]\<rparr> else f2))"

definition WriteQueryResponse :: "HilogData \<Rightarrow> packet" where
  "WriteQueryResponse d =
     PktOutput \<lparr>or_len = d_len d, or_level = ucast (d_level d), or_type = ucast (d_type d), or_pid = d_pid d, or_tid = d_tid d,
       or_domain = d_domain d, or_tv_sec = d_tv_sec d, or_tv_nsec = d_tv_nsec d, or_mono_sec = d_mono_sec d,
       or_tagLen = ucast (d_tagLen d), or_data = (case d_mem d of None \<Rightarrow> [] | Some m \<Rightarrow> take (unat (d_len d)) m)\<rparr>"

text \<open>
  The loop of \<open>HandleOutputRqst\<close>, over its turns. In each turn other threads may first change the
  buffer (\<open>ot_others\<close>), the query sees a clock, and a write succeeds or finds the client gone. The
  result is whether the loop ended, the packets and the buffer.
\<close>

record output_turn =
  ot_others :: "HilogBuffer \<Rightarrow> HilogBuffer"
  ot_realtime :: LogTimeStamp
  ot_monotonic :: LogTimeStamp
  ot_connected :: bool

fun output_loop ::
  "(string \<Rightarrow> string \<Rightarrow> bool option) \<Rightarrow> LogFilter \<Rightarrow> ReaderId \<Rightarrow> nat \<Rightarrow> bool \<Rightarrow> bool \<Rightarrow> output_turn list \<Rightarrow> int \<Rightarrow> HilogBuffer \<Rightarrow>
   (regex_error + bool) \<times> packet list \<times> HilogBuffer" where
  "output_loop rx f rid tailCount noBlock lines [] linesCountDown b = (Inr False, [], b)"
| "output_loop rx f rid tailCount noBlock lines (t # ts) linesCountDown b =
     (case Query rx (ot_realtime t) (ot_monotonic t) f rid tailCount (ot_others t b) of
        (Inl e, b') \<Rightarrow> (Inl e, [], b')
      | (Inr None, b') \<Rightarrow>
          if noBlock then (Inr True, [PktOutputEnd], b')
          else output_loop rx f rid tailCount noBlock lines ts linesCountDown b'
      | (Inr (Some d), b') \<Rightarrow>
          if \<not> ot_connected t then (Inr True, [], b')
          else if lines \<and> linesCountDown - 1 \<le> 0 then (Inr True, [WriteQueryResponse d, PktOutputEnd], b')
          else let (e, ps, b'') = output_loop rx f rid tailCount noBlock lines ts (if lines then linesCountDown - 1 else linesCountDown) b'
               in (e, WriteQueryResponse d # ps, b''))"

text \<open>The packed size of a response without its data.\<close>

definition SIZEOF_OutputRsp :: nat where
  "SIZEOF_OutputRsp = 2 + 1 + 1 + 6 * 4 + 1 + 1"

text \<open>The handler: the outcome of its loop, the packets and the state; \<open>None\<close> when the search for the parent does not end.\<close>

definition HandleOutputRqst ::
  "'p ServiceEnv \<Rightarrow> output_turn list \<Rightarrow> ServiceController \<Rightarrow> OutputRqst \<Rightarrow> 'p Service \<Rightarrow> ((regex_error + bool) \<times> packet list \<times> 'p Service) option" where
  "HandleOutputRqst env turns ct rqst sv =
     (let ret = CheckOutputRqst ct rqst
      in if ret \<noteq> RET_SUCCESS then Some (Inr True, [WriteErrorRsp ret], sv)
         else case LogFilterFromOutputRqst env ct rqst LogFilter_zero of
                None \<Rightarrow> None
              | Some f \<Rightarrow>
                  (let lines = (if rq_headLines rqst \<noteq> 0 then rq_headLines rqst else rq_tailLines rqst);
                       kmsg = IsKmsg (types f);
                       rid = (if kmsg then m_kmsgBufferReader ct else m_hilogBufferReader ct);
                       (e, ps, b) = output_loop (ev_regex env) f rid (unat (rq_tailLines rqst)) (rq_noBlock rqst) (lines \<noteq> 0) turns
                                      (int (unat lines)) (buffer_of kmsg sv)
                   in Some (e, WriteRspHeader OUTPUT_RSP SIZEOF_OutputRsp # ps, put_buffer kmsg b sv)))"

section \<open>Persist jobs\<close>

text \<open>\<open>std::regex_search\<close> for the class of characters that a file name must not contain.\<close>

definition IsValidFileName :: "string \<Rightarrow> bool" where
  "IsValidFileName s = list_all (\<lambda>c. c \<notin> set (''/:*?<>|'' @ [CHR 0x22])) s"

text \<open>A file name of 64 characters has no terminator and is read on into the field behind it.\<close>

definition rqst_fileName :: "PersistStartRqst \<Rightarrow> string" where
  "rqst_fileName rqst = c_str (pr_fileName rqst @ pr_stream rqst)"

definition CheckPersistStartRqst :: "ServiceController \<Rightarrow> PersistStartRqst \<Rightarrow> int" where
  "CheckPersistStartRqst ct rqst =
     (let ret = CheckOutputRqst ct (pr_outputFilter rqst)
      in if ret \<noteq> RET_SUCCESS then ret
         else if pr_jobId rqst \<noteq> 0 \<and> (unat (pr_jobId rqst) < JOB_ID_MIN \<or> unat (pr_jobId rqst) = JOB_ID_MAX) then ERR_LOG_PERSIST_JOBID_INVALID
         else if pr_fileSize rqst \<noteq> 0 \<and> (unat (pr_fileSize rqst) < MIN_LOG_FILE_SIZE \<or> unat (pr_fileSize rqst) > MAX_LOG_FILE_SIZE)
         then ERR_LOG_PERSIST_FILE_SIZE_INVALID
         else if rqst_fileName rqst \<noteq> [] \<and> \<not> IsValidFileName (rqst_fileName rqst) then ERR_LOG_PERSIST_FILE_NAME_INVALID
         else if pr_fileNum rqst \<noteq> 0 \<and> (unat (pr_fileNum rqst) > MAX_LOG_FILE_NUM \<or> unat (pr_fileNum rqst) < MIN_LOG_FILE_NUM)
         then ERR_LOG_FILE_NUM_INVALID
         else RET_SUCCESS)"

definition PersistStartRqst2Msg :: "'p ServiceEnv \<Rightarrow> ServiceController \<Rightarrow> PersistStartRqst \<Rightarrow> LogPersistStartMsg \<Rightarrow> LogPersistStartMsg option" where
  "PersistStartRqst2Msg env ct rqst msg =
     map_option
       (\<lambda>f. let isKmsgType = IsKmsg (rq_types (pr_outputFilter rqst));
                jobId = (if pr_jobId rqst \<noteq> 0 then pr_jobId rqst
                         else if isKmsgType then DEFAULT_PERSIST_KMSG_JOB_ID else DEFAULT_PERSIST_NORMAL_JOB_ID);
                fileName = (if rqst_fileName rqst = [] then (if isKmsgType then ''hilog_kmsg'' else ''hilog'') else rqst_fileName rqst);
                filePath = HILOG_FILE_DIR @ fileName
            in msg\<lparr>sm_filter := f, sm_compressAlg := of_nat (Str2CompressType (c_str (pr_stream rqst))),
                 sm_fileSize := (if pr_fileSize rqst = 0 then DEFAULT_PERSIST_FILE_SIZE else pr_fileSize rqst),
                 sm_fileNum := (if pr_fileNum rqst = 0 then DEFAULT_PERSIST_FILE_NUM else ucast (pr_fileNum rqst)),
                 sm_jobId := jobId,
                 sm_filePath := overwrite (sm_filePath msg) (snd (strncpy_s FILE_PATH_MAX_LEN filePath (length filePath)))\<rparr>)
       (LogFilterFromOutputRqst env ct (pr_outputFilter rqst) (sm_filter msg))"

text \<open>The job is created with a reader; when its initialisation fails it is destroyed with its reader.\<close>

definition StartPersistStoreJob :: "'p ServiceEnv \<Rightarrow> PersistRecoveryInfo \<Rightarrow> bool \<Rightarrow> bool \<Rightarrow> 'p Service \<Rightarrow> int \<times> 'p Service" where
  "StartPersistStoreJob env info kmsg restore sv =
     (let rid = ev_newReader env;
          b1 = CreateBufReader rid True (buffer_of kmsg sv);
          (ret, lp, regs, fs) = Persister_Init (ev_persist env) info restore (LogPersister_new rid) (sv_jobs sv) (sv_files sv)
      in if ret \<noteq> RET_SUCCESS
         then let (b2, fs2) = LogPersister_delete (ev_persist env) lp b1 fs
              in (ret, put_buffer kmsg b2 (sv\<lparr>sv_jobs := regs, sv_files := fs2\<rparr>))
         else (RET_SUCCESS, put_buffer kmsg b1 (sv\<lparr>sv_jobs := put_job (Start lp) regs, sv_files := fs\<rparr>)))"

definition WAITING_DATA_MS :: int where
  "WAITING_DATA_MS = 5000"

definition HandlePersistStartRqst :: "'p ServiceEnv \<Rightarrow> ServiceController \<Rightarrow> PersistStartRqst \<Rightarrow> 'p Service \<Rightarrow> 'p handled" where
  "HandlePersistStartRqst env ct rqst sv =
     (case WaitingToDo WAITING_DATA_MS (ev_stat env) of
        None \<Rightarrow> Inl NoReturn
      | Some w \<Rightarrow>
          if w \<noteq> RET_SUCCESS then Inr ([WriteErrorRsp ERR_LOG_PERSIST_FILE_PATH_INVALID], sv)
          else let ret = CheckPersistStartRqst ct rqst
               in if ret \<noteq> RET_SUCCESS then Inr ([WriteErrorRsp ret], sv)
                  else if length (Persister_Query (sv_jobs sv)) \<ge> MAX_JOBS then Inr ([WriteErrorRsp ERR_TOO_MANY_JOBS], sv)
                  else case PersistStartRqst2Msg env ct rqst StartMsg_zero of
                         None \<Rightarrow> Inl NoReturn
                       | Some msg \<Rightarrow>
                           (let (ret, sv') = StartPersistStoreJob env \<lparr>ri_index = 0, ri_msg = msg\<rparr> (IsKmsg (rq_types (pr_outputFilter rqst))) False sv
                            in if ret \<noteq> RET_SUCCESS then Inr ([WriteErrorRsp ret], sv')
                               else Inr ([WriteRspHeader PERSIST_START_RSP 4, PktJobId (sm_jobId msg)], sv')))"

text \<open>A job was started on the buffer of its types.\<close>

definition job_kmsg :: "u32 \<Rightarrow> LogPersister list \<Rightarrow> bool" where
  "job_kmsg jid regs = (case GetLogPersisterById jid regs of None \<Rightarrow> False | Some lp \<Rightarrow> IsKmsg (types (sm_filter (m_startMsg lp))))"

definition KillJob :: "'p ServiceEnv \<Rightarrow> u32 \<Rightarrow> 'p Service \<Rightarrow> 'p Service" where
  "KillJob env jid sv =
     (let kmsg = job_kmsg jid (sv_jobs sv); (ret, regs, b, fs) = Kill (ev_persist env) jid (sv_jobs sv) (buffer_of kmsg sv) (sv_files sv)
      in put_buffer kmsg b (sv\<lparr>sv_jobs := regs, sv_files := fs\<rparr>))"

text \<open>The jobs that a request names, at most \<open>MAX_JOBS\<close> of them: all for the id 0.\<close>

definition named_jobs :: "u32 \<Rightarrow> LogPersistQueryResult list \<Rightarrow> u32 list" where
  "named_jobs jid resultList = take MAX_JOBS (filter (\<lambda>j. jid = 0 \<or> jid = j) (map qr_jobId resultList))"

definition jobs_rsp :: "u32 list \<Rightarrow> packet" where
  "jobs_rsp ids = PktJobs \<lparr>js_jobNum = of_nat (length ids), js_jobId = overwrite (replicate MAX_JOBS 0) ids\<rparr>"

definition SIZEOF_JobsRsp :: nat where
  "SIZEOF_JobsRsp = 1 + 4 * MAX_JOBS"

definition HandlePersistStopRqst :: "'p ServiceEnv \<Rightarrow> u32 \<Rightarrow> 'p Service \<Rightarrow> 'p handled" where
  "HandlePersistStopRqst env jid sv =
     (let resultList = Persister_Query (sv_jobs sv); ids = named_jobs jid resultList
      in if jid = 0 \<and> resultList = [] then Inr ([WriteErrorRsp ERR_PERSIST_TASK_EMPTY], sv)
         else let sv' = fold (KillJob env) ids sv
              in if ids = [] then Inr ([WriteErrorRsp ERR_JOBID_NOT_EXSIST], sv')
                 else Inr ([WriteRspHeader PERSIST_STOP_RSP SIZEOF_JobsRsp, jobs_rsp ids], sv'))"

text \<open>A path is cut to the 63 characters the response has room for.\<close>

definition task_info :: "LogPersistQueryResult \<Rightarrow> PersistTaskInfo" where
  "task_info r =
     \<lparr>ti_jobId = qr_jobId r, ti_types = qr_logType r,
      ti_rest = map_option (\<lambda>(path, alg, size, num). (ucast num, size, name_field MAX_FILE_NAME_LEN path,
                               name_field MAX_STREAM_NAME_LEN (CompressType2Str (unat alg)))) (qr_rest r)\<rparr>"

definition SIZEOF_OutputRqst :: nat where
  "SIZEOF_OutputRqst = 3 * 2 + 2 + 4 * MAX_DOMAINS + 2 + MAX_TAGS * MAX_TAG_LEN + 1 + 4 + 4 * MAX_PIDS + MAX_REGEX_STR_LEN + 1 + 2"

definition SIZEOF_PersistStartRqst :: nat where
  "SIZEOF_PersistStartRqst = SIZEOF_OutputRqst + 4 + 4 + 2 + MAX_FILE_NAME_LEN + MAX_STREAM_NAME_LEN"

definition HandlePersistQueryRqst :: "'p Service \<Rightarrow> 'p handled" where
  "HandlePersistQueryRqst sv =
     (let resultList = Persister_Query (sv_jobs sv)
      in if resultList = [] then Inr ([WriteErrorRsp ERR_NO_RUNNING_TASK], sv)
         else Inr ([WriteRspHeader PERSIST_QUERY_RSP (1 + MAX_JOBS * SIZEOF_PersistStartRqst), PktTasks (map task_info (take MAX_JOBS resultList))], sv))"

definition RefreshJob :: "'p ServiceEnv \<Rightarrow> u32 \<Rightarrow> 'p Service \<Rightarrow> regex_error + 'p Service" where
  "RefreshJob env jid sv =
     (let kmsg = job_kmsg jid (sv_jobs sv)
      in case Refresh (ev_persist env) (ev_regex env) (ev_realtime env) (ev_monotonic env) (ev_timeout env) jid (sv_jobs sv)
                (buffer_of kmsg sv) (sv_files sv) of
           Inl e \<Rightarrow> Inl e
         | Inr (ret, regs, b, fs) \<Rightarrow> Inr (put_buffer kmsg b (sv\<lparr>sv_jobs := regs, sv_files := fs\<rparr>)))"

definition HandlePersistRefreshRqst :: "'p ServiceEnv \<Rightarrow> u32 \<Rightarrow> 'p Service \<Rightarrow> 'p handled" where
  "HandlePersistRefreshRqst env jid sv =
     (let resultList = Persister_Query (sv_jobs sv); ids = named_jobs jid resultList
      in if jid = 0 \<and> resultList = [] then Inr ([WriteErrorRsp ERR_PERSIST_TASK_EMPTY], sv)
         else case fold (\<lambda>j r. case r of Inl e \<Rightarrow> Inl e | Inr s \<Rightarrow> RefreshJob env j s) ids (Inr sv) of
                Inl e \<Rightarrow> Inl (Uncaught e)
              | Inr sv' \<Rightarrow>
                  if ids = [] then Inr ([WriteErrorRsp ERR_JOBID_NOT_EXSIST], sv')
                  else Inr ([WriteRspHeader PERSIST_REFRESH_RSP SIZEOF_JobsRsp, jobs_rsp ids], sv'))"

definition HandlePersistClearRqst :: "'p ServiceEnv \<Rightarrow> 'p Service \<Rightarrow> 'p handled" where
  "HandlePersistClearRqst env sv =
     Inr ([WriteRspHeader PERSIST_CLEAR_RSP 1, PktPlaceholder], sv\<lparr>sv_files := Clear (ev_opendir env) (sv_files sv)\<rparr>)"

section \<open>Buffers, statistics, switches\<close>

definition rqst_types :: "u16 \<Rightarrow> u16 \<Rightarrow> nat list" where
  "rqst_types dflt tys = filter (bit (if tys = 0 then dflt else tys)) GetAllLogTypes"

definition HandleBufferSizeGetRqst :: "u16 \<Rightarrow> 'p Service \<Rightarrow> 'p handled" where
  "HandleBufferSizeGetRqst tys sv =
     (let ts = rqst_types DEFAULT_LOG_TYPES tys
      in if ts = [] then Inr ([WriteErrorRsp ERR_LOG_TYPE_INVALID], sv)
         else Inr ([WriteRspHeader BUFFERSIZE_GET_RSP (4 * LOG_TYPE_MAX),
                PktSizes (fold (\<lambda>t a. a[t := of_int (GetBuffLen (sv_limits sv) t)]) ts (replicate LOG_TYPE_MAX 0))], sv))"

text \<open>One turn of the loop over the types: the limit, the property, and the field of the response.\<close>

definition SetOneSize :: "'p ServiceEnv \<Rightarrow> int \<Rightarrow> nat \<Rightarrow> u32 list \<times> 'p Service \<Rightarrow> u32 list \<times> 'p Service" where
  "SetOneSize env sz t st =
     (let (a, sv) = st; (ret, limits) = SetBuffLen t (of_int sz) (sv_limits sv)
      in if ret \<noteq> RET_SUCCESS then (a[t := of_int ret], sv\<lparr>sv_limits := limits\<rparr>)
         else (a[t := of_int sz], sv\<lparr>sv_limits := limits, sv_params := snd (SetBufferSize (ev_set env) t True (of_int sz) (sv_params sv))\<rparr>))"

definition HandleBufferSizeSetRqst :: "'p ServiceEnv \<Rightarrow> BufferSizeSetRqst \<Rightarrow> 'p Service \<Rightarrow> 'p handled" where
  "HandleBufferSizeSetRqst env rqst sv =
     (let ts = rqst_types DEFAULT_LOG_TYPES (bs_types rqst); (a, sv') = fold (SetOneSize env (bs_size rqst)) ts (replicate LOG_TYPE_MAX 0, sv)
      in if ts = [] then Inr ([WriteErrorRsp ERR_LOG_TYPE_INVALID], sv')
         else Inr ([WriteRspHeader BUFFERSIZE_SET_RSP (4 * LOG_TYPE_MAX), PktSizes a], sv'))"

definition HandleStatsClearRqst :: "'p ServiceEnv \<Rightarrow> 'p Service \<Rightarrow> 'p handled" where
  "HandleStatsClearRqst env sv =
     Inr ([WriteRspHeader STATS_CLEAR_RSP 1, PktPlaceholder],
          sv\<lparr>sv_hilog := ResetStats (ev_realtime env) (ev_monotonic env) (sv_hilog sv)\<rparr>)"

definition HandleDomainFlowCtrlRqst :: "'p ServiceEnv \<Rightarrow> bool \<Rightarrow> 'p Service \<Rightarrow> 'p handled" where
  "HandleDomainFlowCtrlRqst env on sv =
     Inr ([WriteRspHeader DOMAIN_FLOWCTRL_RSP 1, PktPlaceholder],
          sv\<lparr>sv_params := snd (SetDomainSwitchOn (ev_set env) on (sv_params sv)), sv_collector := SetLogFlowControl on (sv_collector sv)\<rparr>)"

definition RemoveOneType :: "nat \<Rightarrow> 'p Service \<Rightarrow> 'p Service" where
  "RemoveOneType t sv = (let kmsg = (t = LOG_KMSG) in put_buffer kmsg (snd (Delete t (buffer_of kmsg sv))) sv)"

definition HandleLogRemoveRqst :: "u16 \<Rightarrow> 'p Service \<Rightarrow> 'p handled" where
  "HandleLogRemoveRqst tys sv =
     (let ts = rqst_types DEFAULT_REMOVE_LOG_TYPES tys; sv' = fold RemoveOneType ts sv
      in if ts = [] then Inr ([WriteErrorRsp ERR_LOG_TYPE_INVALID], sv')
         else Inr ([WriteRspHeader LOG_REMOVE_RSP 2, PktTypes (if tys = 0 then DEFAULT_REMOVE_LOG_TYPES else tys)], sv'))"

text \<open>The handlers of a model of one request at a time call \<open>Start\<close> and \<open>Stop\<close> of the kernel log as wholes.\<close>

definition HandleLogKmsgEnableRqst :: "'p ServiceEnv \<Rightarrow> bool \<Rightarrow> 'p Service \<Rightarrow> 'p handled" where
  "HandleLogKmsgEnableRqst env on sv =
     Inr ([WriteRspHeader KMSG_ENABLE_RSP 1, PktPlaceholder],
          sv\<lparr>sv_params := snd (SetKmsgSwitchOn (ev_set env) on (sv_params sv)),
             sv_kmsgThread := (if on then LogKmsg_Start else LogKmsg_Stop) (sv_kmsgThread sv)\<rparr>)"

section \<open>The dispatch\<close>

datatype request = RqOutput OutputRqst | RqPersistStart PersistStartRqst | RqPersistStop u32 | RqPersistQuery
  | RqPersistRefresh u32 | RqPersistClear | RqBufferSizeGet u16 | RqBufferSizeSet BufferSizeSetRqst | RqStatsQuery
  | RqStatsClear | RqDomainFlowCtrl bool | RqLogRemove u16 | RqKmsgEnable bool

fun sizeof_rqst :: "request \<Rightarrow> nat" where
  "sizeof_rqst (RqOutput r) = SIZEOF_OutputRqst"
| "sizeof_rqst (RqPersistStart r) = SIZEOF_PersistStartRqst"
| "sizeof_rqst (RqPersistStop j) = 4"
| "sizeof_rqst RqPersistQuery = 1"
| "sizeof_rqst (RqPersistRefresh j) = 4"
| "sizeof_rqst RqPersistClear = 1"
| "sizeof_rqst (RqBufferSizeGet t) = 2"
| "sizeof_rqst (RqBufferSizeSet r) = 6"
| "sizeof_rqst RqStatsQuery = 2 + 1 + 4 * MAX_DOMAINS"
| "sizeof_rqst RqStatsClear = 1"
| "sizeof_rqst (RqDomainFlowCtrl on) = 1"
| "sizeof_rqst (RqLogRemove t) = 2"
| "sizeof_rqst (RqKmsgEnable on) = 1"

fun rqst_cmd :: "request \<Rightarrow> IoctlCmd" where
  "rqst_cmd (RqOutput r) = OUTPUT_RQST"
| "rqst_cmd (RqPersistStart r) = PERSIST_START_RQST"
| "rqst_cmd (RqPersistStop j) = PERSIST_STOP_RQST"
| "rqst_cmd RqPersistQuery = PERSIST_QUERY_RQST"
| "rqst_cmd (RqPersistRefresh j) = PERSIST_REFRESH_RQST"
| "rqst_cmd RqPersistClear = PERSIST_CLEAR_RQST"
| "rqst_cmd (RqBufferSizeGet t) = BUFFERSIZE_GET_RQST"
| "rqst_cmd (RqBufferSizeSet r) = BUFFERSIZE_SET_RQST"
| "rqst_cmd RqStatsQuery = STATS_QUERY_RQST"
| "rqst_cmd RqStatsClear = STATS_CLEAR_RQST"
| "rqst_cmd (RqDomainFlowCtrl on) = DOMAIN_FLOWCTRL_RQST"
| "rqst_cmd (RqLogRemove t) = LOG_REMOVE_RQST"
| "rqst_cmd (RqKmsgEnable on) = KMSG_ENABLE_RQST"

fun handle :: "'p ServiceEnv \<Rightarrow> output_turn list \<Rightarrow> ServiceController \<Rightarrow> request \<Rightarrow> 'p Service \<Rightarrow> 'p handled" where
  "handle env turns ct (RqOutput rqst) sv =
     (case HandleOutputRqst env turns ct rqst sv of
        None \<Rightarrow> Inl NoReturn
      | Some (Inl e, ps, sv') \<Rightarrow> Inl (Uncaught e)
      | Some (Inr fin, ps, sv') \<Rightarrow> if fin then Inr (ps, sv') else Inl NoReturn)"
| "handle env turns ct (RqPersistStart rqst) sv = HandlePersistStartRqst env ct rqst sv"
| "handle env turns ct (RqPersistStop jid) sv = HandlePersistStopRqst env jid sv"
| "handle env turns ct RqPersistQuery sv = HandlePersistQueryRqst sv"
| "handle env turns ct (RqPersistRefresh jid) sv = HandlePersistRefreshRqst env jid sv"
| "handle env turns ct RqPersistClear sv = HandlePersistClearRqst env sv"
| "handle env turns ct (RqBufferSizeGet tys) sv = HandleBufferSizeGetRqst tys sv"
| "handle env turns ct (RqBufferSizeSet rqst) sv = HandleBufferSizeSetRqst env rqst sv"
| "handle env turns ct RqStatsQuery sv = Inr (HandleStatsQueryRqst (ev_monotonic env) (stats (sv_hilog sv)), sv)"
| "handle env turns ct RqStatsClear sv = HandleStatsClearRqst env sv"
| "handle env turns ct (RqDomainFlowCtrl on) sv = HandleDomainFlowCtrlRqst env on sv"
| "handle env turns ct (RqLogRemove tys) sv = HandleLogRemoveRqst tys sv"
| "handle env turns ct (RqKmsgEnable on) sv = HandleLogKmsgEnableRqst env on sv"

text \<open>
  \<open>RequestHandler\<close>: the announced length must be the size of the structure; otherwise, and when
  the read fails (\<open>None\<close>), nothing is answered.
\<close>

definition RequestHandler ::
  "'p ServiceEnv \<Rightarrow> output_turn list \<Rightarrow> ServiceController \<Rightarrow> MsgHeader \<Rightarrow> request option \<Rightarrow> 'p Service \<Rightarrow> 'p handled" where
  "RequestHandler env turns ct hdr rq sv =
     (case rq of
        None \<Rightarrow> Inr ([], sv)
      | Some r \<Rightarrow> if unat (h_len hdr) \<noteq> sizeof_rqst r then Inr ([], sv) else handle env turns ct r sv)"

definition IsValidCmd :: "IoctlCmd list \<Rightarrow> u8 \<Rightarrow> bool" where
  "IsValidCmd cmds c = (case cmd_of c of None \<Rightarrow> False | Some cmd \<Rightarrow> cmd \<in> set cmds)"

text \<open>
  \<open>payload cmd\<close> is the request that the bytes behind the header form for the command \<open>cmd\<close>. Only
  commands with a handler have one.
\<close>

definition CommunicationLoop ::
  "'p ServiceEnv \<Rightarrow> output_turn list \<Rightarrow> ServiceController \<Rightarrow> IoctlCmd list \<Rightarrow> MsgHeader option \<Rightarrow> (IoctlCmd \<Rightarrow> request option) \<Rightarrow>
   'p Service \<Rightarrow> 'p handled" where
  "CommunicationLoop env turns ct cmds hdr payload sv =
     (case hdr of
        None \<Rightarrow> Inr ([], sv)
      | Some h \<Rightarrow>
          if \<not> IsValidCmd cmds (h_cmd h) then Inr ([WriteErrorRsp ERR_INVALID_RQST_CMD], sv)
          else case cmd_of (h_cmd h) of
                 None \<Rightarrow> Inr ([], sv)
               | Some cmd \<Rightarrow> RequestHandler env turns ct h (payload cmd) sv)"

text \<open>The commands of the two sockets, from \<open>main.cpp\<close>.\<close>

definition controlCmdList :: "IoctlCmd list" where
  "controlCmdList = [PERSIST_START_RQST, PERSIST_STOP_RQST, PERSIST_QUERY_RQST, PERSIST_REFRESH_RQST, PERSIST_CLEAR_RQST,
     BUFFERSIZE_GET_RQST, BUFFERSIZE_SET_RQST, STATS_QUERY_RQST, STATS_CLEAR_RQST, DOMAIN_FLOWCTRL_RQST, LOG_REMOVE_RQST,
     KMSG_ENABLE_RQST]"

definition outputList :: "IoctlCmd list" where
  "outputList = [OUTPUT_RQST]"

text \<open>A connection: the controller is created for it, serves one request, and is destroyed.\<close>

definition ClientEventLoop ::
  "'p ServiceEnv \<Rightarrow> output_turn list \<Rightarrow> u32 \<Rightarrow> u32 \<Rightarrow> ReaderId \<Rightarrow> ReaderId \<Rightarrow> IoctlCmd list \<Rightarrow> MsgHeader option \<Rightarrow>
   (IoctlCmd \<Rightarrow> request option) \<Rightarrow> 'p Service \<Rightarrow> 'p handled" where
  "ClientEventLoop env turns uid pid r1 r2 cmds hdr payload sv =
     (let (ct, sv1) = ServiceController_new uid pid r1 r2 sv
      in case CommunicationLoop env turns ct cmds hdr payload sv1 of
           Inl e \<Rightarrow> Inl e
         | Inr (ps, sv2) \<Rightarrow> Inr (ps, ServiceController_delete ct sv2))"

section \<open>Restoring jobs\<close>

definition is_info_file :: "string \<Rightarrow> bool" where
  "is_info_file name \<longleftrightarrow> length name \<ge> 5 \<and> drop (length name - 5) name = ''.info'' \<and> name \<noteq> ''hilog.info''"

text \<open>
  The info file is read into zeroed memory: \<open>sz\<close> is the size of a \<open>PersistRecoveryInfo\<close>, \<open>parse\<close>
  reads its object representation.
\<close>

definition read_info :: "FileEnv \<Rightarrow> nat \<Rightarrow> char list \<Rightarrow> char list option" where
  "read_info env sz content =
     (let bytes = overwrite (replicate sz NUL) (take sz content);
          hashSum = overwrite (replicate 8 NUL) (take 8 (drop sz content))
      in if hash_bytes (GenerateHash (env_char_signed env) bytes) = hashSum then Some bytes else None)"

definition RestoreOne :: "(string \<Rightarrow> 'p ServiceEnv) \<Rightarrow> nat \<Rightarrow> (char list \<Rightarrow> PersistRecoveryInfo) \<Rightarrow> string \<Rightarrow> 'p Service \<Rightarrow> 'p Service" where
  "RestoreOne env sz parse name sv =
     (if \<not> is_info_file name \<or> \<not> env_open (pe_file (ev_persist (env name))) (HILOG_FILE_DIR @ name) then sv
      else case read_info (pe_file (ev_persist (env name))) sz (fs_content (HILOG_FILE_DIR @ name) (sv_files sv)) of
             None \<Rightarrow> sv
           | Some bytes \<Rightarrow>
               let info = parse bytes
               in snd (StartPersistStoreJob (env name) info (IsKmsg (types (sm_filter (ri_msg info)))) True sv))"

definition RestorePersistJobs ::
  "(string \<Rightarrow> 'p ServiceEnv) \<Rightarrow> bool \<Rightarrow> nat \<Rightarrow> (char list \<Rightarrow> PersistRecoveryInfo) \<Rightarrow> 'p Service \<Rightarrow> int \<times> 'p Service" where
  "RestorePersistJobs env opendir sz parse sv =
     (if \<not> opendir then (ERR_LOG_PERSIST_DIR_OPEN_FAIL, sv)
      else (0, fold (RestoreOne env sz parse) (dir_entries (sv_files sv)) sv))"

end
