(* ===== verification/Service_Props.thy ===== *)
theory Service_Props
  imports Service_Controller
begin

text \<open>
  What the request handlers guarantee: an unprivileged client sees only its own logs, a
  non-blocking request delivers every matching log and ends, and the sockets refuse each other's
  commands.
\<close>

section \<open>Privacy\<close>

lemma query_loop_result:
  "query_loop rx f xs = (Inr (Some d), pos) \<Longrightarrow> \<exists>x \<in> set xs. LogMatchFilter rx f (snd x) = Some True \<and> d = HilogData_copy (snd x)"
  by (induction xs) (auto split: option.splits bool.splits)

text \<open>A query returns a stored log that matches, or the notice about missed logs.\<close>

definition is_notice :: "HilogData \<Rightarrow> bool" where
  "is_notice d \<longleftrightarrow> (\<exists>ts tm n msg. SkippedNotice ts tm n = Some msg \<and> d = HilogData_of_msg msg)"

lemma Query_result:
  assumes "Query rx ts tm f rid k b = (Inr (Some d), b')"
  shows "is_notice d \<or> (\<exists>d0. LogMatchFilter rx f d0 = Some True \<and> d_pid d = d_pid d0)"
proof -
  obtain r pos where r: "GetReader rid b = Some r"
    and pos: "(if m_msgList r then Inr (m_pos r) else Query_start rx f k (hilogDataList b)) = Inr pos"
    using assms by (auto simp: Query_def split: option.splits sum.splits)
  have pid: "d_pid (HilogData_copy d0) = d_pid d0" for d0
    by (simp add: HilogData_copy_def Let_def split: option.split)
  show ?thesis
  proof (cases "SkippedNotice ts tm (skipped r)")
    case None
    then obtain pos' where "query_loop rx f (list_from (hilogDataList b) pos) = (Inr (Some d), pos')"
      using assms r pos by (auto simp: Query_def Let_def split: prod.splits)
    from query_loop_result [OF this] show ?thesis using pid by auto
  next
    case (Some msg)
    then have "d = HilogData_of_msg msg" using assms r pos by (auto simp: Query_def Let_def)
    then show ?thesis using Some by (auto simp: is_notice_def)
  qed
qed

definition shows_only :: "(u32 \<Rightarrow> bool) \<Rightarrow> packet \<Rightarrow> bool" where
  "shows_only P p \<longleftrightarrow> (\<forall>r. p = PktOutput r \<longrightarrow> P (or_pid r) \<or> (\<exists>d. is_notice d \<and> p = WriteQueryResponse d))"

lemma output_loop_shows:
  assumes "\<And>d. LogMatchFilter rx f d = Some True \<Longrightarrow> P (d_pid d)"
  shows "list_all (shows_only P) (fst (snd (output_loop rx f rid k nb lns turns n b)))"
proof (induction turns arbitrary: n b)
  case (Cons t turns)
  have one: "shows_only P (WriteQueryResponse d)" if "Query rx ts tm f rid k b = (Inr (Some d), b')" for ts tm b d b'
    using Query_result [OF that] assms by (auto simp: shows_only_def WriteQueryResponse_def)
  have other: "shows_only P PktOutputEnd" by (simp add: shows_only_def)
  obtain res b' where q: "Query rx (ot_realtime t) (ot_monotonic t) f rid k (ot_others t b) = (res, b')" by fastforce
  then show ?case
    using Cons.IH one other by (cases res; cases "case res of Inr r \<Rightarrow> r | _ \<Rightarrow> None") (auto simp: split_beta)
qed simp

lemma own_filter:
  assumes "\<not> privileged (ct_uid ct)" "CheckOutputRqst ct rqst = RET_SUCCESS"
    and f: "LogFilterFromOutputRqst env ct rqst LogFilter_zero = Some f"
    and pp: "GetPPidByPid (ev_cmdline env) (ev_status env) (ct_pid ct) = Some ppid"
    and m: "LogMatchFilter rx f d = Some True"
  shows "d_pid d = ct_pid ct \<or> (0 < ppid \<and> d_pid d = ppid)"
proof -
  have "rq_pidCount rqst \<le> 0"
    using assms(1,2) by (auto simp: CheckOutputRqst_def privileged_def split: if_splits)
  then have "pids (filter_of_rqst rqst LogFilter_zero) = replicate MAX_PIDS 0"
    by (simp add: filter_of_rqst_def overwrite_def LogFilter_zero_def)
  then have f': "blackPid f = False" "pidCount f = (if ppid > 0 then 2 else 1)"
    "pids f = (if ppid > 0 then [ct_pid ct, ppid, 0, 0, 0] else [ct_pid ct, 0, 0, 0, 0])"
    using f pp assms(1) by (auto simp: LogFilterFromOutputRqst_def Let_def numeral_eq_Suc split: if_splits)
  have "pids_match f d"
    using m f'(1,2) by (auto simp: LogMatchFilter_def split: if_splits)
  then obtain i where "i < nat (pidCount f)" "d_pid d = pids f ! i" by (auto simp: pids_match_def list_ex_iff)
  then show ?thesis using f' by (cases i) (auto split: if_splits simp: less_Suc_eq)
qed

text \<open>
  C34: A client without privileges sees only its own logs. Whatever it asks for and whatever other
  threads do meanwhile, every log it is sent carries its own process id or that of the process
  that \<open>GetPPidByPid\<close> finds above it; the only other text is the notice that it missed logs.
\<close>

theorem output_only_own_logs:
  assumes "\<not> privileged (ct_uid ct)" "GetPPidByPid (ev_cmdline env) (ev_status env) (ct_pid ct) = Some ppid"
    and "HandleOutputRqst env turns ct rqst sv = Some (e, ps, sv')"
  shows "list_all (shows_only (\<lambda>pid. pid = ct_pid ct \<or> (0 < ppid \<and> pid = ppid))) ps"
proof (cases "CheckOutputRqst ct rqst = RET_SUCCESS")
  case True
  let ?P = "\<lambda>pid. pid = ct_pid ct \<or> (0 < ppid \<and> pid = ppid)"
  obtain f where f: "LogFilterFromOutputRqst env ct rqst LogFilter_zero = Some f"
    using assms(3) True by (auto simp: HandleOutputRqst_def Let_def split: option.splits)
  obtain rid k lns n b where "ps = WriteRspHeader OUTPUT_RSP SIZEOF_OutputRsp #
      fst (snd (output_loop (ev_regex env) f rid k (rq_noBlock rqst) lns turns n b))"
    using assms(3) True f by (auto simp: HandleOutputRqst_def Let_def split_beta)
  moreover have "list_all (shows_only ?P) (fst (snd (output_loop (ev_regex env) f rid k (rq_noBlock rqst) lns turns n b)))"
    using own_filter [OF assms(1) True f assms(2)] by (intro output_loop_shows) blast
  ultimately show ?thesis by (simp add: shows_only_def WriteRspHeader_def)
next
  case False
  then show ?thesis using assms(3) by (auto simp: HandleOutputRqst_def Let_def shows_only_def WriteErrorRsp_def)
qed

section \<open>A non-blocking request\<close>

lemma put_reader_twice: "put_reader rid r2 (put_reader rid r1 b) = put_reader rid r2 b"
proof -
  have "AList.update rid r2 (AList.update rid r1 xs) = AList.update rid r2 xs" for xs
    by (induction xs) auto
  then show ?thesis by (simp add: put_reader_def)
qed

lemma GetReader_Create:
  assumes "GetReader rid b = None"
  shows "GetReader rid (CreateBufReader rid cb b) =
    Some \<lparr>m_pos = Null, m_msgList = False, skipped = 0, m_onNewDataCallback = cb\<rparr>"
proof -
  have "map_of (insort_key fst x xs) (fst x) = Some (snd x)" if "fst x \<notin> fst ` set xs" for x :: "ReaderId \<times> BufferReader" and xs
    using that by (induction xs) auto
  then show ?thesis
    using assms by (auto simp: GetReader_def CreateBufReader_def map_of_eq_None_iff)
qed

lemma Create_fields [simp]:
  "hilogDataList (CreateBufReader rid cb b) = hilogDataList b" "stats (CreateBufReader rid cb b) = stats b"
  by (simp_all add: CreateBufReader_def)

text \<open>A new reader starts at the front of the buffer.\<close>

definition attached :: "ReaderId \<Rightarrow> BufferReader \<Rightarrow> HilogBuffer \<Rightarrow> HilogBuffer" where
  "attached rid r b = put_reader rid (r\<lparr>m_msgList := True, m_pos := list_begin (hilogDataList b)\<rparr>) b"

lemma Query_first:
  assumes "GetReader rid b = Some r" "\<not> m_msgList r" "skipped r = 0"
  shows "Query rx ts tm f rid 0 b = Query rx ts tm f rid 0 (attached rid r b)"
proof -
  have r: "GetReader rid (attached rid r b) = Some (r\<lparr>m_msgList := True, m_pos := list_begin (hilogDataList b)\<rparr>)"
    by (simp add: attached_def)
  have "put_reader rid x (attached rid r b) = put_reader rid x b" for x by (simp add: attached_def put_reader_twice)
  moreover have "hilogDataList (attached rid r b) = hilogDataList b" by (simp add: attached_def)
  ultimately show ?thesis
    using assms r by (simp add: Query_def Query_start_def SkippedNotice_def Let_def split_beta)
qed

lemma attached_cursor:
  assumes "buffer_wf b" "regex_total rx f (hilogDataList b)" "skipped r = 0"
  shows "cursor_inv rx f rid (attached rid r b)" "cursor_pend rid (attached rid r b) = map snd (hilogDataList b)"
proof -
  let ?l = "hilogDataList b"
  have "reader_wf ?l (r\<lparr>m_msgList := True, m_pos := list_begin ?l\<rparr>)"
    by (cases ?l) (auto simp: reader_wf_def list_begin_def)
  then show "cursor_inv rx f rid (attached rid r b)"
    using assms put_reader_wf [OF assms(1)] by (simp add: cursor_inv_def attached_def)
  have "list_from ?l (list_begin ?l) = ?l" using assms(1) by (intro list_from_begin_self) (simp add: buffer_wf_def)
  then show "cursor_pend rid (attached rid r b) = map snd (hilogDataList b)"
    by (simp add: cursor_pend_def pending_nodes_def attached_def)
qed

lemma Query_cursor:
  assumes "cursor_inv rx f rid b" "cursor_next rx ts tm f rid k b = (r, b')"
  shows "Query rx ts tm f rid k b = (Inr r, b')"
proof -
  obtain rd where rd: "GetReader rid b = Some rd" "m_msgList rd" "skipped rd = 0" and tot: "regex_total rx f (hilogDataList b)"
    using assms(1) by (auto simp: cursor_inv_def split: option.splits)
  obtain pre where "hilogDataList b = pre @ list_from (hilogDataList b) (m_pos rd)" using list_from_suffix by blast
  then have "set (list_from (hilogDataList b) (m_pos rd)) \<subseteq> set (hilogDataList b)" by (metis set_append Un_upper2)
  then have tot': "regex_total rx f (list_from (hilogDataList b) (m_pos rd))"
    using tot by (auto simp only: regex_total_def list_all_iff)
  have "fst (query_loop rx f xs) \<noteq> Inl e" if "regex_total rx f xs" for xs e
    using that by (induction xs) (auto simp: regex_total_def split: bool.splits)
  then have "fst (Query rx ts tm f rid k b) \<noteq> Inl e" for e
    using rd tot' by (simp add: Query_def SkippedNotice_def Let_def split_beta)
  then show ?thesis
    using assms(2) by (cases "Query rx ts tm f rid k b"; cases "fst (Query rx ts tm f rid k b)") (auto simp: cursor_next_def)
qed

definition quiet :: "output_turn \<Rightarrow> bool" where
  "quiet t \<longleftrightarrow> ot_others t = (\<lambda>b. b) \<and> ot_connected t"

lemma output_loop_drains:
  assumes "cursor_inv rx f rid b" "list_all quiet turns" "length (cursor_pend rid b) < length turns"
  shows "\<exists>b'. output_loop rx f rid k True False turns n b =
    (Inr True, map WriteQueryResponse (filter (matches rx f) (cursor_pend rid b)) @ [PktOutputEnd], b')"
  using assms
proof (induction turns arbitrary: b)
  case (Cons t turns)
  have t: "ot_others t = (\<lambda>b. b)" "ot_connected t" using Cons.prems(2) by (simp_all add: quiet_def)
  from Cons.prems(1) show ?case
  proof (cases rule: query_cursor.next_cases [where ts = "ot_realtime t" and tm = "ot_monotonic t" and k = k])
    case (none s')
    then show ?thesis using Query_cursor [OF Cons.prems(1) none(1)] t by simp
  next
    case (some a as s')
    have "\<exists>b'. output_loop rx f rid k True False turns n s' =
        (Inr True, map WriteQueryResponse (filter (matches rx f) (cursor_pend rid s')) @ [PktOutputEnd], b')"
      using some Cons.prems(2,3) by (intro Cons.IH) auto
    then show ?thesis using Query_cursor [OF Cons.prems(1) some(1)] t some(2,4) by auto
  qed
qed simp

lemma output_loop_first:
  assumes "GetReader rid b = Some r" "\<not> m_msgList r" "skipped r = 0" "list_all quiet turns" "turns \<noteq> []"
  shows "output_loop rx f rid 0 nb lns turns n b = output_loop rx f rid 0 nb lns turns n (attached rid r b)"
proof -
  obtain t ts where ts: "turns = t # ts" using assms(5) by (cases turns) auto
  then have "ot_others t = (\<lambda>b. b)" using assms(4) by (simp add: quiet_def)
  then show ?thesis using Query_first [OF assms(1-3)] by (simp add: ts)
qed

text \<open>
  C35: A non-blocking request without a limit of lines returns: with as many turns as there are
  logs and one more, it sends the header, every log of the buffer that matches the filter, each
  once and in order, and the end marker, when no other thread changes the buffer and the client
  stays connected.
\<close>

theorem output_noblock_complete:
  assumes ct: "ServiceController_new uid pid r1 r2 sv = (ct, sv1)"
    and rqst: "rq_noBlock rqst" "rq_headLines rqst = 0" "rq_tailLines rqst = 0" "CheckOutputRqst ct rqst = RET_SUCCESS"
    and f: "LogFilterFromOutputRqst env ct rqst LogFilter_zero = Some f"
    and b: "buffer_of (IsKmsg (types f)) sv = b" "buffer_wf b" "GetReader (if IsKmsg (types f) then r2 else r1) b = None"
    and rx: "regex_total (ev_regex env) f (hilogDataList b)"
    and turns: "list_all quiet turns" "length (hilogDataList b) < length turns"
  shows "\<exists>sv'. HandleOutputRqst env turns ct rqst sv1 =
    Some (Inr True, WriteRspHeader OUTPUT_RSP SIZEOF_OutputRsp #
      map WriteQueryResponse (filter (matches (ev_regex env) f) (map snd (hilogDataList b))) @ [PktOutputEnd], sv')"
proof -
  let ?k = "IsKmsg (types f)"
  define rid where "rid = (if ?k then r2 else r1)"
  define r :: BufferReader where "r = \<lparr>m_pos = Null, m_msgList = False, skipped = 0, m_onNewDataCallback = True\<rparr>"
  let ?b1 = "CreateBufReader rid True b"
  have b1: "buffer_of ?k sv1 = ?b1" and ids: "(if ?k then m_kmsgBufferReader ct else m_hilogBufferReader ct) = rid"
    using ct b(1) by (auto simp: ServiceController_new_def buffer_of_def rid_def)
  have rd: "GetReader rid ?b1 = Some r" unfolding r_def using b(3) by (intro GetReader_Create) (simp add: rid_def)
  have "regex_total (ev_regex env) f (hilogDataList ?b1)" using rx by simp
  note cur = attached_cursor [OF CreateBufReader_wf [OF b(2)] this, of r rid]
  have "length (cursor_pend rid (attached rid r ?b1)) < length turns" using cur(2) turns(2) by (simp add: r_def)
  then obtain b' where "output_loop (ev_regex env) f rid 0 True False turns 0 (attached rid r ?b1) =
      (Inr True, map WriteQueryResponse (filter (matches (ev_regex env) f) (map snd (hilogDataList b))) @ [PktOutputEnd], b')"
    using output_loop_drains [OF cur(1) turns(1), of 0 0] cur(2) by (auto simp: r_def)
  then have "output_loop (ev_regex env) f rid 0 True False turns 0 ?b1 =
      (Inr True, map WriteQueryResponse (filter (matches (ev_regex env) f) (map snd (hilogDataList b))) @ [PktOutputEnd], b')"
    using turns(2) by (subst output_loop_first [OF rd _ _ turns(1)]) (auto simp: r_def)
  then show ?thesis
    using rqst f b1 ids by (simp add: HandleOutputRqst_def Let_def)
qed

section \<open>Refused commands\<close>

lemma Remove_Create:
  assumes "GetReader rid b = None"
  shows "RemoveBufReader rid (CreateBufReader rid cb b) = b"
proof -
  have "filter (\<lambda>x. fst x \<noteq> rid) (insort_key fst (rid, r) xs) = xs" if "rid \<notin> fst ` set xs" for r :: BufferReader and xs
    using that by (induction xs) (auto simp: filter_id_conv image_iff)
  moreover have "rid \<notin> fst ` set (m_logReaders b)" using assms by (simp add: GetReader_def map_of_eq_None_iff)
  ultimately show ?thesis by (simp add: RemoveBufReader_def CreateBufReader_def)
qed

text \<open>
  C36: Each socket serves only its own commands. A connection whose first message has a command
  outside of the list of its socket, or an unknown one, is answered with
  \<open>ERR_INVALID_RQST_CMD\<close> and leaves the daemon exactly as it was; so the output socket cannot be
  used to control the daemon.
\<close>

theorem foreign_command_refused:
  assumes "GetReader r1 (sv_hilog sv) = None" "GetReader r2 (sv_kmsg sv) = None" "\<forall>cmd \<in> set cmds. cmd_of (h_cmd h) \<noteq> Some cmd"
  shows "ClientEventLoop env turns uid pid r1 r2 cmds (Some h) payload sv = Inr ([WriteErrorRsp ERR_INVALID_RQST_CMD], sv)"
  using assms
  by (auto simp: IsValidCmd_def ClientEventLoop_def ServiceController_new_def CommunicationLoop_def ServiceController_delete_def Remove_Create split: option.split)

section \<open>Examples\<close>

definition demo_env :: "unit ServiceEnv" where
  "demo_env = \<lparr>ev_cmdline = demo_cmdline, ev_status = demo_status, ev_regex = (\<lambda>_ _. None), ev_persist = demo_persist_env,
     ev_set = (\<lambda>_ _ p. (0, p)), ev_stat = [(0, 0)], ev_newReader = 30, ev_realtime = LogTimeStamp 1 2,
     ev_monotonic = LogTimeStamp 3 4, ev_opendir = True, ev_timeout = False\<rparr>"

definition demo_service :: "unit Service" where
  "demo_service = \<lparr>sv_limits = replicate 6 65536, sv_hilog = demo_new, sv_kmsg = demo_new, sv_collector = demo_collector,
     sv_jobs = [], sv_files = demo_files, sv_kmsgThread = LogKmsg_new, sv_params = ()\<rparr>"

definition demo_rqst :: OutputRqst where
  "demo_rqst = \<lparr>rq_headLines = 0, rq_types = 0, rq_levels = 0, rq_blackDomain = False, rq_domainCount = 0,
     rq_domains = replicate 5 0, rq_blackTag = False, rq_tagCount = 0, rq_tags = replicate 10 (replicate 33 NUL),
     rq_blackPid = False, rq_pidCount = 0, rq_pids = replicate 5 0, rq_regex = replicate 128 NUL, rq_noBlock = True,
     rq_tailLines = 0\<rparr>"

definition demo_turns :: "output_turn list" where
  "demo_turns = replicate 9 \<lparr>ot_others = (\<lambda>b. b), ot_realtime = LogTimeStamp 1 2, ot_monotonic = LogTimeStamp 3 4, ot_connected = True\<rparr>"

lemma demo_parent: "GetPPidByPid demo_cmdline demo_status 9 = Some 3"
  by (subst GetPPidByPid.simps, subst demo_steps, simp, subst GetPPidByPid.simps, simp add: demo_steps)

theorem output_only_own_logs_witness:
  "\<exists>e ps sv'. HandleOutputRqst demo_env demo_turns \<lparr>ct_uid = 20010044, ct_pid = 9, m_hilogBufferReader = 7, m_kmsgBufferReader = 8\<rparr>
      demo_rqst (demo_service\<lparr>sv_hilog := CreateBufReader 7 True demo_new\<rparr>) = Some (e, ps, sv') \<and>
    list_all (shows_only (\<lambda>pid. pid = 9 \<or> (0 < (3 :: u32) \<and> pid = 3))) ps"
proof -
  let ?ct = "\<lparr>ct_uid = 20010044, ct_pid = 9, m_hilogBufferReader = 7, m_kmsgBufferReader = 8\<rparr>"
  let ?sv = "demo_service\<lparr>sv_hilog := CreateBufReader 7 True demo_new\<rparr>"
  have p: "GetPPidByPid (ev_cmdline demo_env) (ev_status demo_env) (ct_pid ?ct) = Some 3"
    using demo_parent by (simp add: demo_env_def)
  have "CheckOutputRqst ?ct demo_rqst = RET_SUCCESS" by code_simp
  moreover have "\<exists>f. LogFilterFromOutputRqst demo_env ?ct demo_rqst LogFilter_zero = Some f"
    using p by (simp add: LogFilterFromOutputRqst_def Let_def)
  ultimately obtain e ps sv' where h: "HandleOutputRqst demo_env demo_turns ?ct demo_rqst ?sv = Some (e, ps, sv')"
    by (auto simp: HandleOutputRqst_def Let_def split_beta)
  have "\<not> privileged (ct_uid ?ct)" by code_simp
  from output_only_own_logs [OF this p h] h show ?thesis by auto
qed

theorem output_noblock_complete_witness:
  "\<exists>ct sv1 sv' f. ServiceController_new 0 9 7 8 demo_service = (ct, sv1) \<and>
     HandleOutputRqst demo_env demo_turns ct demo_rqst sv1 =
       Some (Inr True, WriteRspHeader OUTPUT_RSP SIZEOF_OutputRsp #
         map WriteQueryResponse (filter (matches (\<lambda>_ _. None) f) (map snd (hilogDataList demo_new))) @ [PktOutputEnd], sv') \<and>
     length (filter (matches (\<lambda>_ _. None) f) (map snd (hilogDataList demo_new))) = 4"
proof -
  obtain ct sv1 where n: "ServiceController_new 0 9 7 8 demo_service = (ct, sv1)" by fastforce
  then have ct: "ct = \<lparr>ct_uid = 0, ct_pid = 9, m_hilogBufferReader = 7, m_kmsgBufferReader = 8\<rparr>"
    by (simp add: ServiceController_new_def)
  let ?f = "filter_of_rqst demo_rqst LogFilter_zero"
  have f: "LogFilterFromOutputRqst demo_env ct demo_rqst LogFilter_zero = Some ?f"
    by (simp add: LogFilterFromOutputRqst_def ct privileged_def ROOT_UID_def Let_def)
  have k: "\<not> IsKmsg (types ?f)" by code_simp
  have rd: "GetReader 7 demo_new = None" by code_simp
  have wf: "buffer_wf demo_new" by (simp add: demo_new_def HilogBuffer_new_inv)
  have rx: "regex_total (\<lambda>_ _. None) ?f (hilogDataList demo_new)" by code_simp
  have "length (hilogDataList demo_new) < 9" by code_simp
  then have t: "list_all quiet demo_turns" "length (hilogDataList demo_new) < length demo_turns"
    by (simp_all add: demo_turns_def quiet_def list_all_iff)
  have c: "rq_noBlock demo_rqst" "rq_headLines demo_rqst = 0" "rq_tailLines demo_rqst = 0" by (simp_all add: demo_rqst_def)
  have "CheckOutputRqst ct demo_rqst = RET_SUCCESS" unfolding ct by code_simp
  from output_noblock_complete [OF n c this f _ wf _ _ t] rd k rx n
  have "\<exists>sv'. HandleOutputRqst demo_env demo_turns ct demo_rqst sv1 =
       Some (Inr True, WriteRspHeader OUTPUT_RSP SIZEOF_OutputRsp #
         map WriteQueryResponse (filter (matches (\<lambda>_ _. None) ?f) (map snd (hilogDataList demo_new))) @ [PktOutputEnd], sv')"
    by (simp add: buffer_of_def demo_service_def demo_env_def)
  moreover have "length (filter (matches (\<lambda>_ _. None) ?f) (map snd (hilogDataList demo_new))) = 4" by code_simp
  ultimately show ?thesis using n by blast
qed

theorem foreign_command_refused_witness:
  "list_all (\<lambda>cmd. cmd_of (code_of STATS_CLEAR_RQST) \<noteq> Some cmd) outputList \<and>
   ClientEventLoop demo_env [] 20010044 9 7 8 outputList (Some \<lparr>h_ver = MSG_VER, h_cmd = code_of STATS_CLEAR_RQST, h_err = 0, h_len = 1\<rparr>)
     (\<lambda>_. Some RqStatsClear) demo_service = Inr ([WriteErrorRsp ERR_INVALID_RQST_CMD], demo_service)"
proof -
  have rd: "GetReader 7 (sv_hilog demo_service) = None" "GetReader 8 (sv_kmsg demo_service) = None" by code_simp+
  have c: "list_all (\<lambda>cmd. cmd_of (code_of STATS_CLEAR_RQST) \<noteq> Some cmd) outputList" by code_simp
  show ?thesis by (rule conjI [OF c], rule foreign_command_refused [OF rd]) (use c in \<open>simp add: list_all_iff\<close>)
qed

end
