(* ===== verification/Sec_Format.thy ===== *)
theory Sec_Format
  imports Log_Utils
begin

text \<open>
  The formatting of log texts, \<open>vsnprintf_s_p.c\<close> and \<open>output_p.inl\<close>, for the 64-bit targets: the
  state machine over the format string, the conversions, and the bounded output stream. The
  configuration is the one of the sources, without \<open>SECUREC_COMPATIBLE_LINUX_FORMAT\<close>, which
  they undefine. A word of single-bit flags is the set of its flags. Undefined behaviour is
  \<open>None\<close>: an argument that is not of the type that the code reads, a string without terminator,
  the negation of the least integer, a call of the system with other arguments than the format that
  it is passed asks for. The floating point conversion of the system, the conversion
  of wide characters, the success of allocations and the signedness of \<open>char\<close> are parameters.
\<close>

section \<open>Data\<close>

datatype SecFlag = SIGN | SIGN_SPACE | LEFT | LEADZERO | LONG | SHORT | SIGNED | ALTERNATE | NEGATIVE | FORCE_OCTAL
  | LONG_DOUBLE | WIDECHAR | LONGLONG | FCHAR | POINTER | I64 | PTRDIFF | SIZE

record SecFormatAttr =
  fa_flags :: "SecFlag set"
  fldWidth :: int
  precision :: int
  bufferIsWide :: bool
  dynWidth :: bool
  dynPrecision :: bool

record SecPrintfStream =
  ps_count :: int
  ps_cur :: "char list"

datatype SecFmtState = STAT_NORMAL | STAT_PERCENT | STAT_FLAG | STAT_WIDTH | STAT_DOT | STAT_PRECIS | STAT_SIZE | STAT_TYPE
  | STAT_INVALID

text \<open>
  The arguments behind the format. A pointer to characters is the memory it points to, or
  \<open>None\<close> for a null pointer; other pointers are 64-bit numbers.
\<close>

datatype va_arg = VaInt u32 | VaLong u64 | VaDouble u64 | VaLongDouble "128 word" | VaStr "char list option" | VaWStr "u32 list option"

record SecEnv =
  se_sprintf :: "nat \<Rightarrow> string \<Rightarrow> int list \<Rightarrow> u64 \<Rightarrow> string option"
  se_wctomb :: "u32 \<Rightarrow> char list option"
  se_malloc :: "nat \<Rightarrow> bool"
  se_char_signed :: bool

definition SECUREC_INT_MAX :: int where
  [simp]: "SECUREC_INT_MAX = 2147483647"

definition SECUREC_INT_MAX_DIV_TEN :: int where
  [simp]: "SECUREC_INT_MAX_DIV_TEN = 21474836"

definition SECUREC_FMT_STR_LEN :: nat where
  [simp]: "SECUREC_FMT_STR_LEN = 16"

definition SECUREC_FLOAT_BUFSIZE :: int where
  [simp]: "SECUREC_FLOAT_BUFSIZE = 309 + 40"

definition SECUREC_FLOAT_BUFSIZE_LB :: int where
  [simp]: "SECUREC_FLOAT_BUFSIZE_LB = 4932 + 40"

definition SECUREC_BUFFER_SIZE :: nat where
  [simp]: "SECUREC_BUFFER_SIZE = 512"

definition SECUREC_MAX_PRECISION :: int where
  [simp]: "SECUREC_MAX_PRECISION = 512"

definition SECUREC_PRINTF_TRUNCATE :: int where
  [simp]: "SECUREC_PRINTF_TRUNCATE = -2"

section \<open>The output stream\<close>

fun SecWriteString :: "char list \<Rightarrow> SecPrintfStream \<times> int \<Rightarrow> SecPrintfStream \<times> int" where
  "SecWriteString [] x = x"
| "SecWriteString (c # cs) (st, n) =
     (let k = ps_count st - 1
      in if k \<ge> 0 then SecWriteString cs (st\<lparr>ps_count := k, ps_cur := ps_cur st @ [c]\<rparr>, n + 1)
         else (st\<lparr>ps_count := k\<rparr>, -1))"

fun SecWriteMultiChar :: "char \<Rightarrow> nat \<Rightarrow> SecPrintfStream \<times> int \<Rightarrow> SecPrintfStream \<times> int" where
  "SecWriteMultiChar c 0 x = x"
| "SecWriteMultiChar c (Suc num) (st, n) =
     (let k = ps_count st - 1
      in if k \<ge> 0 then SecWriteMultiChar c num (st\<lparr>ps_count := k, ps_cur := ps_cur st @ [c]\<rparr>, n + 1)
         else (st\<lparr>ps_count := k\<rparr>, -1))"

text \<open>The unchecked copies behind a check for enough room.\<close>

definition SAFE_WRITE :: "char list \<Rightarrow> SecPrintfStream \<times> int \<Rightarrow> SecPrintfStream \<times> int" where
  "SAFE_WRITE s x =
     (let (st, n) = x in (st\<lparr>ps_count := ps_count st - int (length s), ps_cur := ps_cur st @ s\<rparr>, n + int (length s)))"

definition REST_BUF_ENOUGH :: "nat \<Rightarrow> SecPrintfStream \<times> int \<Rightarrow> bool" where
  "REST_BUF_ENOUGH needLen x \<longleftrightarrow> ps_count (fst x) - int needLen \<ge> 0"

definition write_str :: "char list \<Rightarrow> SecPrintfStream \<times> int \<Rightarrow> SecPrintfStream \<times> int" where
  "write_str s x = (if REST_BUF_ENOUGH (length s) x then SAFE_WRITE s x else SecWriteString s x)"

definition write_pad :: "char \<Rightarrow> nat \<Rightarrow> SecPrintfStream \<times> int \<Rightarrow> SecPrintfStream \<times> int" where
  "write_pad c num x = (if REST_BUF_ENOUGH num x then SAFE_WRITE (replicate num c) x else SecWriteMultiChar c num x)"

definition write_normal :: "char \<Rightarrow> SecPrintfStream \<times> int \<Rightarrow> SecPrintfStream \<times> int" where
  "write_normal c x = (if REST_BUF_ENOUGH 1 x then SAFE_WRITE [c] x else ((fst x)\<lparr>ps_count := -1\<rparr>, -1))"

definition PRIVACY_STRING :: string where
  "PRIVACY_STRING = ''<private>''"

definition SecWritePrivateStr :: "SecPrintfStream \<times> int \<Rightarrow> SecPrintfStream \<times> int" where
  "SecWritePrivateStr x = write_str PRIVACY_STRING x"

section \<open>Decoding the format\<close>

definition SecDecodeFlags :: "char \<Rightarrow> SecFormatAttr \<Rightarrow> SecFormatAttr" where
  "SecDecodeFlags ch attr =
     (let add = (\<lambda>f. attr\<lparr>fa_flags := insert f (fa_flags attr)\<rparr>)
      in if ch = CHR '' '' then add SIGN_SPACE else if ch = CHR ''+'' then add SIGN else if ch = CHR ''-'' then add LEFT
         else if ch = CHR ''0'' then add LEADZERO else if ch = CHR ''#'' then add ALTERNATE else attr)"

text \<open>The new attributes, by how much the format pointer advances, and whether 0 is returned.\<close>

definition SecDecodeSize :: "char \<Rightarrow> SecFormatAttr \<Rightarrow> char list \<Rightarrow> SecFormatAttr \<times> nat \<times> bool" where
  "SecDecodeSize ch attr fmt =
     (let add = (\<lambda>fs. attr\<lparr>fa_flags := fs \<union> fa_flags attr\<rparr>); n1 = take 1 fmt
      in if ch = CHR ''q'' \<or> ch = CHR ''L'' then (add {LONGLONG, LONG_DOUBLE}, 0, True)
         else if ch = CHR ''l'' then (if n1 = ''l'' then (add {LONGLONG}, 1, True) else (add {LONG}, 0, True))
         else if ch = CHR ''t'' then (add {PTRDIFF}, 0, True)
         else if ch = CHR ''I''
         then (if take 2 fmt = ''64'' then (add {I64}, 2, True)
               else if take 2 fmt = ''32'' then (attr\<lparr>fa_flags := fa_flags attr - {I64}\<rparr>, 2, True)
               else if n1 \<in> {''d'', ''i'', ''o'', ''u'', ''x'', ''X''} then (add {I64}, 0, True)
               else (add {I64}, 0, False))
         else if ch = CHR ''h'' then (if n1 = ''h'' then (add {FCHAR}, 0, True) else (add {SHORT}, 0, True))
         else if ch = CHR ''w'' then (add {WIDECHAR}, 0, True)
         else (attr, 0, True))"

text \<open>The classes of the characters below 128; the others have class 0.\<close>

definition FMT_CHAR_TYPES :: "nat list" where
  "FMT_CHAR_TYPES =
     [0, 0, 0, 0, 0, 0, 0, 0, 0, 0, 0, 0, 0, 0, 0, 0, 0, 0, 0, 0, 0, 0, 0, 0, 0, 0, 0, 0, 0, 0, 0, 0,
      6, 0, 0, 6, 0, 1, 0, 0, 0, 0, 3, 6, 0, 6, 2, 0, 4, 5, 5, 5, 5, 5, 5, 5, 5, 5, 0, 0, 0, 0, 0, 0,
      0, 0, 0, 8, 0, 8, 8, 8, 0, 7, 0, 0, 7, 0, 7, 0, 0, 0, 0, 8, 0, 0, 0, 0, 8, 0, 7, 0, 0, 0, 0, 0,
      0, 0, 0, 8, 8, 8, 8, 8, 7, 8, 7, 0, 7, 0, 0, 8, 8, 7, 0, 8, 7, 8, 0, 7, 8, 0, 7, 0, 0, 0, 0, 0] @ replicate 128 0"

definition FMT_STATES :: "nat list" where
  "FMT_STATES =
     [0, 8, 8, 8, 8, 8, 8, 0, 0, 1, 0, 8, 8, 8, 8, 8, 1, 0, 0, 4, 4, 4, 8, 8, 8, 0, 0, 0, 3, 3, 8, 5,
      8, 8, 0, 0, 0, 2, 2, 3, 5, 5, 8, 0, 0, 0, 3, 3, 3, 5, 5, 8, 0, 0, 0, 2, 2, 2, 8, 8, 8, 0, 0, 0,
      6, 6, 6, 6, 6, 6, 0, 0, 0, 7, 7, 7, 7, 7, 7, 0, 0]"

definition FMT_CHAR_TABLE :: "nat list" where
  "FMT_CHAR_TABLE = FMT_CHAR_TYPES @ FMT_STATES"

fun state_code :: "SecFmtState \<Rightarrow> nat" where
  "state_code STAT_NORMAL = 0"
| "state_code STAT_PERCENT = 1"
| "state_code STAT_FLAG = 2"
| "state_code STAT_WIDTH = 3"
| "state_code STAT_DOT = 4"
| "state_code STAT_PRECIS = 5"
| "state_code STAT_SIZE = 6"
| "state_code STAT_TYPE = 7"
| "state_code STAT_INVALID = 8"

definition state_of :: "nat \<Rightarrow> SecFmtState" where
  "state_of n = [STAT_NORMAL, STAT_PERCENT, STAT_FLAG, STAT_WIDTH, STAT_DOT, STAT_PRECIS, STAT_SIZE, STAT_TYPE, STAT_INVALID] ! n"

definition DECODE_STATE :: "char \<Rightarrow> SecFmtState \<Rightarrow> SecFmtState" where
  "DECODE_STATE c laststate =
     state_of (FMT_CHAR_TABLE ! ((FMT_CHAR_TABLE ! of_char c) * (state_code STAT_INVALID + 1) + state_code laststate + 256))"
section \<open>Conversions\<close>

text \<open>
  A conversion ends with the attributes, the prefix and the text to write, without output, or as
  private. The text is in characters or in wide characters.
\<close>

datatype sec_text = Narrow "char list" | Wide "u32 list"

datatype SecConv = Private | NoOutput | Output SecFormatAttr "char list" sec_text

fun text_len :: "sec_text \<Rightarrow> nat" where
  "text_len (Narrow s) = length s"
| "text_len (Wide s) = length s"

definition wide_flags :: "SecFlag set" where
  "wide_flags = {LONG, WIDECHAR}"

definition SecDecodeTypeC :: "SecEnv \<Rightarrow> SecFormatAttr \<Rightarrow> u32 \<Rightarrow> SecConv" where
  "SecDecodeTypeC env attr cValue =
     (let attr' = attr\<lparr>bufferIsWide := False\<rparr>
      in if fa_flags attr \<inter> wide_flags \<noteq> {}
         then (case se_wctomb env cValue of None \<Rightarrow> NoOutput | Some bs \<Rightarrow> Output attr' [] (Narrow bs))
         else Output attr' [] (Narrow [char_of (unat cValue mod 256)]))"

text \<open>
  The characters that the scan of a string finds: up to the terminator or, when a precision is
  given, at most as many. A negative precision is counted down without ever being zero. \<open>None\<close> when
  the scan runs off the memory, the length is no \<open>int\<close> or the count overflows.
\<close>

definition scan_str :: "'a \<Rightarrow> int \<Rightarrow> 'a list \<Rightarrow> 'a list option" where
  "scan_str z prec mem =
     (let s = takeWhile (\<lambda>c. c \<noteq> z) mem
      in if 0 \<le> prec \<and> nat prec \<le> length s then Some (take (nat prec) s)
         else if length s < length mem \<and> int (length s) - (if prec < -1 then prec else 0) \<le> SECUREC_INT_MAX then Some s
         else None)"

definition wide_null :: "u32 list" where
  "wide_null = map (\<lambda>c. of_nat (of_char c)) ''(null)'' @ [0, 0]"

definition SecDecodeTypeS :: "SecFormatAttr \<Rightarrow> va_arg \<Rightarrow> SecConv option" where
  "SecDecodeTypeS attr argPtr =
     (if fa_flags attr \<inter> wide_flags \<noteq> {}
      then (case argPtr of
              VaWStr p \<Rightarrow> map_option (\<lambda>s. Output (attr\<lparr>bufferIsWide := True\<rparr>) [] (Wide s))
                            (scan_str 0 (precision attr) (case p of None \<Rightarrow> wide_null | Some mem \<Rightarrow> mem))
            | _ \<Rightarrow> None)
      else (case argPtr of
              VaStr p \<Rightarrow> map_option (\<lambda>s. Output attr [] (Narrow s))
                           (scan_str NUL (precision attr) (case p of None \<Rightarrow> ''(null)'' @ [NUL, NUL] | Some mem \<Rightarrow> mem))
            | _ \<Rightarrow> None))"

text \<open>The float format: from behind the last \<open>%\<close> or \<open>}\<close> up to the type. \<open>seen\<close> is what was read of the format, backwards.\<close>

definition float_format :: "char list \<Rightarrow> string" where
  "float_format seen = ''%'' @ rev (hd seen # takeWhile (\<lambda>c. c \<noteq> CHR ''%'' \<and> c \<noteq> CHR ''}'') (tl seen))"

definition float_precision :: "char \<Rightarrow> SecFormatAttr \<Rightarrow> int" where
  "float_precision ch attr =
     (if precision attr < 0 then 6 else if precision attr = 0 \<and> ch \<in> {CHR ''g'', CHR ''G''} then 1 else precision attr)"

definition float_bufsize :: "SecFormatAttr \<Rightarrow> int" where
  "float_bufsize attr = (if LONG_DOUBLE \<in> fa_flags attr then SECUREC_FLOAT_BUFSIZE_LB else SECUREC_FLOAT_BUFSIZE)"

definition float_buffer_len :: "int \<Rightarrow> nat" where
  "float_buffer_len bufferSize = (if bufferSize \<ge> int SECUREC_BUFFER_SIZE then nat bufferSize + 2 else SECUREC_BUFFER_SIZE + 1)"

text \<open>
  The call of the system with a \<open>double\<close>: width and precision are passed when \<open>dynWidth\<close> and
  \<open>dynPrecision\<close> say so. It is defined when the format that is passed on asks for exactly that: one
  \<open>int\<close> for each of its asterisks, and no size but \<open>l\<close>, which has no effect on a \<open>double\<close>.
\<close>

definition sprintf_typed :: "string \<Rightarrow> nat \<Rightarrow> bool" where
  "sprintf_typed fmt n \<longleftrightarrow>
     length (filter (\<lambda>c. c = CHR ''*'') fmt) = n \<and>
     filter (\<lambda>c. c \<notin> set ''+- #0123456789.*'') (butlast (tl fmt)) \<in> {[], ''l''}"

definition dyn_ints :: "int \<Rightarrow> SecFormatAttr \<Rightarrow> int list" where
  "dyn_ints prec attr = (if dynWidth attr then [fldWidth attr] else []) @ (if dynPrecision attr then [prec] else [])"

definition float_output :: "SecEnv \<Rightarrow> nat \<Rightarrow> string \<Rightarrow> int \<Rightarrow> SecFormatAttr \<Rightarrow> u64 \<Rightarrow> SecConv option" where
  "float_output env formatBufLen fltFmtStr prec attr d =
     (if \<not> sprintf_typed fltFmtStr (length (dyn_ints prec attr)) then None
      else case se_sprintf env formatBufLen fltFmtStr (dyn_ints prec attr) d of
             None \<Rightarrow> Some NoOutput
           | Some s \<Rightarrow> Some (Output (attr\<lparr>precision := prec, fldWidth := int (length s), fa_flags := {}\<rparr>) [] (Narrow s)))"

fun take_double :: "(u64 \<Rightarrow> SecConv option) \<Rightarrow> va_arg list \<Rightarrow> (SecConv \<times> va_arg list) option" where
  "take_double k (VaDouble d # rest) = map_option (\<lambda>c. (c, rest)) (k d)"
| "take_double k args = None"

definition SecDecodeFloat ::
  "SecEnv \<Rightarrow> bool \<Rightarrow> char list \<Rightarrow> char \<Rightarrow> SecFormatAttr \<Rightarrow> va_arg list \<Rightarrow> (SecConv \<times> va_arg list) option" where
  "SecDecodeFloat env isPrivacy seen ch attr args =
     (if isPrivacy then take_double (\<lambda>d. Some Private) args
      else let prec = float_precision ch attr; bufsize = float_bufsize attr; bufferSize = max (bufsize + prec) (fldWidth attr);
               formatBufLen = float_buffer_len bufferSize; fltFmtStr = float_format seen
           in if prec > SECUREC_INT_MAX - bufsize then Some (NoOutput, args)
              else if bufferSize \<ge> int SECUREC_BUFFER_SIZE \<and> \<not> se_malloc env formatBufLen then Some (NoOutput, args)
              else if length fltFmtStr + 1 > SECUREC_FMT_STR_LEN \<and> \<not> se_malloc env (length fltFmtStr + 1) then Some (NoOutput, args)
              else take_double (float_output env formatBufLen fltFmtStr prec attr) args)"

text \<open>Reading an integer argument into a \<open>SecInt64\<close>; the flags may become negative.\<close>

definition read_char :: "bool \<Rightarrow> SecFlag set \<Rightarrow> u32 \<Rightarrow> int \<times> SecFlag set" where
  "read_char char_signed fs w =
     (let b = ucast w :: u8
      in if SIGNED \<in> fs
         then let l = (if char_signed then sint b else uint b)
              in if l \<ge> 128 then (uint (ucast (NOT (word_of_int l :: u64)) :: u8) + 1, insert NEGATIVE fs) else (l, fs)
         else (uint b, fs))"

definition read_int :: "SecEnv \<Rightarrow> SecFlag set \<Rightarrow> va_arg list \<Rightarrow> ((int \<times> SecFlag set) \<times> va_arg list) option" where
  "read_int env fs args =
     (if I64 \<in> fs \<or> LONGLONG \<in> fs \<or> LONG \<in> fs
      then (case args of VaLong w # rest \<Rightarrow> Some ((sint w, fs), rest) | _ \<Rightarrow> None)
      else case args of
             VaInt w # rest \<Rightarrow>
               Some (if FCHAR \<in> fs then read_char (se_char_signed env) fs w
                     else if SHORT \<in> fs then (if SIGNED \<in> fs then sint (ucast w :: u16) else uint (ucast w :: u16), fs)
                     else (if SIGNED \<in> fs then sint w else uint w, fs), rest)
           | _ \<Rightarrow> None)"

text \<open>The loop of \<open>SECUREC_SPECIAL\<close>: the digits of a number that is not 0.\<close>

function sec_digits :: "string \<Rightarrow> nat \<Rightarrow> nat \<Rightarrow> char list \<Rightarrow> char list" where
  "sec_digits digits base val acc =
     (let acc' = digits ! (val mod base) # acc
      in if base < 2 \<or> val div base = 0 then acc' else sec_digits digits base (val div base) acc')"
  by pat_completeness auto
termination by (relation "measure (\<lambda>(digits, base, val, acc). val)") (auto intro!: div_less_dividend gr0I)

declare sec_digits.simps [simp del]

definition itoaUpperDigits :: string where
  "itoaUpperDigits = ''0123456789ABCDEFX''"

definition itoaLowerDigits :: string where
  "itoaLowerDigits = ''0123456789abcdefx''"

text \<open>The number as text, with the flags and the precision; \<open>prefix\<close> is the prefix of hexadecimal numbers.\<close>

definition int_output :: "nat \<Rightarrow> string \<Rightarrow> char list \<Rightarrow> SecFormatAttr \<Rightarrow> SecFlag set \<Rightarrow> int \<Rightarrow> SecConv" where
  "int_output radix digits prefix attr fs l =
     (let neg = (SIGNED \<in> fs \<and> l < 0);
          fs1 = (if neg then insert NEGATIVE fs else fs);
          number64 = word_of_int (if neg then - l else l) :: u64;
          number = (if fs1 \<inter> {I64, PTRDIFF, SIZE, LONG, LONGLONG} = {} then number64 AND 0xffffffff else number64);
          prec = (if precision attr < 0 then 1 else min (precision attr) SECUREC_MAX_PRECISION);
          fs2 = (if precision attr \<ge> 0 \<and> POINTER \<notin> fs1 then fs1 - {LEADZERO} else fs1);
          s0 = (if number > 0 then sec_digits digits radix (unat number) [] else []);
          s1 = replicate (nat prec - length s0) (CHR ''0'') @ s0;
          s2 = (if FORCE_OCTAL \<in> fs2 \<and> (s1 = [] \<or> hd s1 \<noteq> CHR ''0'') then CHR ''0'' # s1 else s1)
      in Output (attr\<lparr>fa_flags := fs2, precision := prec\<rparr>) (if number = 0 then [] else prefix) (Narrow s2))"

text \<open>The label \<open>OUTPUT_INT\<close>.\<close>

definition OutputInt ::
  "SecEnv \<Rightarrow> bool \<Rightarrow> nat \<Rightarrow> string \<Rightarrow> char list \<Rightarrow> SecFormatAttr \<Rightarrow> va_arg list \<Rightarrow> (SecConv \<times> va_arg list) option" where
  "OutputInt env isPrivacy radix digits prefix attr args =
     (case read_int env (fa_flags attr) args of
        None \<Rightarrow> None
      | Some ((l, fs), rest) \<Rightarrow>
          if isPrivacy then Some (Private, rest)
          else if SIGNED \<in> fs \<and> l = -(2 ^ 63) then None
          else Some (int_output radix digits prefix attr fs l, rest))"

definition OutputHex ::
  "SecEnv \<Rightarrow> bool \<Rightarrow> string \<Rightarrow> SecFormatAttr \<Rightarrow> va_arg list \<Rightarrow> (SecConv \<times> va_arg list) option" where
  "OutputHex env isPrivacy digits attr args =
     OutputInt env isPrivacy 16 digits (if ALTERNATE \<in> fa_flags attr then [CHR ''0'', digits ! 16] else []) attr args"

definition add_flags :: "SecFlag set \<Rightarrow> SecFormatAttr \<Rightarrow> SecFormatAttr" where
  "add_flags fs attr = attr\<lparr>fa_flags := fs \<union> fa_flags attr\<rparr>"

definition default_wide :: "SecFormatAttr \<Rightarrow> SecFormatAttr" where
  "default_wide attr = (if fa_flags attr \<inter> {SHORT, LONG, WIDECHAR} = {} then add_flags {WIDECHAR} attr else attr)"

text \<open>The inner switch over the type character.\<close>

definition SecConvert ::
  "SecEnv \<Rightarrow> bool \<Rightarrow> char list \<Rightarrow> char \<Rightarrow> SecFormatAttr \<Rightarrow> va_arg list \<Rightarrow> (SecConv \<times> va_arg list) option" where
  "SecConvert env isPrivacy seen ch attr args =
     (if ch \<in> {CHR ''c'', CHR ''C''}
      then let attr' = (if ch = CHR ''C'' then default_wide attr else attr)
           in case args of
                VaInt w # rest \<Rightarrow> Some (if isPrivacy then Private else SecDecodeTypeC env attr' w, rest)
              | _ \<Rightarrow> None
      else if ch \<in> {CHR ''s'', CHR ''S''}
      then let attr' = (if ch = CHR ''S'' then default_wide attr else attr)
           in case args of
                VaStr p # rest \<Rightarrow> if isPrivacy then Some (Private, rest) else map_option (\<lambda>cv. (cv, rest)) (SecDecodeTypeS attr' (VaStr p))
              | VaWStr p # rest \<Rightarrow> if isPrivacy then Some (Private, rest) else map_option (\<lambda>cv. (cv, rest)) (SecDecodeTypeS attr' (VaWStr p))
              | _ \<Rightarrow> None
      else if ch \<in> set ''EFGefg'' then SecDecodeFloat env isPrivacy seen ch attr args
      else if ch = CHR ''p''
      then OutputHex env isPrivacy itoaUpperDigits (add_flags {POINTER, I64} (attr\<lparr>precision := 16\<rparr>)) args
      else if ch = CHR ''X'' then OutputHex env isPrivacy itoaUpperDigits attr args
      else if ch = CHR ''x'' then OutputHex env isPrivacy itoaLowerDigits attr args
      else if ch \<in> {CHR ''i'', CHR ''d''} then OutputInt env isPrivacy 10 itoaUpperDigits [] (add_flags {SIGNED} attr) args
      else if ch = CHR ''u'' then OutputInt env isPrivacy 10 itoaUpperDigits [] attr args
      else OutputInt env isPrivacy 8 itoaUpperDigits []
             (if ALTERNATE \<in> fa_flags attr then add_flags {FORCE_OCTAL} attr else attr) args)"

section \<open>Writing a conversion\<close>

definition sign_prefix :: "SecFlag set \<Rightarrow> char list \<Rightarrow> char list" where
  "sign_prefix fs prefix =
     (if SIGNED \<in> fs
      then if NEGATIVE \<in> fs then ''-'' else if SIGN \<in> fs then ''+'' else if SIGN_SPACE \<in> fs then '' '' else prefix
      else prefix)"

fun write_wide :: "SecEnv \<Rightarrow> u32 list \<Rightarrow> SecPrintfStream \<times> int \<Rightarrow> SecPrintfStream \<times> int" where
  "write_wide env [] x = x"
| "write_wide env (w # ws) (st, n) =
     (case se_wctomb env w of
        None \<Rightarrow> (st, -1)
      | Some bs \<Rightarrow> if bs = [] then (st, -1) else write_wide env ws (SecWriteString bs (st, n)))"

definition write_text :: "SecEnv \<Rightarrow> sec_text \<Rightarrow> SecPrintfStream \<times> int \<Rightarrow> SecPrintfStream \<times> int" where
  "write_text env t x =
     (case t of Narrow s \<Rightarrow> write_str s x | Wide ws \<Rightarrow> if ws = [] then write_str [] x else write_wide env ws x)"

definition write_output :: "SecEnv \<Rightarrow> SecFormatAttr \<Rightarrow> char list \<Rightarrow> sec_text \<Rightarrow> SecPrintfStream \<times> int \<Rightarrow> SecPrintfStream \<times> int" where
  "write_output env attr prefix0 t x =
     (let fs = fa_flags attr; prefix = sign_prefix fs prefix0;
          padding = fldWidth attr - int (text_len t) - int (length prefix);
          x1 = (if LEFT \<notin> fs \<and> LEADZERO \<notin> fs \<and> padding > 0 then write_pad (CHR '' '') (nat padding) x else x);
          x2 = (if prefix \<noteq> [] then write_str prefix x1 else x1);
          x3 = (if LEADZERO \<in> fs \<and> LEFT \<notin> fs \<and> padding > 0 then write_pad (CHR ''0'') (nat padding) x2 else x2);
          x4 = write_text env t x3
      in if snd x4 \<ge> 0 \<and> LEFT \<in> fs \<and> padding > 0 then write_pad (CHR '' '') (nat padding) x4 else x4)"

fun write_conv :: "SecEnv \<Rightarrow> SecConv \<Rightarrow> SecPrintfStream \<times> int \<Rightarrow> SecPrintfStream \<times> int" where
  "write_conv env Private x = SecWritePrivateStr x"
| "write_conv env NoOutput x = x"
| "write_conv env (Output attr prefix t) x = write_output env attr prefix t x"

section \<open>The state machine\<close>

record SecState =
  ss_attr :: SecFormatAttr
  ss_state :: SecFmtState
  ss_isPrivacy :: bool
  ss_out :: "SecPrintfStream \<times> int"
  ss_args :: "va_arg list"
  ss_seen :: "char list"

definition PUBLIC_FLAG :: string where
  "PUBLIC_FLAG = ''{public}''"

definition PRIVATE_FLAG :: string where
  "PRIVATE_FLAG = ''{private}''"

text \<open>
  A turn of the loop after the new state is known: undefined (\<open>None\<close>), a return with -1
  (\<open>Some None\<close>), or the next state and how many further characters of the format are consumed.
\<close>

type_synonym sec_turn = "(SecState \<times> nat) option option"

definition turn :: "SecState \<Rightarrow> nat \<Rightarrow> sec_turn" where
  [simp]: "turn m k = Some (Some (m, k))"

definition SecPercent :: "bool \<Rightarrow> char list \<Rightarrow> SecState \<Rightarrow> sec_turn" where
  "SecPercent priv fmt m =
     (let attr = (ss_attr m)\<lparr>fa_flags := {}, fldWidth := 0, precision := -1, bufferIsWide := False\<rparr>;
          (isPrivacy, k) =
            (if take 1 fmt = ''{''
             then if take (length PUBLIC_FLAG) fmt = PUBLIC_FLAG then (False, length PUBLIC_FLAG)
                  else if take (length PRIVATE_FLAG) fmt = PRIVATE_FLAG then (True, length PRIVATE_FLAG)
                  else (ss_isPrivacy m, 0)
             else (True, 0))
      in turn (m\<lparr>ss_attr := attr, ss_isPrivacy := priv \<and> isPrivacy\<rparr>) k)"

definition digit_of :: "char \<Rightarrow> int" where
  "digit_of c = int (of_char c) - 48"

definition SecWidth :: "SecFmtState \<Rightarrow> char \<Rightarrow> SecState \<Rightarrow> sec_turn" where
  "SecWidth laststate ch m =
     (let attr = ss_attr m
      in if ch = CHR ''*''
         then (case ss_args m of
                 VaInt w # rest \<Rightarrow>
                   if sint w = -(2 ^ 31) then None
                   else let attr1 = (if sint w < 0 then add_flags {LEFT} (attr\<lparr>fldWidth := - sint w\<rparr>) else attr\<lparr>fldWidth := sint w\<rparr>)
                        in turn (m\<lparr>ss_attr := attr1\<lparr>dynWidth := True\<rparr>, ss_args := rest\<rparr>) 0
               | _ \<Rightarrow> None)
         else let width = (if laststate \<noteq> STAT_WIDTH then 0 else fldWidth attr)
              in if width > SECUREC_INT_MAX_DIV_TEN then Some None
                 else turn (m\<lparr>ss_attr := attr\<lparr>fldWidth := 10 * width + digit_of ch, dynWidth := False\<rparr>\<rparr>) 0)"

definition SecPrecision :: "char \<Rightarrow> SecState \<Rightarrow> sec_turn" where
  "SecPrecision ch m =
     (let attr = ss_attr m
      in if ch = CHR ''*''
         then (case ss_args m of
                 VaInt w # rest \<Rightarrow>
                   turn (m\<lparr>ss_attr := attr\<lparr>precision := (if sint w < 0 then -1 else sint w), dynPrecision := True\<rparr>, ss_args := rest\<rparr>) 0
               | _ \<Rightarrow> None)
         else if precision attr > SECUREC_INT_MAX_DIV_TEN then Some None
         else turn (m\<lparr>ss_attr := attr\<lparr>precision := 10 * precision attr + digit_of ch, dynPrecision := False\<rparr>\<rparr>) 0)"

definition SecTurn :: "SecEnv \<Rightarrow> bool \<Rightarrow> SecFmtState \<Rightarrow> char \<Rightarrow> char list \<Rightarrow> SecState \<Rightarrow> sec_turn" where
  "SecTurn env priv laststate ch fmt m =
     (case ss_state m of
        STAT_NORMAL \<Rightarrow> turn (m\<lparr>ss_out := write_normal ch (ss_out m)\<rparr>) 0
      | STAT_PERCENT \<Rightarrow> SecPercent priv fmt m
      | STAT_FLAG \<Rightarrow> turn (m\<lparr>ss_attr := SecDecodeFlags ch (ss_attr m)\<rparr>) 0
      | STAT_WIDTH \<Rightarrow> SecWidth laststate ch m
      | STAT_DOT \<Rightarrow> turn (m\<lparr>ss_attr := (ss_attr m)\<lparr>precision := 0\<rparr>\<rparr>) 0
      | STAT_PRECIS \<Rightarrow> SecPrecision ch m
      | STAT_SIZE \<Rightarrow>
          (let (attr, k, ok) = SecDecodeSize ch (ss_attr m) fmt
           in if ok then turn (m\<lparr>ss_attr := attr\<rparr>) k
              else turn (m\<lparr>ss_attr := attr, ss_state := STAT_NORMAL, ss_out := write_normal ch (ss_out m)\<rparr>) 0)
      | STAT_TYPE \<Rightarrow>
          (case SecConvert env (ss_isPrivacy m) (ss_seen m) ch (ss_attr m) (ss_args m) of
             None \<Rightarrow> None
           | Some (cv, rest) \<Rightarrow>
               turn (m\<lparr>ss_attr := (case cv of Output attr p t \<Rightarrow> attr | _ \<Rightarrow> ss_attr m), ss_args := rest,
                       ss_out := write_conv env cv (ss_out m)\<rparr>) 0)
      | STAT_INVALID \<Rightarrow> Some None)"

text \<open>
  The loop and the return: the number of characters and the stream. A turn consumes the character
  and those that it skips.
\<close>

function SecLoop :: "SecEnv \<Rightarrow> bool \<Rightarrow> char list \<Rightarrow> SecState \<Rightarrow> (int \<times> SecPrintfStream) option" where
  "SecLoop env priv [] m =
     Some (if ss_state m \<in> {STAT_NORMAL, STAT_TYPE} then snd (ss_out m) else -1, fst (ss_out m))"
| "SecLoop env priv (ch # fmt) m =
     (if snd (ss_out m) < 0 then Some (if ss_state m \<in> {STAT_NORMAL, STAT_TYPE} then snd (ss_out m) else -1, fst (ss_out m))
      else case SecTurn env priv (ss_state m) ch fmt (m\<lparr>ss_state := DECODE_STATE ch (ss_state m), ss_seen := ch # ss_seen m\<rparr>) of
             None \<Rightarrow> None
           | Some None \<Rightarrow> Some (-1, fst (ss_out m))
           | Some (Some (m', k)) \<Rightarrow> SecLoop env priv (drop k fmt) (m'\<lparr>ss_seen := rev (take k fmt) @ ss_seen m'\<rparr>))"
  by pat_completeness auto
termination by (relation "measure (\<lambda>(env, priv, fmt, m). length fmt)") auto

declare SecLoop.simps [simp del]

definition SecState_new :: "SecPrintfStream \<Rightarrow> va_arg list \<Rightarrow> SecState" where
  "SecState_new st args =
     \<lparr>ss_attr = \<lparr>fa_flags = {}, fldWidth = 0, precision = 0, bufferIsWide = False, dynWidth = False, dynPrecision = False\<rparr>,
      ss_state = STAT_NORMAL, ss_isPrivacy = True, ss_out = (st, 0), ss_args = args, ss_seen = []\<rparr>"

definition SecOutputPS :: "SecEnv \<Rightarrow> SecPrintfStream \<Rightarrow> bool \<Rightarrow> string \<Rightarrow> va_arg list \<Rightarrow> (int \<times> SecPrintfStream) option" where
  "SecOutputPS env stream priv cformat arglist = SecLoop env priv cformat (SecState_new stream arglist)"

section \<open>The interface\<close>

text \<open>The return value and the destination afterwards.\<close>

definition SecVsnprintfPImpl :: "SecEnv \<Rightarrow> char list \<Rightarrow> nat \<Rightarrow> bool \<Rightarrow> string \<Rightarrow> va_arg list \<Rightarrow> (int \<times> char list) option" where
  "SecVsnprintfPImpl env dest count priv format arglist =
     (case SecOutputPS env \<lparr>ps_count = int count, ps_cur = []\<rparr> priv format arglist of
        None \<Rightarrow> None
      | Some (retVal, str) \<Rightarrow>
          let dest1 = overwrite dest (ps_cur str); count1 = (if retVal \<ge> 0 then ps_count str - 1 else ps_count str)
          in Some (if retVal \<ge> 0 \<and> count1 \<ge> 0 then (retVal, overwrite dest (ps_cur str @ [NUL]))
                   else if count1 < 0 then (SECUREC_PRINTF_TRUNCATE, dest1[count - 1 := NUL])
                   else (-1, dest1)))"

definition SECUREC_STRING_MAX_LEN :: size_t where
  [simp]: "SECUREC_STRING_MAX_LEN = 0x7fffffff"

text \<open>\<open>dest\<close> is the destination of \<open>destMax\<close> bytes; a null format is \<open>None\<close>.\<close>

definition vsnprintfp_s ::
  "SecEnv \<Rightarrow> char list \<Rightarrow> size_t \<Rightarrow> size_t \<Rightarrow> bool \<Rightarrow> string option \<Rightarrow> va_arg list \<Rightarrow> (int \<times> char list) option" where
  "vsnprintfp_s env dest destMax count priv format arglist =
     (case format of
        None \<Rightarrow> Some (-1, if destMax > 0 then dest[0 := NUL] else dest)
      | Some fmt \<Rightarrow>
          if destMax = 0 \<or> destMax > SECUREC_STRING_MAX_LEN \<or> (count > SECUREC_STRING_MAX_LEN - 1 \<and> count \<noteq> -1)
          then Some (-1, if destMax > 0 then dest[0 := NUL] else dest)
          else if destMax > count
          then (case SecVsnprintfPImpl env dest (unat (count + 1)) priv fmt arglist of
                  None \<Rightarrow> None
                | Some (ret, d) \<Rightarrow>
                    Some (if ret = SECUREC_PRINTF_TRUNCATE then (-1, d) else if ret < 0 then (-1, d[0 := NUL]) else (ret, d)))
          else (case SecVsnprintfPImpl env dest (unat destMax) priv fmt arglist of
                  None \<Rightarrow> None
                | Some (ret, d) \<Rightarrow> Some (if ret < 0 then (-1, d[0 := NUL]) else (ret, d))))"

end
