(* ===== verification/Format_Text.thy ===== *)
theory Format_Text
  imports Sec_Format
begin

text \<open>
  The parts of the formatting of log texts: a stream holds the text written to it, cut to its
  room; a conversion writes the field of its prefix and body; the table of the state machine as
  rules on the classes of characters.
\<close>

section \<open>The stream\<close>

text \<open>The stream with room for \<open>N\<close> characters after the text \<open>w0\<close> was written to it.\<close>

definition stream_at :: "nat \<Rightarrow> char list \<Rightarrow> SecPrintfStream \<times> int \<Rightarrow> bool" where
  "stream_at N w0 x \<longleftrightarrow> ps_cur (fst x) = take N w0 \<and>
     (if length w0 \<le> N then ps_count (fst x) = int N - int (length w0) \<and> snd x = int (length w0)
      else ps_count (fst x) < 0 \<and> snd x = -1)"

lemma stream_at_new: "stream_at N [] (\<lparr>ps_count = int N, ps_cur = []\<rparr>, 0)"
  by (simp add: stream_at_def)

lemma stream_at_neg: "stream_at N w0 x \<Longrightarrow> snd x < 0 \<longleftrightarrow> N < length w0"
  by (auto simp: stream_at_def split: if_splits)

lemma stream_at_full: "stream_at N w0 x \<Longrightarrow> N < length w0 \<Longrightarrow> stream_at N (w0 @ s) x"
  by (auto simp: stream_at_def)

lemma SecWriteString_at: "stream_at N w0 x \<Longrightarrow> stream_at N (w0 @ s) (SecWriteString s x)"
proof (induction s arbitrary: w0 x)
  case (Cons c s)
  obtain st n where x: "x = (st, n)" by fastforce
  show ?case
  proof (cases "ps_count st \<ge> 1")
    case True
    then have "stream_at N (w0 @ [c]) (st\<lparr>ps_count := ps_count st - 1, ps_cur := ps_cur st @ [c]\<rparr>, n + 1)"
      using Cons.prems by (auto simp: x stream_at_def split: if_splits)
    from Cons.IH [OF this] show ?thesis using True by (simp add: x)
  next
    case False
    then have "stream_at N (w0 @ c # s) (st\<lparr>ps_count := ps_count st - 1\<rparr>, -1)"
      using Cons.prems by (auto simp: x stream_at_def split: if_splits)
    then show ?thesis using False by (simp add: x)
  qed
qed simp

lemma SecWriteMultiChar_eq: "SecWriteMultiChar c n x = SecWriteString (replicate n c) x"
  by (induction n arbitrary: x) (auto simp: Let_def split: prod.splits)

text \<open>The unchecked copy is the checked one when there is room: the fast path changes nothing.\<close>

lemma SAFE_WRITE_eq: "REST_BUF_ENOUGH (length s) x \<Longrightarrow> SAFE_WRITE s x = SecWriteString s x"
proof (induction s arbitrary: x)
  case (Cons c s)
  obtain st n where x: "x = (st, n)" by fastforce
  have "REST_BUF_ENOUGH (length s) (st\<lparr>ps_count := ps_count st - 1, ps_cur := ps_cur st @ [c]\<rparr>, n + 1)"
    using Cons.prems by (simp add: x REST_BUF_ENOUGH_def)
  from Cons.IH [OF this] show ?case
    using Cons.prems by (simp add: x REST_BUF_ENOUGH_def SAFE_WRITE_def algebra_simps)
qed (auto simp: SAFE_WRITE_def split: prod.splits)

lemma write_str_eq: "write_str s x = SecWriteString s x"
  by (simp add: write_str_def SAFE_WRITE_eq)

lemma write_pad_eq: "write_pad c n x = SecWriteString (replicate n c) x"
  using SAFE_WRITE_eq [of "replicate n c" x] by (simp add: write_pad_def SecWriteMultiChar_eq)

lemma write_normal_at:
  assumes "stream_at N w0 x" "snd x \<ge> 0"
  shows "stream_at N (w0 @ [c]) (write_normal c x)"
  using assms SecWriteString_at [OF assms(1), of "[c]"] SAFE_WRITE_eq [of "[c]" x]
  by (cases x) (auto simp: write_normal_def REST_BUF_ENOUGH_def stream_at_def split: if_splits)

lemmas write_at = SecWriteString_at [folded write_str_eq] SecWriteString_at [of _ _ _ "replicate n c" for n c, folded write_pad_eq]

section \<open>The text of a conversion\<close>

fun wide_bytes :: "SecEnv \<Rightarrow> u32 list \<Rightarrow> char list option" where
  "wide_bytes env [] = Some []"
| "wide_bytes env (w # ws) =
     (case se_wctomb env w of None \<Rightarrow> None | Some bs \<Rightarrow> if bs = [] then None else map_option (\<lambda>s. bs @ s) (wide_bytes env ws))"

fun text_bytes :: "SecEnv \<Rightarrow> sec_text \<Rightarrow> char list option" where
  "text_bytes env (Narrow s) = Some s"
| "text_bytes env (Wide ws) = wide_bytes env ws"

text \<open>The field: the prefix and the body, filled up to the width on the left, behind the prefix, or on the right.\<close>

definition field_text :: "SecFlag set \<Rightarrow> int \<Rightarrow> char list \<Rightarrow> nat \<Rightarrow> char list \<Rightarrow> char list" where
  "field_text fs width prefix len body =
     (let pad = nat (width - int len - int (length prefix))
      in if LEFT \<in> fs then prefix @ body @ replicate pad (CHR '' '')
         else if LEADZERO \<in> fs then prefix @ replicate pad (CHR ''0'') @ body
         else replicate pad (CHR '' '') @ prefix @ body)"

fun conv_text :: "SecEnv \<Rightarrow> SecConv \<Rightarrow> char list option" where
  "conv_text env Private = Some PRIVACY_STRING"
| "conv_text env NoOutput = Some []"
| "conv_text env (Output attr prefix t) =
     map_option (field_text (fa_flags attr) (fldWidth attr) (sign_prefix (fa_flags attr) prefix) (text_len t)) (text_bytes env t)"

lemma write_wide_at:
  "stream_at N w0 x \<Longrightarrow> wide_bytes env ws = Some s \<Longrightarrow> stream_at N (w0 @ s) (write_wide env ws x)"
proof (induction ws arbitrary: w0 x s)
  case (Cons w ws)
  obtain st n where x: "x = (st, n)" by fastforce
  obtain bs s' where s: "se_wctomb env w = Some bs" "bs \<noteq> []" "wide_bytes env ws = Some s'" "s = bs @ s'"
    using Cons.prems(2) by (auto split: option.splits if_splits)
  from Cons.IH [OF SecWriteString_at [OF Cons.prems(1)] s(3)] show ?case using s by (simp add: x)
qed simp

lemma write_text_at:
  "stream_at N w0 x \<Longrightarrow> text_bytes env t = Some s \<Longrightarrow> stream_at N (w0 @ s) (write_text env t x)"
  using write_at(1) [of N w0 x "[]"] by (cases t) (auto simp: write_text_def write_at write_wide_at)

lemma write_output_at:
  assumes x: "stream_at N w0 x" and s: "text_bytes env t = Some s"
  shows "stream_at N (w0 @ field_text (fa_flags attr) (fldWidth attr) (sign_prefix (fa_flags attr) prefix) (text_len t) s)
    (write_output env attr prefix t x)"
proof -
  let ?fs = "fa_flags attr" and ?p = "sign_prefix (fa_flags attr) prefix"
  define pad where "pad = fldWidth attr - int (text_len t) - int (length ?p)"
  define l where "l = (if LEFT \<notin> ?fs \<and> LEADZERO \<notin> ?fs then replicate (nat pad) (CHR '' '') else [])"
  define z where "z = (if LEADZERO \<in> ?fs \<and> LEFT \<notin> ?fs then replicate (nat pad) (CHR ''0'') else [])"
  define x1 where "x1 = (if LEFT \<notin> ?fs \<and> LEADZERO \<notin> ?fs \<and> pad > 0 then write_pad (CHR '' '') (nat pad) x else x)"
  define x2 where "x2 = (if ?p \<noteq> [] then write_str ?p x1 else x1)"
  define x3 where "x3 = (if LEADZERO \<in> ?fs \<and> LEFT \<notin> ?fs \<and> pad > 0 then write_pad (CHR ''0'') (nat pad) x2 else x2)"
  have "stream_at N (w0 @ l) x1" using write_at(2) [OF x] x by (auto simp: x1_def l_def)
  then have "stream_at N ((w0 @ l) @ ?p) x2" using write_at(1) [of N "w0 @ l" x1 ?p] by (auto simp: x2_def)
  then have "stream_at N (((w0 @ l) @ ?p) @ z) x3"
    using write_at(2) [of N "(w0 @ l) @ ?p" x2 "nat pad" "CHR ''0''"] by (auto simp: x3_def z_def)
  then have x4: "stream_at N ((((w0 @ l) @ ?p) @ z) @ s) (write_text env t x3)" by (rule write_text_at [OF _ s])
  have w: "write_output env attr prefix t x =
      (if snd (write_text env t x3) \<ge> 0 \<and> LEFT \<in> ?fs \<and> pad > 0 then write_pad (CHR '' '') (nat pad) (write_text env t x3)
       else write_text env t x3)"
    by (simp add: write_output_def Let_def x1_def x2_def x3_def pad_def)
  show ?thesis
  proof (cases "LEFT \<in> ?fs \<and> pad > 0")
    case True
    then have "l = []" "z = []" by (simp_all add: l_def z_def)
    then have "stream_at N (w0 @ ?p @ s @ replicate (nat pad) (CHR '' '')) (write_output env attr prefix t x)"
      using write_at(2) [OF x4, of "nat pad" "CHR '' ''"] stream_at_neg [OF x4] stream_at_full [OF x4] True by (auto simp: w)
    then show ?thesis using True by (simp add: field_text_def pad_def)
  next
    case False
    then have "write_output env attr prefix t x = write_text env t x3" using w by auto
    then show ?thesis using x4 False by (auto simp: field_text_def Let_def l_def z_def pad_def)
  qed
qed

lemma write_conv_at:
  "stream_at N w0 x \<Longrightarrow> conv_text env cv = Some s \<Longrightarrow> stream_at N (w0 @ s) (write_conv env cv x)"
  by (cases cv) (auto simp: SecWritePrivateStr_def write_at write_output_at)

section \<open>The table\<close>

definition ctype :: "char \<Rightarrow> nat" where
  "ctype c = FMT_CHAR_TYPES ! of_char c"

definition next_state :: "nat \<Rightarrow> SecFmtState \<Rightarrow> SecFmtState" where
  "next_state t st = state_of (FMT_STATES ! (t * 9 + state_code st))"

lemma DECODE_next: "DECODE_STATE c st = next_state (ctype c) st"
proof -
  have "length FMT_CHAR_TYPES = 256" by (simp add: FMT_CHAR_TYPES_def)
  moreover have "of_char c < (256 :: nat)" by simp
  ultimately show ?thesis
    by (simp add: DECODE_STATE_def FMT_CHAR_TABLE_def next_state_def ctype_def nth_append add.commute)
qed

lemma ctype_all: "ctype c \<le> 8" "ctype c = 1 \<longleftrightarrow> c = CHR ''%''"
proof -
  have "list_all (\<lambda>n. FMT_CHAR_TYPES ! n \<le> 8 \<and> (FMT_CHAR_TYPES ! n = 1 \<longleftrightarrow> n = 37)) [0..<256]" by code_simp
  moreover have "of_char c < (256 :: nat)" by simp
  ultimately have "ctype c \<le> 8 \<and> (ctype c = 1 \<longleftrightarrow> of_char c = (37 :: nat))"
    unfolding list_all_iff ctype_def by (metis atLeastLessThan_iff le0 set_upt)
  moreover have "of_char c = (37 :: nat) \<longleftrightarrow> c = CHR ''%''"
    using of_char_eq_iff [where 'a = nat, of c "CHR ''%''"] by simp
  ultimately show "ctype c \<le> 8" "ctype c = 1 \<longleftrightarrow> c = CHR ''%''" by auto
qed


lemma next_states:
  "next_state 1 STAT_NORMAL = STAT_PERCENT" "next_state 1 STAT_TYPE = STAT_PERCENT" "next_state 1 STAT_PERCENT = STAT_NORMAL"
  "st \<in> {STAT_PERCENT, STAT_FLAG} \<Longrightarrow> t \<in> {4, 6} \<Longrightarrow> next_state t st = STAT_FLAG"
  "st \<in> {STAT_PERCENT, STAT_FLAG} \<Longrightarrow> t \<in> {3, 5} \<Longrightarrow> next_state t st = STAT_WIDTH"
  "t \<in> {4, 5} \<Longrightarrow> next_state t STAT_WIDTH = STAT_WIDTH"
  "st \<in> {STAT_PERCENT, STAT_FLAG, STAT_WIDTH} \<Longrightarrow> next_state 2 st = STAT_DOT"
  "t \<in> {3, 4, 5} \<Longrightarrow> next_state t STAT_DOT = STAT_PRECIS" "t \<in> {4, 5} \<Longrightarrow> next_state t STAT_PRECIS = STAT_PRECIS"
  "st \<notin> {STAT_NORMAL, STAT_TYPE, STAT_INVALID} \<Longrightarrow> next_state 7 st = STAT_SIZE"
  "st \<notin> {STAT_NORMAL, STAT_TYPE, STAT_INVALID} \<Longrightarrow> next_state 8 st = STAT_TYPE"
  by (code_simp | (elim insertE emptyE; simp; code_simp) | (cases st; simp; code_simp))+

lemma next_state_literal:
  assumes "st \<in> {STAT_NORMAL, STAT_TYPE}" "c \<noteq> CHR ''%''"
  shows "next_state (ctype c) st = STAT_NORMAL"
proof -
  have "list_all (\<lambda>t. t \<noteq> 1 \<longrightarrow> next_state t STAT_NORMAL = STAT_NORMAL \<and> next_state t STAT_TYPE = STAT_NORMAL) [0..<9]" by code_simp
  moreover have "ctype c \<in> set [0..<9]" "ctype c \<noteq> 1" using ctype_all [of c] assms(2) by auto
  ultimately show ?thesis using assms(1) by (auto simp: list_all_iff simp del: set_upt)
qed

lemma ctypes:
  "list_all (\<lambda>c. ctype c = 6) '' +-#''" "ctype (CHR ''0'') = 4" "list_all (\<lambda>c. ctype c = 5) ''123456789''"
  "ctype (CHR ''*'') = 3" "ctype (CHR ''.'') = 2" "list_all (\<lambda>c. ctype c = 7) ''hlLqtwjzZNI''"
  "list_all (\<lambda>c. ctype c = 8) ''cCsSeEfFgGpxXdiuo''"
  by code_simp+

end
