(* ===== verification/Format_Machine.thy ===== *)
theory Format_Machine
  imports Format_Text
begin

text \<open>
  A format is given by its parts, literal characters and conversions. The runs of the state
  machine over each part of a conversion: visibility, flags, width, precision, size.
\<close>

section \<open>Formats by their parts\<close>

datatype vis = VisDefault | VisPublic | VisPrivate

datatype field = Absent | Digits string | Star

record conv_spec =
  sp_vis :: vis
  sp_flags :: string
  sp_width :: field
  sp_prec :: field
  sp_size :: string
  sp_type :: char

datatype fmt_item = Lit char | Conv conv_spec

fun vis_str :: "vis \<Rightarrow> string" where
  "vis_str VisDefault = []"
| "vis_str VisPublic = PUBLIC_FLAG"
| "vis_str VisPrivate = PRIVATE_FLAG"

fun width_str :: "field \<Rightarrow> string" where
  "width_str Absent = []"
| "width_str (Digits ds) = ds"
| "width_str Star = ''*''"

fun prec_str :: "field \<Rightarrow> string" where
  "prec_str Absent = []"
| "prec_str (Digits ds) = CHR ''.'' # ds"
| "prec_str Star = ''.*''"

definition spec_tail :: "conv_spec \<Rightarrow> string" where
  "spec_tail sp = sp_flags sp @ width_str (sp_width sp) @ prec_str (sp_prec sp) @ sp_size sp @ [sp_type sp]"

definition spec_str :: "conv_spec \<Rightarrow> string" where
  "spec_str sp = ''%'' @ vis_str (sp_vis sp) @ spec_tail sp"

fun item_str :: "fmt_item \<Rightarrow> string" where
  "item_str (Lit c) = (if c = CHR ''%'' then ''%%'' else [c])"
| "item_str (Conv sp) = spec_str sp"

definition items_str :: "fmt_item list \<Rightarrow> string" where
  "items_str its = concat (map item_str its)"

definition digits :: string where
  "digits = ''0123456789''"

definition dec :: "string \<Rightarrow> int" where
  "dec ds = fold (\<lambda>c v. 10 * v + digit_of c) ds 0"

definition sizes :: "(string \<times> SecFlag set) list" where
  "sizes = [([], {}), (''h'', {SHORT}), (''hh'', {FCHAR, SHORT}), (''l'', {LONG}), (''ll'', {LONGLONG}), (''L'', {LONGLONG, LONG_DOUBLE}),
     (''q'', {LONGLONG, LONG_DOUBLE}), (''t'', {PTRDIFF}), (''w'', {WIDECHAR}), (''j'', {}), (''z'', {}), (''Z'', {}), (''N'', {}),
     (''I64'', {I64})]"

fun width_ok :: "field \<Rightarrow> bool" where
  "width_ok (Digits ds) = (ds \<noteq> [] \<and> hd ds \<noteq> CHR ''0'' \<and> set ds \<subseteq> set digits \<and> dec ds \<le> 10 * SECUREC_INT_MAX_DIV_TEN + 9)"
| "width_ok _ = True"

fun prec_ok :: "field \<Rightarrow> bool" where
  "prec_ok (Digits ds) = (set ds \<subseteq> set digits \<and> dec ds \<le> 10 * SECUREC_INT_MAX_DIV_TEN + 9)"
| "prec_ok _ = True"

definition spec_ok :: "conv_spec \<Rightarrow> bool" where
  "spec_ok sp \<longleftrightarrow> set (sp_flags sp) \<subseteq> set '' +-0#'' \<and> width_ok (sp_width sp) \<and> prec_ok (sp_prec sp) \<and>
     sp_size sp \<in> fst ` set sizes \<and> sp_type sp \<in> set ''cCsSeEfFgGpxXdiuo''"

fun item_ok :: "fmt_item \<Rightarrow> bool" where
  "item_ok (Lit c) = (c \<noteq> NUL)"
| "item_ok (Conv sp) = spec_ok sp"

section \<open>The specified conversion\<close>

fun width_attr :: "field \<Rightarrow> SecFormatAttr \<Rightarrow> va_arg list \<Rightarrow> (SecFormatAttr \<times> va_arg list) option" where
  "width_attr Absent attr args = Some (attr, args)"
| "width_attr (Digits ds) attr args = Some (attr\<lparr>fldWidth := dec ds, dynWidth := False\<rparr>, args)"
| "width_attr Star attr (VaInt w # args) =
     (if sint w = -(2 ^ 31) then None
      else Some ((if sint w < 0 then add_flags {LEFT} (attr\<lparr>fldWidth := - sint w\<rparr>) else attr\<lparr>fldWidth := sint w\<rparr>)\<lparr>dynWidth := True\<rparr>, args))"
| "width_attr Star attr args = None"

fun prec_attr :: "field \<Rightarrow> SecFormatAttr \<Rightarrow> va_arg list \<Rightarrow> (SecFormatAttr \<times> va_arg list) option" where
  "prec_attr Absent attr args = Some (attr, args)"
| "prec_attr (Digits ds) attr args =
     Some (attr\<lparr>precision := dec ds, dynPrecision := (if ds = [] then dynPrecision attr else False)\<rparr>, args)"
| "prec_attr Star attr (VaInt w # args) = Some (attr\<lparr>precision := (if sint w < 0 then -1 else sint w), dynPrecision := True\<rparr>, args)"
| "prec_attr Star attr args = None"

text \<open>Two flags of the attributes survive from one conversion to the next.\<close>

type_synonym dyn = "bool \<times> bool"

definition fresh_attr :: "dyn \<Rightarrow> SecFormatAttr" where
  "fresh_attr d = \<lparr>fa_flags = {}, fldWidth = 0, precision = -1, bufferIsWide = False, dynWidth = fst d, dynPrecision = snd d\<rparr>"

definition dyn_of :: "SecFormatAttr \<Rightarrow> dyn" where
  "dyn_of attr = (dynWidth attr, dynPrecision attr)"

definition spec_attr :: "conv_spec \<Rightarrow> dyn \<Rightarrow> va_arg list \<Rightarrow> (SecFormatAttr \<times> va_arg list) option" where
  "spec_attr sp d args =
     Option.bind (width_attr (sp_width sp) (fold SecDecodeFlags (sp_flags sp) (fresh_attr d)) args)
       (\<lambda>(a1, r1). map_option (\<lambda>(a2, r2). (add_flags (the (map_of sizes (sp_size sp))) a2, r2)) (prec_attr (sp_prec sp) a1 r1))"

definition spec_conv :: "SecEnv \<Rightarrow> bool \<Rightarrow> conv_spec \<Rightarrow> dyn \<Rightarrow> va_arg list \<Rightarrow> (SecConv \<times> dyn \<times> va_arg list) option" where
  "spec_conv env priv sp d args =
     Option.bind (spec_attr sp d args)
       (\<lambda>(attr, r1). map_option (\<lambda>(cv, r2). (cv, dyn_of attr, r2))
          (SecConvert env (priv \<and> sp_vis sp \<noteq> VisPublic) (rev (spec_tail sp)) (sp_type sp) attr r1))"

fun items_text :: "SecEnv \<Rightarrow> bool \<Rightarrow> fmt_item list \<Rightarrow> dyn \<Rightarrow> va_arg list \<Rightarrow> char list option" where
  "items_text env priv [] d args = Some []"
| "items_text env priv (Lit c # its) d args = map_option (\<lambda>s. c # s) (items_text env priv its d args)"
| "items_text env priv (Conv sp # its) d args =
     (case spec_conv env priv sp d args of
        None \<Rightarrow> None
      | Some (cv, d', rest) \<Rightarrow>
          Option.bind (conv_text env cv) (\<lambda>s. map_option (\<lambda>s'. s @ s') (items_text env priv its d' rest)))"

section \<open>Runs of the state machine\<close>

lemma loop_turn:
  assumes "snd (ss_out m) \<ge> 0" "DECODE_STATE ch (ss_state m) = st"
    and "SecTurn env priv (ss_state m) ch fmt (m\<lparr>ss_state := st, ss_seen := ch # ss_seen m\<rparr>) = Some (Some (m', k))"
  shows "SecLoop env priv (ch # fmt) m = SecLoop env priv (drop k fmt) (m'\<lparr>ss_seen := rev (take k fmt) @ ss_seen m'\<rparr>)"
  using assms by (simp add: SecLoop.simps)

lemma loop_step:
  assumes "snd (ss_out m) \<ge> 0" "DECODE_STATE ch (ss_state m) = st"
    and "SecTurn env priv (ss_state m) ch fmt (m\<lparr>ss_state := st, ss_seen := ch # ss_seen m\<rparr>) = Some (Some (m', 0))"
  shows "SecLoop env priv (ch # fmt) m = SecLoop env priv fmt m'"
  using loop_turn [OF assms] by simp

lemma loop_undefined:
  assumes "snd (ss_out m) \<ge> 0" "DECODE_STATE ch (ss_state m) = st"
    and "SecTurn env priv (ss_state m) ch fmt (m\<lparr>ss_state := st, ss_seen := ch # ss_seen m\<rparr>) = None"
  shows "SecLoop env priv (ch # fmt) m = None"
  using assms by (simp add: SecLoop.simps)

lemma percent_states:
  "st \<in> {STAT_NORMAL, STAT_TYPE} \<Longrightarrow> DECODE_STATE (CHR ''%'') st = STAT_PERCENT"
  "DECODE_STATE (CHR ''%'') STAT_PERCENT = STAT_NORMAL"
  using ctype_all(2) [of "CHR ''%''"] next_states(1-3) by (auto simp: DECODE_next simp del: One_nat_def)

definition reset_attr :: "SecFormatAttr \<Rightarrow> SecFormatAttr" where
  "reset_attr attr = attr\<lparr>fa_flags := {}, fldWidth := 0, precision := -1, bufferIsWide := False\<rparr>"

lemma reset_fresh: "reset_attr attr = fresh_attr (dyn_of attr)"
  by (simp add: reset_attr_def fresh_attr_def dyn_of_def)

lemma flag_strings: "PUBLIC_FLAG = ''{public}''" "PRIVATE_FLAG = ''{private}''"
  by (simp_all add: PUBLIC_FLAG_def PRIVATE_FLAG_def)

lemma loop_percent:
  assumes "snd (ss_out m) \<ge> 0" "ss_state m \<in> {STAT_NORMAL, STAT_TYPE}" "v = VisDefault \<Longrightarrow> take 1 fmt \<noteq> ''{''"
  shows "SecLoop env priv (CHR ''%'' # vis_str v @ fmt) m =
    SecLoop env priv fmt (m\<lparr>ss_state := STAT_PERCENT, ss_attr := reset_attr (ss_attr m), ss_isPrivacy := priv \<and> v \<noteq> VisPublic,
      ss_seen := rev (CHR ''%'' # vis_str v) @ ss_seen m\<rparr>)"
proof -
  let ?m = "m\<lparr>ss_state := STAT_PERCENT, ss_seen := CHR ''%'' # ss_seen m\<rparr>"
  have "SecTurn env priv (ss_state m) (CHR ''%'') (vis_str v @ fmt) ?m =
      turn (?m\<lparr>ss_attr := reset_attr (ss_attr m), ss_isPrivacy := priv \<and> v \<noteq> VisPublic\<rparr>) (length (vis_str v))"
    using assms(3) by (cases v) (auto simp: SecTurn_def SecPercent_def reset_attr_def flag_strings)
  then show ?thesis
    using loop_turn [OF assms(1) percent_states(1) [OF assms(2)]] by (cases m) simp
qed

lemma loop_literal:
  assumes "snd (ss_out m) \<ge> 0" "ss_state m \<in> {STAT_NORMAL, STAT_TYPE}" "c \<noteq> CHR ''%''"
  shows "SecLoop env priv (c # fmt) m =
    SecLoop env priv fmt (m\<lparr>ss_state := STAT_NORMAL, ss_out := write_normal c (ss_out m), ss_seen := c # ss_seen m\<rparr>)"
  by (rule loop_step [OF assms(1), where st = STAT_NORMAL])
    (use assms(2,3) in \<open>simp_all add: DECODE_next next_state_literal SecTurn_def\<close>)

lemma loop_percent_percent:
  assumes "snd (ss_out m) \<ge> 0" "ss_state m = STAT_PERCENT"
  shows "SecLoop env priv (CHR ''%'' # fmt) m =
    SecLoop env priv fmt (m\<lparr>ss_state := STAT_NORMAL, ss_out := write_normal (CHR ''%'') (ss_out m), ss_seen := CHR ''%'' # ss_seen m\<rparr>)"
  by (rule loop_step [OF assms(1), where st = STAT_NORMAL]) (use assms(2) in \<open>simp_all add: percent_states SecTurn_def\<close>)

lemma loop_flags:
  assumes "snd (ss_out m) \<ge> 0" "ss_state m \<in> {STAT_PERCENT, STAT_FLAG}" "set fl \<subseteq> set '' +-0#''"
  shows "\<exists>st \<in> {STAT_PERCENT, STAT_FLAG}. SecLoop env priv (fl @ fmt) m =
    SecLoop env priv fmt (m\<lparr>ss_state := st, ss_attr := fold SecDecodeFlags fl (ss_attr m), ss_seen := rev fl @ ss_seen m\<rparr>)"
  using assms
proof (induction fl arbitrary: m)
  case Nil
  then show ?case by (intro bexI [of _ "ss_state m"]) auto
next
  case (Cons c fl)
  let ?m = "m\<lparr>ss_state := STAT_FLAG, ss_attr := SecDecodeFlags c (ss_attr m), ss_seen := c # ss_seen m\<rparr>"
  have "ctype c \<in> {4, 6}" using Cons.prems(3) ctypes(1,2) by auto
  then have st: "DECODE_STATE c (ss_state m) = STAT_FLAG"
    using Cons.prems(2) by (simp add: DECODE_next next_states del: insert_iff)
  have "SecLoop env priv (c # fl @ fmt) m = SecLoop env priv (fl @ fmt) ?m"
    by (rule loop_step [OF Cons.prems(1) st]) (simp add: SecTurn_def)
  moreover have "\<exists>st \<in> {STAT_PERCENT, STAT_FLAG}. SecLoop env priv (fl @ fmt) ?m =
    SecLoop env priv fmt (?m\<lparr>ss_state := st, ss_attr := fold SecDecodeFlags fl (ss_attr ?m), ss_seen := rev fl @ ss_seen ?m\<rparr>)"
    using Cons.prems by (intro Cons.IH) auto
  ultimately show ?case by auto
qed

lemma digit_class: "set ds \<subseteq> set digits \<Longrightarrow> c \<in> set ds \<Longrightarrow> ctype c \<in> {4, 5}"
  "c \<in> set digits \<Longrightarrow> 0 \<le> digit_of c \<and> digit_of c \<le> 9" "c \<in> set digits \<Longrightarrow> c \<noteq> CHR ''*''"
  using ctypes(2,3) by (auto simp: digits_def digit_of_def)

lemma fold_dec:
  assumes "set ds \<subseteq> set digits" "0 \<le> v"
  shows "v \<le> fold (\<lambda>c v. 10 * v + digit_of c) ds v"
  using assms
proof (induction ds arbitrary: v)
  case (Cons c ds)
  have d: "0 \<le> digit_of c" using Cons.prems digit_class(2) by simp
  then have "10 * v + digit_of c \<le> fold (\<lambda>c v. 10 * v + digit_of c) ds (10 * v + digit_of c)"
    using Cons.prems by (intro Cons.IH) auto
  then show ?case using d Cons.prems(2) by simp
qed simp

lemma loop_width_digits:
  assumes "snd (ss_out m) \<ge> 0" "ss_state m = STAT_WIDTH" "set ds \<subseteq> set digits" "0 \<le> fldWidth (ss_attr m)"
    and "fold (\<lambda>c v. 10 * v + digit_of c) ds (fldWidth (ss_attr m)) \<le> 10 * SECUREC_INT_MAX_DIV_TEN + 9" "\<not> dynWidth (ss_attr m)"
  shows "SecLoop env priv (ds @ fmt) m = SecLoop env priv fmt
    (m\<lparr>ss_attr := (ss_attr m)\<lparr>fldWidth := fold (\<lambda>c v. 10 * v + digit_of c) ds (fldWidth (ss_attr m))\<rparr>, ss_seen := rev ds @ ss_seen m\<rparr>)"
  using assms
proof (induction ds arbitrary: m)
  case (Cons c ds)
  let ?v = "10 * fldWidth (ss_attr m) + digit_of c"
  let ?m = "m\<lparr>ss_attr := (ss_attr m)\<lparr>fldWidth := ?v\<rparr>, ss_seen := c # ss_seen m\<rparr>"
  have c: "ctype c \<in> {4, 5}" "0 \<le> digit_of c" "c \<noteq> CHR ''*''" using digit_class Cons.prems(3) by auto
  then have st: "DECODE_STATE c (ss_state m) = STAT_WIDTH" using Cons.prems(2) by (simp add: DECODE_next next_states del: insert_iff)
  have "?v \<le> fold (\<lambda>c v. 10 * v + digit_of c) ds ?v" using Cons.prems(3,4) c(2) by (intro fold_dec) auto
  then have "\<not> fldWidth (ss_attr m) > SECUREC_INT_MAX_DIV_TEN" using Cons.prems(5) c(2) by simp
  then have "SecLoop env priv (c # ds @ fmt) m = SecLoop env priv (ds @ fmt) ?m"
    using Cons.prems(2,6) c(3) by (intro loop_step [OF Cons.prems(1) st]) (cases m; cases "ss_attr m"; simp add: SecTurn_def SecWidth_def)
  moreover have "SecLoop env priv (ds @ fmt) ?m = SecLoop env priv fmt
    (?m\<lparr>ss_attr := (ss_attr ?m)\<lparr>fldWidth := fold (\<lambda>c v. 10 * v + digit_of c) ds (fldWidth (ss_attr ?m))\<rparr>, ss_seen := rev ds @ ss_seen ?m\<rparr>)"
    using Cons.prems c(2) by (intro Cons.IH) auto
  ultimately show ?case by simp
qed simp

lemma loop_prec_digits:
  assumes "snd (ss_out m) \<ge> 0" "ss_state m \<in> {STAT_DOT, STAT_PRECIS}" "set ds \<subseteq> set digits" "0 \<le> precision (ss_attr m)"
    and "fold (\<lambda>c v. 10 * v + digit_of c) ds (precision (ss_attr m)) \<le> 10 * SECUREC_INT_MAX_DIV_TEN + 9"
  shows "\<exists>st \<in> {STAT_DOT, STAT_PRECIS}. SecLoop env priv (ds @ fmt) m = SecLoop env priv fmt
    (m\<lparr>ss_state := st, ss_attr := (ss_attr m)\<lparr>precision := fold (\<lambda>c v. 10 * v + digit_of c) ds (precision (ss_attr m)),
       dynPrecision := (if ds = [] then dynPrecision (ss_attr m) else False)\<rparr>, ss_seen := rev ds @ ss_seen m\<rparr>)"
  using assms
proof (induction ds arbitrary: m)
  case Nil
  then show ?case by (intro bexI [of _ "ss_state m"]) auto
next
  case (Cons c ds)
  let ?v = "10 * precision (ss_attr m) + digit_of c"
  let ?m = "m\<lparr>ss_state := STAT_PRECIS, ss_attr := (ss_attr m)\<lparr>precision := ?v, dynPrecision := False\<rparr>, ss_seen := c # ss_seen m\<rparr>"
  have c: "ctype c \<in> {4, 5}" "0 \<le> digit_of c" "c \<noteq> CHR ''*''" using digit_class Cons.prems(3) by auto
  then have st: "DECODE_STATE c (ss_state m) = STAT_PRECIS" using Cons.prems(2) by (auto simp: DECODE_next next_states)
  have "?v \<le> fold (\<lambda>c v. 10 * v + digit_of c) ds ?v" using Cons.prems(3,4) c(2) by (intro fold_dec) auto
  then have "\<not> precision (ss_attr m) > SECUREC_INT_MAX_DIV_TEN" using Cons.prems(5) c(2) by simp
  then have "SecLoop env priv (c # ds @ fmt) m = SecLoop env priv (ds @ fmt) ?m"
    using c(3) by (intro loop_step [OF Cons.prems(1) st]) (cases m; simp add: SecTurn_def SecPrecision_def)
  moreover have "\<exists>st \<in> {STAT_DOT, STAT_PRECIS}. SecLoop env priv (ds @ fmt) ?m = SecLoop env priv fmt
    (?m\<lparr>ss_state := st, ss_attr := (ss_attr ?m)\<lparr>precision := fold (\<lambda>c v. 10 * v + digit_of c) ds (precision (ss_attr ?m)),
       dynPrecision := (if ds = [] then dynPrecision (ss_attr ?m) else False)\<rparr>, ss_seen := rev ds @ ss_seen ?m\<rparr>)"
    using Cons.prems c(2) by (intro Cons.IH) auto
  ultimately show ?case by auto
qed

lemma loop_width:
  assumes "snd (ss_out m) \<ge> 0" "ss_state m \<in> {STAT_PERCENT, STAT_FLAG}" "width_ok w"
  shows "\<exists>st \<in> {STAT_PERCENT, STAT_FLAG, STAT_WIDTH}. SecLoop env priv (width_str w @ fmt) m =
    (case width_attr w (ss_attr m) (ss_args m) of
       None \<Rightarrow> None
     | Some (a, r) \<Rightarrow> SecLoop env priv fmt (m\<lparr>ss_state := st, ss_attr := a, ss_args := r, ss_seen := rev (width_str w) @ ss_seen m\<rparr>))"
proof (cases w)
  case Absent
  then show ?thesis using assms(2) by (intro bexI [of _ "ss_state m"]) auto
next
  case (Digits ds)
  then obtain c ds' where ds: "ds = c # ds'" "c \<noteq> CHR ''0''" "c \<in> set digits" "set ds' \<subseteq> set digits"
      "dec ds \<le> 10 * SECUREC_INT_MAX_DIV_TEN + 9"
    using assms(3) by (cases ds) auto
  have c: "ctype c = 5" "c \<noteq> CHR ''*''" "0 \<le> digit_of c" using ds(2,3) ctypes(3) digit_class(2,3) by (auto simp: digits_def)
  then have st: "DECODE_STATE c (ss_state m) = STAT_WIDTH" using assms(2) by (auto simp: DECODE_next next_states)
  let ?m = "m\<lparr>ss_state := STAT_WIDTH, ss_attr := (ss_attr m)\<lparr>fldWidth := digit_of c, dynWidth := False\<rparr>, ss_seen := c # ss_seen m\<rparr>"
  have "SecLoop env priv (c # ds' @ fmt) m = SecLoop env priv (ds' @ fmt) ?m"
    using c(2) assms(2) by (intro loop_step [OF assms(1) st]) (auto simp: SecTurn_def SecWidth_def)
  also have "\<dots> = SecLoop env priv fmt (?m\<lparr>ss_attr := (ss_attr ?m)\<lparr>fldWidth := fold (\<lambda>c v. 10 * v + digit_of c) ds' (fldWidth (ss_attr ?m))\<rparr>,
      ss_seen := rev ds' @ ss_seen ?m\<rparr>)"
    using assms(1) ds c(3) by (intro loop_width_digits) (auto simp: dec_def)
  finally show ?thesis
    by (intro bexI [of _ STAT_WIDTH]) (cases m; cases "ss_attr m"; simp add: Digits ds(1) dec_def)+
next
  case Star
  have st: "DECODE_STATE (CHR ''*'') (ss_state m) = STAT_WIDTH" using assms(2) ctypes(4) by (auto simp: DECODE_next next_states)
  show ?thesis
  proof (cases "\<exists>x r. ss_args m = VaInt x # r \<and> sint x \<noteq> -(2 ^ 31)")
    case True
    then obtain x r where x: "ss_args m = VaInt x # r" "sint x \<noteq> -(2 ^ 31)" by blast
    obtain a where a: "width_attr w (ss_attr m) (ss_args m) = Some (a, r)" using x Star by simp
    have "SecLoop env priv (CHR ''*'' # fmt) m =
        SecLoop env priv fmt (m\<lparr>ss_state := STAT_WIDTH, ss_attr := a, ss_args := r, ss_seen := CHR ''*'' # ss_seen m\<rparr>)"
      using a x by (intro loop_step [OF assms(1) st]) (cases m; auto simp: Star SecTurn_def SecWidth_def Let_def)
    then show ?thesis using a Star by (intro bexI [of _ STAT_WIDTH]) auto
  next
    case False
    then have "width_attr w (ss_attr m) (ss_args m) = None \<and> SecLoop env priv (CHR ''*'' # fmt) m = None"
      by (intro conjI loop_undefined [OF assms(1) st])
        (cases "ss_args m"; simp add: Star SecTurn_def SecWidth_def; cases "hd (ss_args m)"; simp add: Star SecTurn_def SecWidth_def)+
    then show ?thesis using Star by (intro bexI [of _ STAT_WIDTH]) auto
  qed
qed

lemma loop_prec:
  assumes "snd (ss_out m) \<ge> 0" "ss_state m \<in> {STAT_PERCENT, STAT_FLAG, STAT_WIDTH}" "prec_ok w"
  shows "\<exists>st \<in> {STAT_PERCENT, STAT_FLAG, STAT_WIDTH, STAT_DOT, STAT_PRECIS}. SecLoop env priv (prec_str w @ fmt) m =
    (case prec_attr w (ss_attr m) (ss_args m) of
       None \<Rightarrow> None
     | Some (a, r) \<Rightarrow> SecLoop env priv fmt (m\<lparr>ss_state := st, ss_attr := a, ss_args := r, ss_seen := rev (prec_str w) @ ss_seen m\<rparr>))"
proof -
  let ?m = "m\<lparr>ss_state := STAT_DOT, ss_attr := (ss_attr m)\<lparr>precision := 0\<rparr>, ss_seen := CHR ''.'' # ss_seen m\<rparr>"
  have "DECODE_STATE (CHR ''.'') (ss_state m) = STAT_DOT" using assms(2) ctypes(5) by (auto simp: DECODE_next next_states)
  then have dot: "SecLoop env priv (CHR ''.'' # fmt') m = SecLoop env priv fmt' ?m" for fmt'
    by (rule loop_step [OF assms(1)]) (simp add: SecTurn_def)
  have out: "snd (ss_out ?m) \<ge> 0" using assms(1) by simp
  show ?thesis
  proof (cases w)
    case Absent
    then show ?thesis using assms(2) by (intro bexI [of _ "ss_state m"]) auto
  next
    case (Digits ds)
    then have "\<exists>st \<in> {STAT_DOT, STAT_PRECIS}. SecLoop env priv (ds @ fmt) ?m = SecLoop env priv fmt
      (?m\<lparr>ss_state := st, ss_attr := (ss_attr ?m)\<lparr>precision := fold (\<lambda>c v. 10 * v + digit_of c) ds (precision (ss_attr ?m)),
         dynPrecision := (if ds = [] then dynPrecision (ss_attr ?m) else False)\<rparr>, ss_seen := rev ds @ ss_seen ?m\<rparr>)"
      using assms(1,3) by (intro loop_prec_digits) (auto simp: dec_def)
    then show ?thesis using Digits dot by (auto simp: dec_def)
  next
    case Star
    have st: "DECODE_STATE (CHR ''*'') (ss_state ?m) = STAT_PRECIS" using ctypes(4) by (simp add: DECODE_next next_states)
    show ?thesis
    proof (cases "\<exists>x r. ss_args m = VaInt x # r")
      case True
      then obtain x r where x: "ss_args m = VaInt x # r" by blast
      obtain a where a: "prec_attr w (ss_attr m) (ss_args m) = Some (a, r)" using x Star by simp
      have "SecLoop env priv (CHR ''*'' # fmt) ?m =
          SecLoop env priv fmt (m\<lparr>ss_state := STAT_PRECIS, ss_attr := a, ss_args := r, ss_seen := rev ''.*'' @ ss_seen m\<rparr>)"
        using a x by (intro loop_step [OF out st]) (cases m; auto simp: Star SecTurn_def SecPrecision_def Let_def)
      then show ?thesis using a Star dot by (intro bexI [of _ STAT_PRECIS]) auto
    next
      case False
      then have "prec_attr w (ss_attr m) (ss_args m) = None \<and> SecLoop env priv (CHR ''*'' # fmt) ?m = None"
        by (intro conjI loop_undefined [OF out st])
          (cases "ss_args m"; simp add: Star SecTurn_def SecPrecision_def; cases "hd (ss_args m)"; simp add: Star SecTurn_def SecPrecision_def)+
      then show ?thesis using Star dot by (intro bexI [of _ STAT_PRECIS]) auto
    qed
  qed
qed

definition inside :: "SecFmtState \<Rightarrow> bool" where
  "inside st \<longleftrightarrow> st \<notin> {STAT_NORMAL, STAT_TYPE, STAT_INVALID}"

lemma loop_size_turn:
  assumes "snd (ss_out m) \<ge> 0" "inside (ss_state m)" "c \<in> set ''hlLqtwjzZNI''" "SecDecodeSize c (ss_attr m) fmt = (a, k, True)"
  shows "SecLoop env priv (c # fmt) m =
    SecLoop env priv (drop k fmt) (m\<lparr>ss_state := STAT_SIZE, ss_attr := a, ss_seen := rev (take k fmt) @ c # ss_seen m\<rparr>)"
proof -
  have "ctype c = 7" using ctypes(6) assms(3) by (auto simp only: list_all_iff)
  then have "DECODE_STATE c (ss_state m) = STAT_SIZE" using assms(2) by (simp add: DECODE_next next_states inside_def)
  from loop_turn [OF assms(1) this, of env priv fmt] show ?thesis
    using assms(4) by (cases m) (simp add: SecTurn_def)
qed

lemma size_list: "sz \<in> fst ` set sizes \<longleftrightarrow> sz \<in> {[], ''h'', ''hh'', ''l'', ''ll'', ''L'', ''q'', ''t'', ''w'', ''j'', ''z'', ''Z'', ''N'', ''I64''}"
  by (simp add: sizes_def)

lemma size_cases:
  assumes "sz \<in> fst ` set sizes"
  shows "sz = [] \<or> sz = ''hh'' \<or> sz = ''I64'' \<or> (\<exists>c. sz = [c] \<and> c \<in> set ''hlLqtwjzZN'') \<or> sz = ''ll''"
  using assms unfolding size_list by (elim insertE emptyE) simp_all

lemma add_flags_simps [simp]: "add_flags {} a = a" "add_flags A (add_flags B a) = add_flags (A \<union> B) a" "fa_flags (add_flags A a) = A \<union> fa_flags a"
  "fldWidth (add_flags A a) = fldWidth a" "precision (add_flags A a) = precision a" "dynWidth (add_flags A a) = dynWidth a"
  "dynPrecision (add_flags A a) = dynPrecision a"
  by (simp_all add: add_flags_def Un_assoc)

lemma loop_size:
  assumes "snd (ss_out m) \<ge> 0" "inside (ss_state m)" "sz \<in> fst ` set sizes" "t \<in> set ''cCsSeEfFgGpxXdiuo''"
  shows "\<exists>st. inside st \<and> SecLoop env priv (sz @ t # fmt) m =
    SecLoop env priv (t # fmt) (m\<lparr>ss_state := st, ss_attr := add_flags (the (map_of sizes sz)) (ss_attr m), ss_seen := rev sz @ ss_seen m\<rparr>)"
proof -
  have t: "t \<noteq> CHR ''h''" "t \<noteq> CHR ''l''" using assms(4) by auto
  have ins: "inside STAT_SIZE" by (simp add: inside_def)
  consider "sz = []" | "sz = ''hh''" | "sz = ''I64''" | c where "sz = [c]" "c \<in> set ''hlLqtwjzZN''" | "sz = ''ll''"
    using size_cases [OF assms(3)] by blast
  then show ?thesis
  proof cases
    case 1
    then show ?thesis using assms(2) by (intro exI [of _ "ss_state m"]) (simp add: sizes_def)
  next
    case 2
    let ?m = "m\<lparr>ss_state := STAT_SIZE, ss_attr := add_flags {FCHAR} (ss_attr m), ss_seen := CHR ''h'' # ss_seen m\<rparr>"
    have "SecLoop env priv (sz @ t # fmt) m = SecLoop env priv (CHR ''h'' # t # fmt) ?m"
      using loop_size_turn [OF assms(1,2), of "CHR ''h''" "CHR ''h'' # t # fmt" "add_flags {FCHAR} (ss_attr m)" 0] 2
      by (simp add: SecDecodeSize_def add_flags_def)
    also have "\<dots> = SecLoop env priv (t # fmt) (?m\<lparr>ss_state := STAT_SIZE, ss_attr := add_flags {SHORT} (ss_attr ?m), ss_seen := CHR ''h'' # ss_seen ?m\<rparr>)"
      using loop_size_turn [of ?m "CHR ''h''" "t # fmt" "add_flags {SHORT} (ss_attr ?m)" 0] assms(1) ins t
      by (simp add: SecDecodeSize_def add_flags_def)
    finally show ?thesis using 2 ins by (intro exI [of _ STAT_SIZE]) (simp add: sizes_def insert_commute)
  next
    case 3
    then show ?thesis
      using loop_size_turn [OF assms(1,2), of "CHR ''I''" "''64'' @ t # fmt" "add_flags {I64} (ss_attr m)" 2] ins
      by (intro exI [of _ STAT_SIZE]) (simp add: SecDecodeSize_def add_flags_def sizes_def)
  next
    case (4 c)
    have "SecDecodeSize c a (t # fmt) = (add_flags (the (map_of sizes [c])) a, 0, True)" for a
      using 4(2) t unfolding list.set by (elim insertE emptyE) (simp_all add: SecDecodeSize_def add_flags_def sizes_def)
    moreover have "c \<in> set ''hlLqtwjzZNI''" using 4(2) by auto
    ultimately show ?thesis
      using loop_size_turn [OF assms(1,2), of c "t # fmt"] 4(1) ins by (intro exI [of _ STAT_SIZE]) simp
  next
    case 5
    then show ?thesis
      using loop_size_turn [OF assms(1,2), of "CHR ''l''" "CHR ''l'' # t # fmt" "add_flags {LONGLONG} (ss_attr m)" 1] ins
      by (intro exI [of _ STAT_SIZE]) (simp add: SecDecodeSize_def add_flags_def sizes_def)
  qed
qed

definition tail_alphabet :: string where
  "tail_alphabet = '' +-0#*.hlLqtwjzZNI64cCsSeEfFgGpxXdiuo123456789''"

lemma tail_alphabet:
  "list_all (\<lambda>c. c \<noteq> CHR ''%'' \<and> c \<noteq> CHR ''}'' \<and> c \<noteq> CHR ''{'') tail_alphabet"
  "set '' +-0#'' \<subseteq> set tail_alphabet" "set digits \<subseteq> set tail_alphabet" "set ''cCsSeEfFgGpxXdiuo'' \<subseteq> set tail_alphabet"
  "list_all (\<lambda>(sz, f). set sz \<subseteq> set tail_alphabet) sizes" "CHR ''*'' \<in> set tail_alphabet" "CHR ''.'' \<in> set tail_alphabet"
  by code_simp+

lemma tail_chars:
  assumes "spec_ok sp" "c \<in> set (spec_tail sp)"
  shows "c \<noteq> CHR ''%'' \<and> c \<noteq> CHR ''}'' \<and> c \<noteq> CHR ''{''"
proof -
  note ok = assms(1) [unfolded spec_ok_def] and al = tail_alphabet
  have w: "width_ok (sp_width sp)" "prec_ok (sp_prec sp)" using ok by simp_all
  have "set (width_str (sp_width sp)) \<subseteq> set tail_alphabet" using w(1) al(3,6) by (cases "sp_width sp") auto
  moreover have "set (prec_str (sp_prec sp)) \<subseteq> set tail_alphabet" using w(2) al(3,6,7) by (cases "sp_prec sp") auto
  moreover have "set (sp_size sp) \<subseteq> set tail_alphabet" using ok al(5) unfolding list_all_iff by fastforce
  moreover have "set (sp_flags sp) \<subseteq> set tail_alphabet" "sp_type sp \<in> set tail_alphabet" using ok al(2,4) by (blast intro: subset_trans)+
  ultimately have "c \<in> set tail_alphabet" using assms(2) unfolding spec_tail_def by auto
  then show ?thesis using al(1) unfolding list_all_iff by blast
qed

lemma float_format_tail:
  assumes "spec_ok sp" "x \<in> {CHR ''%'', CHR ''}''}"
  shows "float_format (rev (spec_tail sp) @ x # q) = float_format (rev (spec_tail sp))"
proof -
  obtain t where t: "spec_tail sp = t @ [sp_type sp]" by (simp add: spec_tail_def)
  have "\<forall>c \<in> set (rev t). c \<noteq> CHR ''%'' \<and> c \<noteq> CHR ''}''" using tail_chars [OF assms(1)] t by auto
  then have "takeWhile (\<lambda>c. c \<noteq> CHR ''%'' \<and> c \<noteq> CHR ''}'') (rev t @ x # q) = rev t"
    "takeWhile (\<lambda>c. c \<noteq> CHR ''%'' \<and> c \<noteq> CHR ''}'') (rev t) = rev t"
    using assms(2) by (auto simp: takeWhile_append takeWhile_eq_all_conv)
  then show ?thesis by (simp add: float_format_def t del: takeWhile_eq_all_conv)
qed

lemma SecConvert_seen: "float_format q = float_format q' \<Longrightarrow> SecConvert env p q ch attr args = SecConvert env p q' ch attr args"
  by (simp add: SecConvert_def SecDecodeFloat_def)

lemma default_wide_dyn [simp]: "dyn_of (default_wide attr) = dyn_of attr" "dyn_of (add_flags fs attr) = dyn_of attr"
  by (simp_all add: default_wide_def add_flags_def dyn_of_def)

lemma int_output_attr: "int_output r ds pre attr fs l = Output a q t \<Longrightarrow> \<exists>f p. a = attr\<lparr>fa_flags := f, precision := p\<rparr>"
  by (auto simp only: int_output_def Let_def)

lemma OutputInt_dyn: "OutputInt env p r ds pre attr args = Some (Output a q t, rest) \<Longrightarrow> dyn_of a = dyn_of attr"
  by (auto simp: OutputInt_def dyn_of_def split: option.splits if_splits dest!: int_output_attr)

lemma take_double_Some: "take_double k args = Some (cv, rest) \<Longrightarrow> \<exists>d. args = VaDouble d # rest \<and> k d = Some cv"
  by (cases "(k, args)" rule: take_double.cases) auto

lemma SecDecodeFloat_dyn: "SecDecodeFloat env p q ch attr args = Some (Output a pre t, rest) \<Longrightarrow> dyn_of a = dyn_of attr"
  by (auto simp: SecDecodeFloat_def Let_def dyn_of_def float_output_def split: if_split_asm option.splits dest!: take_double_Some)

lemma SecDecodeTypeS_dyn: "SecDecodeTypeS attr x = Some (Output a pre t) \<Longrightarrow> dyn_of a = dyn_of attr"
  by (cases x) (auto simp: SecDecodeTypeS_def dyn_of_def split: if_splits)

lemma SecDecodeTypeC_dyn: "SecDecodeTypeC env attr w = Output a pre t \<Longrightarrow> dyn_of a = dyn_of attr"
  by (auto simp: SecDecodeTypeC_def Let_def dyn_of_def split: if_splits option.splits)

end
