(* ===== verification/Format_Spec.thy ===== *)
theory Format_Spec
  imports Format_Machine
begin

text \<open>
  The state machine writes exactly the text that the parts of a format specify, cut to the room of
  the destination: the run over a conversion, over whole formats, and through \<open>vsnprintfp_s\<close>.
\<close>

section \<open>Conversions by type\<close>

text \<open>The inner switch by groups of type characters.\<close>

definition conv_wide :: "char \<Rightarrow> SecFormatAttr \<Rightarrow> SecFormatAttr" where
  "conv_wide ch attr = (if ch \<in> {CHR ''C'', CHR ''S''} then default_wide attr else attr)"

fun is_ptr :: "va_arg \<Rightarrow> bool" where
  "is_ptr (VaStr p) = True"
| "is_ptr (VaWStr p) = True"
| "is_ptr _ = False"

lemma SecConvert_c: "ch \<in> {CHR ''c'', CHR ''C''} \<Longrightarrow> SecConvert env p q ch attr args =
    (case args of VaInt w # rest \<Rightarrow> Some (if p then Private else SecDecodeTypeC env (conv_wide ch attr) w, rest) | _ \<Rightarrow> None)"
  by (cases args; elim insertE emptyE; simp add: SecConvert_def conv_wide_def; cases "hd args"; simp add: SecConvert_def conv_wide_def)

lemma SecConvert_s: "ch \<in> {CHR ''s'', CHR ''S''} \<Longrightarrow> SecConvert env p q ch attr args =
    (case args of
       a # rest \<Rightarrow> if \<not> is_ptr a then None else if p then Some (Private, rest)
                   else map_option (\<lambda>cv. (cv, rest)) (SecDecodeTypeS (conv_wide ch attr) a)
     | [] \<Rightarrow> None)"
  by (cases args; elim insertE emptyE; simp add: SecConvert_def conv_wide_def; cases "hd args"; simp add: SecConvert_def conv_wide_def)

lemma SecConvert_f: "ch \<in> set ''EFGefg'' \<Longrightarrow> SecConvert env p q ch attr args = SecDecodeFloat env p q ch attr args"
  unfolding list.set by (elim insertE emptyE) (simp_all add: SecConvert_def)

text \<open>Radix, digits, prefix and attributes of the integer conversions.\<close>

definition int_kind :: "char \<Rightarrow> SecFormatAttr \<Rightarrow> nat \<times> string \<times> char list \<times> SecFormatAttr" where
  "int_kind ch attr =
     (let hex = (\<lambda>ds a. (16, ds, (if ALTERNATE \<in> fa_flags a then [CHR ''0'', ds ! 16] else []), a))
      in if ch = CHR ''p'' then hex itoaUpperDigits (add_flags {POINTER, I64} (attr\<lparr>precision := 16\<rparr>))
         else if ch = CHR ''X'' then hex itoaUpperDigits attr
         else if ch = CHR ''x'' then hex itoaLowerDigits attr
         else if ch \<in> {CHR ''i'', CHR ''d''} then (10, itoaUpperDigits, [], add_flags {SIGNED} attr)
         else if ch = CHR ''u'' then (10, itoaUpperDigits, [], attr)
         else (8, itoaUpperDigits, [], if ALTERNATE \<in> fa_flags attr then add_flags {FORCE_OCTAL} attr else attr))"

lemma SecConvert_int: "ch \<in> set ''pXxiduo'' \<Longrightarrow> SecConvert env p q ch attr args =
    (case int_kind ch attr of (r, ds, pre, a) \<Rightarrow> OutputInt env p r ds pre a args)"
  unfolding list.set by (elim insertE emptyE) (simp_all add: SecConvert_def OutputHex_def int_kind_def)

lemma int_kind_dyn: "dyn_of (snd (snd (snd (int_kind ch attr)))) = dyn_of attr"
  by (simp add: int_kind_def Let_def) (simp add: dyn_of_def)

lemma type_groups:
  "ch \<in> set ''cCsSeEfFgGpxXdiuo'' \<longleftrightarrow>
    ch \<in> {CHR ''c'', CHR ''C''} \<or> ch \<in> {CHR ''s'', CHR ''S''} \<or> ch \<in> set ''EFGefg'' \<or> ch \<in> set ''pXxiduo''"
proof -
  have "set ''cCsSeEfFgGpxXdiuo'' = set (''cC'' @ ''sS'' @ ''EFGefg'' @ ''pXxiduo'')" by code_simp
  then have "ch \<in> set ''cCsSeEfFgGpxXdiuo'' \<longleftrightarrow> ch \<in> set ''cC'' \<or> ch \<in> set ''sS'' \<or> ch \<in> set ''EFGefg'' \<or> ch \<in> set ''pXxiduo''"
    by (simp only: set_append Un_iff)
  then show ?thesis by (simp only: list.set)
qed

lemma SecConvert_dyn:
  assumes "SecConvert env p q ch attr args = Some (Output a pre t, rest)" "ch \<in> set ''cCsSeEfFgGpxXdiuo''"
  shows "dyn_of a = dyn_of attr"
proof -
  have w: "dyn_of (conv_wide ch attr) = dyn_of attr" by (simp add: conv_wide_def)
  from assms(2) consider "ch \<in> {CHR ''c'', CHR ''C''}" | "ch \<in> {CHR ''s'', CHR ''S''}" | "ch \<in> set ''EFGefg''" | "ch \<in> set ''pXxiduo''"
    unfolding type_groups by blast
  then show ?thesis
  proof cases
    case 1
    with assms(1) have "SecDecodeTypeC env (conv_wide ch attr) w = Output a pre t" if "args = VaInt w # rest" for w
      unfolding SecConvert_c [OF 1] using that by (simp split: if_split_asm)
    moreover obtain w where "args = VaInt w # rest"
      using assms(1) unfolding SecConvert_c [OF 1] by (auto split: list.splits va_arg.splits)
    ultimately show ?thesis using SecDecodeTypeC_dyn w by metis
  next
    case 2
    then obtain x where "SecDecodeTypeS (conv_wide ch attr) x = Some (Output a pre t)"
      using assms(1) unfolding SecConvert_s [OF 2] by (auto split: list.splits if_split_asm)
    then show ?thesis using SecDecodeTypeS_dyn w by metis
  next
    case 3
    then show ?thesis using assms(1) SecDecodeFloat_dyn unfolding SecConvert_f [OF 3] by blast
  next
    case 4
    obtain r ds pre' a' where k: "int_kind ch attr = (r, ds, pre', a')" by (metis prod_cases4)
    then have "OutputInt env p r ds pre' a' args = Some (Output a pre t, rest)" using assms(1) SecConvert_int [OF 4] by simp
    from OutputInt_dyn [OF this] show ?thesis using int_kind_dyn [of ch attr] k by simp
  qed
qed

lemma loop_type:
  assumes "snd (ss_out m) \<ge> 0" "inside (ss_state m)" "t \<in> set ''cCsSeEfFgGpxXdiuo''"
    and seen: "float_format (t # ss_seen m) = float_format q"
  shows "case SecConvert env (ss_isPrivacy m) q t (ss_attr m) (ss_args m) of
      None \<Rightarrow> SecLoop env priv (t # fmt) m = None
    | Some (cv, r) \<Rightarrow> \<exists>m'. SecLoop env priv (t # fmt) m = SecLoop env priv fmt m' \<and> ss_state m' = STAT_TYPE \<and>
        ss_out m' = write_conv env cv (ss_out m) \<and> ss_args m' = r \<and> dyn_of (ss_attr m') = dyn_of (ss_attr m)"
proof -
  have "ctype t = 8" using ctypes(7) assms(3) by (simp only: list_all_iff)
  then have st: "DECODE_STATE t (ss_state m) = STAT_TYPE" using assms(2) by (simp add: DECODE_next next_states inside_def)
  let ?c = "SecConvert env (ss_isPrivacy m) q t (ss_attr m) (ss_args m)"
  have c: "SecConvert env (ss_isPrivacy m) (t # ss_seen m) t (ss_attr m) (ss_args m) = ?c" by (rule SecConvert_seen [OF seen])
  show ?thesis
  proof (cases ?c)
    case None
    then show ?thesis using c loop_undefined [OF assms(1) st] by (simp add: SecTurn_def)
  next
    case (Some x)
    obtain cv r where x: "x = (cv, r)" by fastforce
    let ?a = "case cv of Output attr p t \<Rightarrow> attr | _ \<Rightarrow> ss_attr m"
    have "SecLoop env priv (t # fmt) m = SecLoop env priv fmt
        (m\<lparr>ss_state := STAT_TYPE, ss_seen := t # ss_seen m, ss_attr := ?a, ss_args := r, ss_out := write_conv env cv (ss_out m)\<rparr>)"
      using c Some x by (intro loop_step [OF assms(1) st]) (cases cv; simp add: SecTurn_def)
    moreover have "dyn_of ?a = dyn_of (ss_attr m)" using Some x SecConvert_dyn [OF _ assms(3)] by (cases cv) auto
    ultimately show ?thesis using Some x by auto
  qed
qed

section \<open>A conversion\<close>

definition ends_like :: "SecEnv \<Rightarrow> bool \<Rightarrow> string \<Rightarrow> SecState \<Rightarrow> string \<Rightarrow> (SecConv \<times> dyn \<times> va_arg list) option \<Rightarrow> bool" where
  "ends_like env priv s m fmt res \<longleftrightarrow>
     (case res of
        None \<Rightarrow> SecLoop env priv s m = None
      | Some (cv, d, r) \<Rightarrow> \<exists>m'. SecLoop env priv s m = SecLoop env priv fmt m' \<and> ss_state m' = STAT_TYPE \<and>
          ss_out m' = write_conv env cv (ss_out m) \<and> ss_args m' = r \<and> dyn_of (ss_attr m') = d)"

lemma loop_spec:
  assumes sp: "spec_ok sp" and out: "snd (ss_out m) \<ge> 0" and st: "ss_state m \<in> {STAT_NORMAL, STAT_TYPE}"
  shows "ends_like env priv (spec_str sp @ fmt) m fmt (spec_conv env priv sp (dyn_of (ss_attr m)) (ss_args m))"
proof -
  let ?p = "priv \<and> sp_vis sp \<noteq> VisPublic" and ?q0 = "rev (CHR ''%'' # vis_str (sp_vis sp)) @ ss_seen m"
  define f2 where "f2 = width_str (sp_width sp) @ prec_str (sp_prec sp) @ sp_size sp @ sp_type sp # fmt"
  define f3 where "f3 = prec_str (sp_prec sp) @ sp_size sp @ sp_type sp # fmt"
  define f4 where "f4 = sp_size sp @ sp_type sp # fmt"
  have flags_ok: "set (sp_flags sp) \<subseteq> set '' +-0#''" and w_ok: "width_ok (sp_width sp)" and p_ok: "prec_ok (sp_prec sp)"
    and size_ok: "sp_size sp \<in> fst ` set sizes" and type_ok: "sp_type sp \<in> set ''cCsSeEfFgGpxXdiuo''"
    using sp unfolding spec_ok_def by blast+
  have "take 1 (sp_flags sp @ f2) \<noteq> ''{''"
  proof
    assume a: "take 1 (sp_flags sp @ f2) = ''{''"
    have "sp_flags sp @ f2 = spec_tail sp @ fmt" by (simp add: spec_tail_def f2_def)
    moreover have "spec_tail sp \<noteq> []" by (simp add: spec_tail_def)
    ultimately have "CHR ''{'' \<in> set (spec_tail sp)" using a by (cases "spec_tail sp") auto
    then show False using tail_chars [OF sp] by blast
  qed
  then have l1: "SecLoop env priv (spec_str sp @ fmt) m = SecLoop env priv (sp_flags sp @ f2)
      (m\<lparr>ss_state := STAT_PERCENT, ss_attr := fresh_attr (dyn_of (ss_attr m)), ss_isPrivacy := ?p, ss_seen := ?q0\<rparr>)"
    using loop_percent [OF out st, of "sp_vis sp" "sp_flags sp @ f2" env priv] by (simp add: spec_str_def spec_tail_def f2_def reset_fresh)
  let ?a1 = "fold SecDecodeFlags (sp_flags sp) (fresh_attr (dyn_of (ss_attr m)))"
  let ?m1 = "m\<lparr>ss_state := STAT_PERCENT, ss_attr := fresh_attr (dyn_of (ss_attr m)), ss_isPrivacy := ?p, ss_seen := ?q0\<rparr>"
  have "\<exists>st \<in> {STAT_PERCENT, STAT_FLAG}. SecLoop env priv (sp_flags sp @ f2) ?m1 =
    SecLoop env priv f2 (?m1\<lparr>ss_state := st, ss_attr := fold SecDecodeFlags (sp_flags sp) (ss_attr ?m1), ss_seen := rev (sp_flags sp) @ ss_seen ?m1\<rparr>)"
    by (rule loop_flags) (use out flags_ok in simp_all)
  then obtain s2 where s2: "s2 \<in> {STAT_PERCENT, STAT_FLAG}" and l2: "SecLoop env priv (spec_str sp @ fmt) m = SecLoop env priv f2
      (m\<lparr>ss_isPrivacy := ?p, ss_state := s2, ss_attr := ?a1, ss_seen := rev (sp_flags sp) @ ?q0\<rparr>)" (is "_ = SecLoop _ _ _ ?m2")
    unfolding l1 by (elim bexE) simp
  have m2: "0 \<le> snd (ss_out ?m2)" "ss_state ?m2 \<in> {STAT_PERCENT, STAT_FLAG}" using out s2 by simp_all
  obtain s3 where s3: "s3 \<in> {STAT_PERCENT, STAT_FLAG, STAT_WIDTH}" and l3: "SecLoop env priv f2 ?m2 =
      (case width_attr (sp_width sp) (ss_attr ?m2) (ss_args ?m2) of
         None \<Rightarrow> None
       | Some (a, r) \<Rightarrow> SecLoop env priv f3 (?m2\<lparr>ss_state := s3, ss_attr := a, ss_args := r, ss_seen := rev (width_str (sp_width sp)) @ ss_seen ?m2\<rparr>))"
    using loop_width [OF m2 w_ok, of env priv f3] unfolding f2_def f3_def by blast
  show ?thesis
  proof (cases "width_attr (sp_width sp) ?a1 (ss_args m)")
    case None
    then show ?thesis using l2 l3 by (simp add: ends_like_def spec_conv_def spec_attr_def)
  next
    case w: (Some x)
    obtain a3 r3 where x: "x = (a3, r3)" by fastforce
    let ?m3 = "?m2\<lparr>ss_state := s3, ss_attr := a3, ss_args := r3, ss_seen := rev (width_str (sp_width sp)) @ rev (sp_flags sp) @ ?q0\<rparr>"
    have l3': "SecLoop env priv f2 ?m2 = SecLoop env priv f3 ?m3" using l3 w x by simp
    have m3: "0 \<le> snd (ss_out ?m3)" "ss_state ?m3 \<in> {STAT_PERCENT, STAT_FLAG, STAT_WIDTH}" using out s3 by simp_all
    obtain s4 where s4: "s4 \<in> {STAT_PERCENT, STAT_FLAG, STAT_WIDTH, STAT_DOT, STAT_PRECIS}" and l4: "SecLoop env priv f3 ?m3 =
        (case prec_attr (sp_prec sp) (ss_attr ?m3) (ss_args ?m3) of
           None \<Rightarrow> None
         | Some (a, r) \<Rightarrow> SecLoop env priv f4 (?m3\<lparr>ss_state := s4, ss_attr := a, ss_args := r, ss_seen := rev (prec_str (sp_prec sp)) @ ss_seen ?m3\<rparr>))"
      using loop_prec [OF m3 p_ok, of env priv f4] unfolding f3_def f4_def by blast
    show ?thesis
    proof (cases "prec_attr (sp_prec sp) a3 r3")
      case None
      then show ?thesis using l2 l3' l4 w x by (simp add: ends_like_def spec_conv_def spec_attr_def)
    next
      case p: (Some y)
      obtain a4 r4 where y: "y = (a4, r4)" by fastforce
      let ?q4 = "rev (prec_str (sp_prec sp)) @ rev (width_str (sp_width sp)) @ rev (sp_flags sp) @ ?q0"
      let ?m4 = "?m3\<lparr>ss_state := s4, ss_attr := a4, ss_args := r4, ss_seen := ?q4\<rparr>"
      have l4': "SecLoop env priv f3 ?m3 = SecLoop env priv f4 ?m4" using l4 p y by simp
      let ?a5 = "add_flags (the (map_of sizes (sp_size sp))) a4"
      have "inside s4" using s4 by (auto simp: inside_def)
      then obtain s5 where s5: "inside s5" and l5: "SecLoop env priv f4 ?m4 = SecLoop env priv (sp_type sp # fmt)
          (?m4\<lparr>ss_state := s5, ss_attr := ?a5, ss_seen := rev (sp_size sp) @ ?q4\<rparr>)" (is "_ = SecLoop _ _ _ ?m5")
        using loop_size [of ?m4 "sp_size sp" "sp_type sp" env priv fmt, OF _ _ size_ok type_ok] out unfolding f4_def by auto
      have l: "SecLoop env priv (spec_str sp @ fmt) m = SecLoop env priv (sp_type sp # fmt) ?m5"
        using l2 l3' l4' l5 by simp
      obtain z q where z: "rev (CHR ''%'' # vis_str (sp_vis sp)) = z # q" "z \<in> {CHR ''%'', CHR ''}''}"
        by (cases "sp_vis sp") (auto simp: flag_strings)
      have "sp_type sp # ss_seen ?m5 = rev (spec_tail sp) @ z # q @ ss_seen m" using z(1) by (simp add: spec_tail_def)
      then have ff: "float_format (sp_type sp # ss_seen ?m5) = float_format (rev (spec_tail sp))"
        by (simp only: float_format_tail [OF sp z(2)])
      have m5: "ss_isPrivacy ?m5 = ?p" "ss_attr ?m5 = ?a5" "ss_args ?m5 = r4" "ss_out ?m5 = ss_out m" "ss_state ?m5 = s5" by simp_all
      have sa: "spec_attr sp (dyn_of (ss_attr m)) (ss_args m) = Some (?a5, r4)"
        using w p x y by (simp add: spec_attr_def)
      have "case SecConvert env ?p (rev (spec_tail sp)) (sp_type sp) ?a5 r4 of
          None \<Rightarrow> SecLoop env priv (sp_type sp # fmt) ?m5 = None
        | Some (cv, r) \<Rightarrow> \<exists>m'. SecLoop env priv (sp_type sp # fmt) ?m5 = SecLoop env priv fmt m' \<and> ss_state m' = STAT_TYPE \<and>
            ss_out m' = write_conv env cv (ss_out m) \<and> ss_args m' = r \<and> dyn_of (ss_attr m') = dyn_of ?a5"
        using loop_type [of ?m5 "sp_type sp" "rev (spec_tail sp)" env priv fmt, OF _ _ type_ok ff] out s5 unfolding m5 by simp
      then show ?thesis
        unfolding ends_like_def spec_conv_def sa l by (auto split: option.splits)
    qed
  qed
qed

section \<open>Whole formats\<close>

lemma loop_stopped:
  "snd (ss_out m) < 0 \<Longrightarrow> ss_state m \<in> {STAT_NORMAL, STAT_TYPE} \<Longrightarrow> SecLoop env priv fmt m = Some (snd (ss_out m), fst (ss_out m))"
  by (cases fmt) (simp_all add: SecLoop.simps)

lemma loop_percent_literal:
  assumes "snd (ss_out m) \<ge> 0" "ss_state m \<in> {STAT_NORMAL, STAT_TYPE}"
  shows "\<exists>m'. SecLoop env priv (''%%'' @ fmt) m = SecLoop env priv fmt m' \<and> ss_state m' = STAT_NORMAL \<and>
    ss_out m' = write_normal (CHR ''%'') (ss_out m) \<and> ss_args m' = ss_args m \<and> dyn_of (ss_attr m') = dyn_of (ss_attr m)"
proof -
  let ?m = "m\<lparr>ss_state := STAT_PERCENT, ss_attr := reset_attr (ss_attr m), ss_isPrivacy := priv, ss_seen := CHR ''%'' # ss_seen m\<rparr>"
  have "SecLoop env priv (''%%'' @ fmt) m = SecLoop env priv (CHR ''%'' # fmt) ?m"
    using loop_percent [OF assms, of VisDefault "CHR ''%'' # fmt" env priv] by simp
  moreover have "SecLoop env priv (CHR ''%'' # fmt) ?m =
      SecLoop env priv fmt (?m\<lparr>ss_state := STAT_NORMAL, ss_out := write_normal (CHR ''%'') (ss_out ?m), ss_seen := CHR ''%'' # ss_seen ?m\<rparr>)"
    using assms(1) by (intro loop_percent_percent) simp_all
  ultimately show ?thesis by (auto simp: reset_attr_def dyn_of_def)
qed

lemma items_str_simps [simp]: "items_str [] = []" "items_str (it # its) = item_str it @ items_str its"
  by (simp_all add: items_str_def)

lemma loop_items:
  assumes "list_all item_ok its" "ss_state m \<in> {STAT_NORMAL, STAT_TYPE}" "stream_at N w0 (ss_out m)"
    and "items_text env priv its (dyn_of (ss_attr m)) (ss_args m) = Some s"
  shows "\<exists>ret st. SecLoop env priv (items_str its) m = Some (ret, st) \<and> stream_at N (w0 @ s) (st, ret)"
  using assms
proof (induction its arbitrary: m w0 s)
  case Nil
  then show ?case by (auto simp: SecLoop.simps)
next
  case (Cons it its)
  show ?case
  proof (cases "snd (ss_out m) < 0")
    case True
    then have "N < length w0" using stream_at_neg [OF Cons.prems(3)] by simp
    then have "stream_at N (w0 @ s) (fst (ss_out m), snd (ss_out m))" using stream_at_full [OF Cons.prems(3)] by simp
    then show ?thesis using loop_stopped [OF True Cons.prems(2)] by blast
  next
    case False
    then have out: "snd (ss_out m) \<ge> 0" by simp
    show ?thesis
    proof (cases it)
      case (Lit c)
      then obtain s' where s: "items_text env priv its (dyn_of (ss_attr m)) (ss_args m) = Some s'" "s = c # s'"
        using Cons.prems(4) by auto
      have "\<exists>m'. SecLoop env priv (item_str it @ items_str its) m = SecLoop env priv (items_str its) m' \<and> ss_state m' = STAT_NORMAL \<and>
        ss_out m' = write_normal c (ss_out m) \<and> ss_args m' = ss_args m \<and> dyn_of (ss_attr m') = dyn_of (ss_attr m)"
        using loop_percent_literal [OF out Cons.prems(2), of env priv "items_str its"]
          loop_literal [OF out Cons.prems(2), of c env priv "items_str its"] Lit by (cases "c = CHR ''%''") auto
      then obtain m' where m': "SecLoop env priv (items_str (it # its)) m = SecLoop env priv (items_str its) m'"
          "ss_state m' = STAT_NORMAL" "ss_out m' = write_normal c (ss_out m)" "ss_args m' = ss_args m" "dyn_of (ss_attr m') = dyn_of (ss_attr m)"
        by auto
      have "\<exists>ret st. SecLoop env priv (items_str its) m' = Some (ret, st) \<and> stream_at N ((w0 @ [c]) @ s') (st, ret)"
        using Cons.prems(1) m' s write_normal_at [OF Cons.prems(3) out] by (intro Cons.IH) auto
      then show ?thesis using m' s by simp
    next
      case (Conv sp)
      have "spec_ok sp" using Cons.prems(1) Conv by simp
      note l = loop_spec [OF this out Cons.prems(2), of env priv "items_str its"]
      obtain cv d r s1 s2 where c: "spec_conv env priv sp (dyn_of (ss_attr m)) (ss_args m) = Some (cv, d, r)"
          "conv_text env cv = Some s1" "items_text env priv its d r = Some s2" "s = s1 @ s2"
        using Cons.prems(4) Conv by (auto split: option.splits simp: bind_eq_Some_conv)
      then obtain m' where m': "SecLoop env priv (items_str (it # its)) m = SecLoop env priv (items_str its) m'"
          "ss_state m' = STAT_TYPE" "ss_out m' = write_conv env cv (ss_out m)" "ss_args m' = r" "dyn_of (ss_attr m') = d"
        using l Conv by (auto simp: ends_like_def)
      have "\<exists>ret st. SecLoop env priv (items_str its) m' = Some (ret, st) \<and> stream_at N ((w0 @ s1) @ s2) (st, ret)"
        using Cons.prems(1) m' c write_conv_at [OF Cons.prems(3) c(2)] by (intro Cons.IH) auto
      then show ?thesis using m' c by simp
    qed
  qed
qed

lemma SecOutputPS_items:
  assumes "list_all item_ok its" "items_text env priv its (False, False) args = Some s"
  shows "\<exists>ret st. SecOutputPS env \<lparr>ps_count = int N, ps_cur = []\<rparr> priv (items_str its) args = Some (ret, st) \<and> stream_at N s (st, ret)"
  using loop_items [OF assms(1), of "SecState_new \<lparr>ps_count = int N, ps_cur = []\<rparr> args" N "[]" env priv s] assms(2) stream_at_new
  by (simp add: SecOutputPS_def SecState_new_def dyn_of_def)

lemma overwrite_update:
  "length xs = Suc n \<Longrightarrow> (overwrite d xs)[n := y] = overwrite d (take n xs @ [y])"
  by (simp add: overwrite_def list_update_append upd_conv_take_nth_drop)

lemma Impl_items:
  assumes "list_all item_ok its" "items_text env priv its (False, False) args = Some s"
  shows "SecVsnprintfPImpl env dest (Suc k) priv (items_str its) args =
    Some (if length s \<le> k then (int (length s), overwrite dest (s @ [NUL]))
          else (SECUREC_PRINTF_TRUNCATE, overwrite dest (take k s @ [NUL])))"
proof -
  obtain ret st where o: "SecOutputPS env \<lparr>ps_count = int (Suc k), ps_cur = []\<rparr> priv (items_str its) args = Some (ret, st)"
      "stream_at (Suc k) s (st, ret)" using SecOutputPS_items [OF assms] by blast
  then show ?thesis
    by (auto simp: SecVsnprintfPImpl_def stream_at_def overwrite_update min_def split: if_splits)
qed

lemma vsnprintfp_items:
  assumes "list_all item_ok its" "items_text env priv its (False, False) args = Some s"
    and "count < destMax" "destMax \<le> SECUREC_STRING_MAX_LEN"
  shows "vsnprintfp_s env dest destMax count priv (Some (items_str its)) args =
    Some (if length s \<le> unat count then (int (length s), overwrite dest (s @ [NUL]))
          else (-1, overwrite dest (take (unat count) s @ [NUL])))"
proof -
  have lt: "unat count < unat destMax" "unat destMax \<le> 0x7fffffff" using assms(3,4) by (simp_all add: word_less_nat_alt word_le_nat_alt)
  then have c: "unat (count + 1) = Suc (unat count)" by (simp add: unat_word_ariths)
  have "\<not> count > SECUREC_STRING_MAX_LEN - 1" "destMax \<noteq> 0" using lt by (auto simp: word_less_nat_alt)
  then show ?thesis
    using assms(3,4) Impl_items [OF assms(1,2), of dest "unat count"] by (auto simp: vsnprintfp_s_def c)
qed

text \<open>
  C5: The formatting of a log text is what its format says. For every format made of literal
  characters and conversions, and arguments for which the text is defined,
  \<open>vsnprintfp_s\<close> writes the concatenation of the parts, each conversion as its padded field or as
  \<open><private>\<close>, terminated; when the text has more than \<open>count\<close> characters it is cut there and -1 is
  returned, otherwise its length.
\<close>

theorem format_refines:
  assumes "list_all item_ok its" "items_text env priv its (False, False) args = Some s"
    and "count < destMax" "destMax \<le> SECUREC_STRING_MAX_LEN"
  shows "vsnprintfp_s env dest destMax count priv (Some (items_str its)) args =
    Some (if length s \<le> unat count then (int (length s), overwrite dest (s @ [NUL]))
          else (-1, overwrite dest (take (unat count) s @ [NUL])))"
  by (rule vsnprintfp_items [OF assms])

text \<open>A public number, a private string, and the same format cut after four characters.\<close>

theorem format_refines_witness:
  "vsnprintfp_s \<lparr>se_sprintf = \<lambda>n f ws d. None, se_wctomb = \<lambda>w. None, se_malloc = \<lambda>n. True, se_char_signed = True\<rparr>
     (replicate 20 NUL) 20 19 True (Some ''a%{public}05d%s'') [VaInt 42, VaStr (Some (''secret'' @ [NUL]))] =
   Some (15, ''a00042<private>'' @ replicate 5 NUL)
   \<and> vsnprintfp_s \<lparr>se_sprintf = \<lambda>n f ws d. None, se_wctomb = \<lambda>w. None, se_malloc = \<lambda>n. True, se_char_signed = True\<rparr>
     (replicate 20 NUL) 20 4 True (Some ''a%{public}05d%s'') [VaInt 42, VaStr (Some (''secret'' @ [NUL]))] =
   Some (-1, ''a000'' @ replicate 16 NUL)"
proof -
  let ?e = "\<lparr>se_sprintf = \<lambda>n f ws d. None, se_wctomb = \<lambda>w. None, se_malloc = \<lambda>n. True, se_char_signed = True\<rparr>"
  let ?its = "[Lit (CHR ''a''),
      Conv \<lparr>sp_vis = VisPublic, sp_flags = ''0'', sp_width = Digits ''5'', sp_prec = Absent, sp_size = [], sp_type = CHR ''d''\<rparr>,
      Conv \<lparr>sp_vis = VisDefault, sp_flags = [], sp_width = Absent, sp_prec = Absent, sp_size = [], sp_type = CHR ''s''\<rparr>]"
  have its: "list_all item_ok ?its" "items_str ?its = ''a%{public}05d%s''"
    "items_text ?e True ?its (False, False) [VaInt 42, VaStr (Some (''secret'' @ [NUL]))] = Some ''a00042<private>''"
    by code_simp+
  have w: "(19 :: size_t) < 20" "(4 :: size_t) < 20" "(20 :: size_t) \<le> SECUREC_STRING_MAX_LEN" by simp_all
  have u: "unat (19 :: size_t) = 19" "unat (4 :: size_t) = 4" by simp_all
  have o: "overwrite (replicate 20 NUL) (''a00042<private>'' @ [NUL]) = ''a00042<private>'' @ replicate 5 NUL"
    "overwrite (replicate 20 NUL) (take 4 ''a00042<private>'' @ [NUL]) = ''a000'' @ replicate 16 NUL"
    "length ''a00042<private>'' = 15" by code_simp+
  show ?thesis
    using format_refines [OF its(1,3) w(1,3), of "replicate 20 NUL"] format_refines [OF its(1,3) w(2,3), of "replicate 20 NUL"]
    unfolding its(2) u o by simp
qed

end
