(* ===== verification/Format_Digits.thy ===== *)
theory Format_Digits
  imports Sec_Format
begin

text \<open>
  The digits of a number. Builds for 32-bit targets divide small numbers by ten with shifts and
  additions; the digits are the same as those of the division, and reading them gives the number
  back.
\<close>

section \<open>The conversion of 32-bit targets\<close>

text \<open>The block \<open>fast div 10\<close>: an estimate of the quotient and its correction.\<close>

definition fast_div10 :: "u32 \<Rightarrow> u32" where
  "fast_div10 n32Tmp =
     (let q1 = drop_bit 1 n32Tmp + drop_bit 2 n32Tmp;
          q2 = q1 + drop_bit 4 q1;
          q3 = q2 + drop_bit 8 q2;
          q4 = q3 + drop_bit 16 q3;
          q = drop_bit 3 q4;
          r = n32Tmp - push_bit 1 (push_bit 2 q + q)
      in if r > 9 then q + 1 else q)"

text \<open>The loop over the quotients ends: each is smaller than the number.\<close>

lemma unat_drop: "unat (drop_bit k (w :: u32)) = unat w div 2 ^ k"
  unfolding unat_drop_bit_eq by (rule drop_bit_eq_div)

lemma unat_plus32: "unat a + unat b < 2 ^ 32 \<Longrightarrow> unat (a + b :: u32) = unat a + unat b"
  by (simp add: unat_word_ariths)

text \<open>The estimate in numbers: never too large and at most one too small.\<close>

lemma div10_bounds:
  fixes n :: nat
  assumes "n < 4294967296" "2 * a \<le> n" "n \<le> 2 * a + 1" "4 * b \<le> n" "n \<le> 4 * b + 3"
    and "16 * c \<le> q1" "q1 \<le> 16 * c + 15" "256 * d \<le> q2" "q2 \<le> 256 * d + 255"
    and "65536 * e \<le> q3" "q3 \<le> 65536 * e + 65535" "8 * q \<le> q4" "q4 \<le> 8 * q + 7"
    and "q1 = a + b" "q2 = q1 + c" "q3 = q2 + d" "q4 = q3 + e"
  shows "10 * q \<le> n" "n \<le> 10 * q + 19" "10 * q4 \<le> 8 * n"
  using assms by linarith+

lemma div_lower: "k * (n div k) \<le> (n :: nat)"
  by simp

lemma div_upper:
  assumes "k = m + 1"
  shows "(n :: nat) \<le> k * (n div k) + m"
proof -
  have "n mod k \<le> m" using assms mod_less_divisor [of k n] by linarith
  then show ?thesis using mult_div_mod_eq [of k n] by linarith
qed

lemma div10_estimate:
  fixes n :: nat
  assumes "n < 2 ^ 32" "q1 = n div 2 + n div 4" "q2 = q1 + q1 div 16" "q3 = q2 + q2 div 256" "q4 = q3 + q3 div 65536" "q = q4 div 8"
  shows "10 * q \<le> n" "n \<le> 10 * q + 19" "10 * q4 \<le> 8 * n"
proof -
  have n: "n < 4294967296" using assms(1) by simp
  have q: "8 * q \<le> q4" "q4 \<le> 8 * q + 7" unfolding assms(6) by (rule div_lower, rule div_upper, simp)
  have u: "n \<le> 2 * (n div 2) + 1" "n \<le> 4 * (n div 4) + 3" "q1 \<le> 16 * (q1 div 16) + 15" "q2 \<le> 256 * (q2 div 256) + 255"
    "q3 \<le> 65536 * (q3 div 65536) + 65535"
    by (rule div_upper, simp)+
  note b = div10_bounds [OF n div_lower u(1) div_lower u(2) div_lower u(3) div_lower u(4) div_lower u(5) q assms(2-5)]
  show "10 * q \<le> n" "n \<le> 10 * q + 19" "10 * q4 \<le> 8 * n" by (rule b)+
qed

lemma fast_div10_correct: "unat (fast_div10 n) = unat n div 10"
proof -
  define q1 where "q1 = drop_bit 1 n + drop_bit 2 n"
  define q2 where "q2 = q1 + drop_bit 4 q1"
  define q3 where "q3 = q2 + drop_bit 8 q2"
  define q4 where "q4 = q3 + drop_bit 16 q3"
  define q where "q = drop_bit 3 q4"
  obtain n1 where n1: "n1 = unat n div 2 + unat n div 4" by simp
  obtain n2 where n2: "n2 = n1 + n1 div 16" by simp
  obtain n3 where n3: "n3 = n2 + n2 div 256" by simp
  obtain n4 where n4: "n4 = n3 + n3 div 65536" by simp
  obtain k where k: "k = n4 div 8" by simp
  have n: "unat n < 2 ^ 32" using unsigned_less [of n] by simp
  note e = div10_estimate [OF n n1 n2 n3 n4 k]
  have l4: "n4 < 2 ^ 32" using e(3) n by linarith
  have l3: "n3 < 2 ^ 32" using l4 n4 by linarith
  have l2: "n2 < 2 ^ 32" using l3 n3 by linarith
  have l1: "n1 < 2 ^ 32" using l2 n2 by linarith
  have "unat q1 = n1" using l1 unfolding q1_def n1 by (subst unat_plus32) (simp_all add: unat_drop)
  then have "unat q2 = n2" using l2 unfolding q2_def n2 by (subst unat_plus32) (simp_all add: unat_drop)
  then have "unat q3 = n3" using l3 unfolding q3_def n3 by (subst unat_plus32) (simp_all add: unat_drop)
  then have "unat q4 = n4" using l4 unfolding q4_def n4 by (subst unat_plus32) (simp_all add: unat_drop)
  then have u: "unat q = k" unfolding q_def k by (simp add: unat_drop)
  have m: "push_bit 1 (push_bit 2 q + q) = 10 * q" by (simp add: push_bit_eq_mult algebra_simps)
  have t: "unat (10 * q) = 10 * k" using e(1) n u by (simp add: unat_word_ariths)
  have r: "unat (n - 10 * q) = unat n - 10 * k" using e(1) t by (simp add: unat_sub_if')
  have "fast_div10 n = (if n - push_bit 1 (push_bit 2 q + q) > 9 then q + 1 else q)"
    unfolding fast_div10_def Let_def q_def q4_def q3_def q2_def q1_def by (rule refl)
  then have f: "fast_div10 n = (if n - 10 * q > 9 then q + 1 else q)" unfolding m .
  have g: "n - 10 * q > 9 \<longleftrightarrow> unat n - 10 * k > 9" by (simp add: word_less_nat_alt r)
  have p: "unat (q + 1) = k + 1" using e(1) n u by (subst unat_plus32) simp_all
  show ?thesis
  proof (cases "unat n - 10 * k > 9")
    case True
    then have "unat n div 10 = k + 1" using e(2) by linarith
    then show ?thesis using True f g p by simp
  next
    case False
    then have "unat n div 10 = k" using e(1) by linarith
    then show ?thesis using False f g u by simp
  qed
qed

function sec_digits32 :: "string \<Rightarrow> u32 \<Rightarrow> char list \<Rightarrow> char list" where
  "sec_digits32 digits n32Tmp acc =
     (let acc' = digits ! unat (n32Tmp mod 10) # acc; n = fast_div10 n32Tmp
      in if n = 0 then acc' else sec_digits32 digits n acc')"
  by pat_completeness auto
termination
proof (relation "measure (\<lambda>(digits, n, acc). unat n)")
  fix digits :: string and n :: u32 and acc acc' :: "char list" and n'
  assume "n' = fast_div10 n" "n' \<noteq> 0"
  then have "unat n div 10 \<noteq> 0" using fast_div10_correct [of n] by (metis unat_eq_zero)
  then have "unat n div 10 < unat n" by (cases "unat n = 0") simp_all
  then show "((digits, n', acc'), digits, n, acc) \<in> measure (\<lambda>(digits, n, acc). unat n)"
    using \<open>n' = fast_div10 n\<close> fast_div10_correct [of n] by simp
qed simp

declare sec_digits32.simps [simp del]

section \<open>Both conversions agree\<close>

lemma unat_mod10: "unat ((n :: u32) mod 10) = unat n mod 10"
  by (simp add: unat_mod_distrib)

lemma sec_digits32_eq: "sec_digits32 ds n acc = sec_digits ds 10 (unat n) acc"
proof (induction ds n acc rule: sec_digits32.induct)
  case (1 ds n acc)
  have z: "fast_div10 n = 0 \<longleftrightarrow> unat n div 10 = 0" using fast_div10_correct [of n] by (metis unat_eq_zero)
  show ?case
    using 1 [OF refl refl] z unfolding sec_digits32.simps [of ds n acc] sec_digits.simps [of ds 10 "unat n" acc]
    by (simp add: Let_def unat_mod10 fast_div10_correct)
qed

text \<open>Reading digits of a base below 17 from the left.\<close>

definition digit_value :: "char \<Rightarrow> nat" where
  "digit_value c = length (takeWhile (\<lambda>d. d \<noteq> c) (if c \<in> set itoaUpperDigits then itoaUpperDigits else itoaLowerDigits))"

definition read_digits :: "nat \<Rightarrow> char list \<Rightarrow> nat" where
  "read_digits base cs = fold (\<lambda>c v. base * v + digit_value c) cs 0"

lemma digit_value_nth:
  assumes "ds \<in> {itoaUpperDigits, itoaLowerDigits}" "k < 16"
  shows "digit_value (ds ! k) = k"
proof -
  have "\<forall>ds \<in> {itoaUpperDigits, itoaLowerDigits}. \<forall>k \<in> {..<16}. digit_value (ds ! k) = k" by code_simp
  then show ?thesis using assms by blast
qed

lemma read_digits_snoc: "read_digits base (cs @ [c]) = base * read_digits base cs + digit_value c"
  by (simp add: read_digits_def)

lemma read_sec_digits:
  assumes "ds \<in> {itoaUpperDigits, itoaLowerDigits}" "2 \<le> base" "base \<le> 16"
  shows "\<exists>cs. sec_digits ds base n acc = cs @ acc \<and> read_digits base cs = n"
proof (induction n arbitrary: acc rule: less_induct)
  case (less n)
  let ?c = "ds ! (n mod base)"
  have c: "digit_value ?c = n mod base"
    using assms by (intro digit_value_nth) (simp_all add: order.strict_trans2 [OF mod_less_divisor])
  show ?case
  proof (cases "n div base = 0")
    case True
    then have "n mod base = n" by (metis div_mult_mod_eq mult_0 add_0)
    moreover have "sec_digits ds base n acc = [?c] @ acc" using True by (simp add: sec_digits.simps)
    ultimately show ?thesis using c by (intro exI [of _ "[?c]"]) (simp add: read_digits_def)
  next
    case False
    then have "n div base < n" using assms(2) by (intro div_less_dividend) (auto intro: gr0I)
    from less [OF this, of "?c # acc"] obtain cs where cs: "sec_digits ds base (n div base) (?c # acc) = cs @ ?c # acc"
        "read_digits base cs = n div base" by blast
    have "sec_digits ds base n acc = sec_digits ds base (n div base) (?c # acc)"
      using False assms(2) by (subst sec_digits.simps) (simp add: Let_def)
    then have "sec_digits ds base n acc = (cs @ [?c]) @ acc" using cs(1) by simp
    moreover have "read_digits base (cs @ [?c]) = n" using cs(2) c by (simp add: read_digits_snoc)
    ultimately show ?thesis by blast
  qed
qed

text \<open>
  C7: The fast division of the 32-bit builds is exact. For every 32-bit number the digits made with
  shifts and additions are those of the division by ten, which the other builds use, and they read
  back as the number.
\<close>

theorem fast_digits_exact:
  "sec_digits32 itoaUpperDigits n [] = sec_digits itoaUpperDigits 10 (unat n) [] \<and>
   read_digits 10 (sec_digits32 itoaUpperDigits n []) = unat n"
  using read_sec_digits [of itoaUpperDigits 10 "unat n" "[]"] by (auto simp: sec_digits32_eq)

end
