(* ===== verification/Format_Props.thy ===== *)
theory Format_Props
  imports Format_Spec
begin

text \<open>
  Types for formats. Arguments of the types that a format asks for never lead to undefined
  behaviour when its float conversions are typed too, and with privacy on the text does not depend
  on arguments that are not public. Both need allocations to succeed: otherwise a conversion can
  leave its argument behind and the next one reads it. A float conversion is not typed when it has
  a size other than \<open>l\<close>, or when a conversion before it had a width or a precision by asterisk and it
  has not: then it is undefined.
\<close>

section \<open>Types\<close>

fun width_typed :: "field \<Rightarrow> va_arg list \<Rightarrow> bool" where
  "width_typed Star xs \<longleftrightarrow> (\<exists>w. xs = [VaInt w] \<and> sint w \<noteq> -(2 ^ 31))"
| "width_typed _ xs \<longleftrightarrow> xs = []"

fun prec_typed :: "field \<Rightarrow> va_arg list \<Rightarrow> bool" where
  "prec_typed Star xs \<longleftrightarrow> (\<exists>w. xs = [VaInt w] \<and> sint w \<le> SECUREC_INT_MAX - SECUREC_FLOAT_BUFSIZE_LB)"
| "prec_typed _ xs \<longleftrightarrow> xs = []"

definition size_flags :: "conv_spec \<Rightarrow> SecFlag set" where
  "size_flags sp = the (map_of sizes (sp_size sp))"

definition wide_conv :: "conv_spec \<Rightarrow> bool" where
  "wide_conv sp \<longleftrightarrow> size_flags sp \<inter> wide_flags \<noteq> {} \<or> (sp_type sp \<in> {CHR ''C'', CHR ''S''} \<and> SHORT \<notin> size_flags sp)"

definition long_conv :: "conv_spec \<Rightarrow> bool" where
  "long_conv sp \<longleftrightarrow> sp_type sp = CHR ''p'' \<or> size_flags sp \<inter> {I64, LONGLONG, LONG} \<noteq> {}"

definition terminated :: "'a \<Rightarrow> 'a list \<Rightarrow> bool" where
  "terminated z mem \<longleftrightarrow> z \<in> set mem \<and> int (length mem) \<le> SECUREC_INT_MAX"

definition convertible :: "SecEnv \<Rightarrow> u32 list \<Rightarrow> bool" where
  "convertible env ws \<longleftrightarrow> (\<forall>w \<in> set ws. w = 0 \<or> (\<exists>bs. se_wctomb env w = Some bs \<and> bs \<noteq> []))"

definition str_typed :: "SecEnv \<Rightarrow> conv_spec \<Rightarrow> va_arg \<Rightarrow> bool" where
  "str_typed env sp a \<longleftrightarrow>
     (if wide_conv sp
      then \<exists>p. a = VaWStr p \<and> terminated 0 (case p of None \<Rightarrow> wide_null | Some mem \<Rightarrow> mem) \<and>
             convertible env (case p of None \<Rightarrow> wide_null | Some mem \<Rightarrow> mem)
      else \<exists>p. a = VaStr p \<and> (case p of None \<Rightarrow> True | Some mem \<Rightarrow> terminated NUL mem))"

definition arg_typed :: "SecEnv \<Rightarrow> bool \<Rightarrow> conv_spec \<Rightarrow> va_arg \<Rightarrow> bool" where
  "arg_typed env p sp a \<longleftrightarrow>
     (if sp_type sp \<in> {CHR ''c'', CHR ''C''} then \<exists>w. a = VaInt w
      else if sp_type sp \<in> {CHR ''s'', CHR ''S''} then is_ptr a \<and> (p \<or> str_typed env sp a)
      else if sp_type sp \<in> set ''EFGefg'' then \<exists>d. a = VaDouble d
      else if long_conv sp then \<exists>w. a = VaLong w \<and> (p \<or> sint w \<noteq> -(2 ^ 63))
      else \<exists>w. a = VaInt w)"

text \<open>The arguments of one conversion: those of the asterisks and the value.\<close>

definition spec_typed :: "SecEnv \<Rightarrow> bool \<Rightarrow> conv_spec \<Rightarrow> va_arg list \<Rightarrow> bool" where
  "spec_typed env priv sp xs \<longleftrightarrow>
     (\<exists>ws ps a. xs = ws @ ps @ [a] \<and> width_typed (sp_width sp) ws \<and> prec_typed (sp_prec sp) ps \<and>
        arg_typed env (priv \<and> sp_vis sp \<noteq> VisPublic) sp a)"

lemma spec_typed_plain:
  assumes "sp_width sp = Absent" "sp_prec sp = Absent" "arg_typed env (priv \<and> sp_vis sp \<noteq> VisPublic) sp a"
  shows "spec_typed env priv sp [a]"
proof -
  have "[a] = [] @ [] @ [a] \<and> width_typed (sp_width sp) [] \<and> prec_typed (sp_prec sp) [] \<and> arg_typed env (priv \<and> sp_vis sp \<noteq> VisPublic) sp a"
    using assms by simp
  then show ?thesis unfolding spec_typed_def by blast
qed

inductive typed :: "SecEnv \<Rightarrow> bool \<Rightarrow> fmt_item list \<Rightarrow> va_arg list \<Rightarrow> bool" for env priv where
  empty: "typed env priv [] args"
| lit: "typed env priv its args \<Longrightarrow> typed env priv (Lit c # its) args"
| conv: "spec_typed env priv sp xs \<Longrightarrow> typed env priv its args \<Longrightarrow> typed env priv (Conv sp # its) (xs @ args)"

section \<open>The attributes of a conversion\<close>

definition sign_flags :: "SecFlag set" where
  "sign_flags = {SIGN, SIGN_SPACE, LEFT, LEADZERO, ALTERNATE}"

lemma SecDecodeFlags_sub: "fa_flags (SecDecodeFlags c a) \<subseteq> sign_flags \<union> fa_flags a"
  by (simp add: SecDecodeFlags_def Let_def sign_flags_def) blast

lemma fold_SecDecodeFlags:
  "fa_flags (fold SecDecodeFlags fl a) \<subseteq> sign_flags \<union> fa_flags a" "dyn_of (fold SecDecodeFlags fl a) = dyn_of a"
  "precision (fold SecDecodeFlags fl a) = precision a"
proof (induction fl arbitrary: a)
  case (Cons c fl)
  {
    case 1
    show ?case using Cons(1) [of "SecDecodeFlags c a"] SecDecodeFlags_sub [of c a] by (simp only: fold_Cons comp_apply) blast
  next
    case 2
    show ?case using Cons(2) [of "SecDecodeFlags c a"] by (simp add: SecDecodeFlags_def Let_def dyn_of_def)
  next
    case 3
    show ?case using Cons(3) [of "SecDecodeFlags c a"] by (simp add: SecDecodeFlags_def Let_def)
  }
qed auto

lemma width_attr_typed:
  assumes "width_typed f xs"
  shows "\<exists>a'. (\<forall>r. width_attr f a (xs @ r) = Some (a', r)) \<and> fa_flags a' \<subseteq> sign_flags \<union> fa_flags a \<and> precision a' = precision a \<and> dynPrecision a' = dynPrecision a \<and>
    dynWidth a' = (case f of Absent \<Rightarrow> dynWidth a | Digits ds \<Rightarrow> False | Star \<Rightarrow> True)"
  using assms by (cases f) (auto simp: add_flags_def sign_flags_def)

lemma dec_nonneg: "set ds \<subseteq> set digits \<Longrightarrow> 0 \<le> dec ds"
proof -
  have d: "\<forall>c \<in> set digits. 0 \<le> digit_of c" by code_simp
  have "0 \<le> v \<Longrightarrow> set ds \<subseteq> set digits \<Longrightarrow> 0 \<le> fold (\<lambda>c v. 10 * v + digit_of c) ds v" for v :: int
    using d by (induction ds arbitrary: v) (simp_all add: subset_iff)
  then show "set ds \<subseteq> set digits \<Longrightarrow> 0 \<le> dec ds" by (simp add: dec_def)
qed

lemma prec_attr_typed:
  assumes "prec_typed f xs" "prec_ok f" "precision a \<le> SECUREC_INT_MAX - SECUREC_FLOAT_BUFSIZE_LB" "-1 \<le> precision a"
  shows "\<exists>a'. (\<forall>r. prec_attr f a (xs @ r) = Some (a', r)) \<and> fa_flags a' = fa_flags a \<and> dynWidth a' = dynWidth a \<and>
    dynPrecision a' = (case f of Absent \<Rightarrow> dynPrecision a | Digits ds \<Rightarrow> (if ds = [] then dynPrecision a else False) | Star \<Rightarrow> True) \<and>
    precision a' \<le> SECUREC_INT_MAX - SECUREC_FLOAT_BUFSIZE_LB \<and> -1 \<le> precision a'"
  using assms dec_nonneg by (cases f) (auto intro: order_trans [of "-1" 0])

text \<open>Which flags survive a conversion depends on the format only.\<close>

definition next_dyn :: "conv_spec \<Rightarrow> dyn \<Rightarrow> dyn" where
  "next_dyn sp d =
     ((case sp_width sp of Absent \<Rightarrow> fst d | Digits ds \<Rightarrow> False | Star \<Rightarrow> True),
      (case sp_prec sp of Absent \<Rightarrow> snd d | Digits ds \<Rightarrow> (if ds = [] then snd d else False) | Star \<Rightarrow> True))"

lemma spec_attr_typed:
  assumes "width_typed (sp_width sp) ws" "prec_typed (sp_prec sp) ps" "spec_ok sp"
  shows "\<exists>a X. (\<forall>r. spec_attr sp d (ws @ ps @ r) = Some (a, r)) \<and> fa_flags a = size_flags sp \<union> X \<and> X \<subseteq> sign_flags \<and>
    dyn_of a = next_dyn sp d \<and> precision a \<le> SECUREC_INT_MAX - SECUREC_FLOAT_BUFSIZE_LB \<and> -1 \<le> precision a"
proof -
  let ?a0 = "fold SecDecodeFlags (sp_flags sp) (fresh_attr d)"
  have a0: "fa_flags ?a0 \<subseteq> sign_flags" "precision ?a0 = -1" "dynWidth ?a0 = fst d" "dynPrecision ?a0 = snd d"
    using fold_SecDecodeFlags [of "sp_flags sp" "fresh_attr d"] by (simp_all add: fresh_attr_def dyn_of_def prod_eq_iff)
  obtain a1 where a1: "\<forall>r. width_attr (sp_width sp) ?a0 (ws @ r) = Some (a1, r)"
      "fa_flags a1 \<subseteq> sign_flags \<union> fa_flags ?a0" "precision a1 = precision ?a0" "dynPrecision a1 = dynPrecision ?a0"
      "dynWidth a1 = (case sp_width sp of Absent \<Rightarrow> dynWidth ?a0 | Digits ds \<Rightarrow> False | Star \<Rightarrow> True)"
    using width_attr_typed [OF assms(1), of ?a0] by blast
  have f1: "fa_flags a1 \<subseteq> sign_flags" using a1(2) a0(1) by blast
  have p: "prec_ok (sp_prec sp)" using assms(3) by (simp add: spec_ok_def)
  have "precision a1 \<le> SECUREC_INT_MAX - SECUREC_FLOAT_BUFSIZE_LB" "-1 \<le> precision a1" using a1(3) a0(2) by simp_all
  from prec_attr_typed [OF assms(2) p this] obtain a2 where a2: "\<forall>r. prec_attr (sp_prec sp) a1 (ps @ r) = Some (a2, r)"
      "fa_flags a2 = fa_flags a1" "dynWidth a2 = dynWidth a1" "precision a2 \<le> SECUREC_INT_MAX - SECUREC_FLOAT_BUFSIZE_LB"
      "dynPrecision a2 = (case sp_prec sp of Absent \<Rightarrow> dynPrecision a1 | Digits ds \<Rightarrow> (if ds = [] then dynPrecision a1 else False) | Star \<Rightarrow> True)"
      "-1 \<le> precision a2"
    by blast
  have "dynWidth a2 = fst (next_dyn sp d)" unfolding a2(3) a1(5) a0(3) by (simp add: next_dyn_def)
  moreover have "dynPrecision a2 = snd (next_dyn sp d)" unfolding a2(5) a1(4) a0(4) by (simp add: next_dyn_def)
  ultimately have "dyn_of a2 = next_dyn sp d" by (simp add: dyn_of_def)
  moreover have "\<forall>r. spec_attr sp d (ws @ ps @ r) = Some (add_flags (size_flags sp) a2, r)"
    using a1(1) a2(1) by (simp add: spec_attr_def size_flags_def)
  ultimately show ?thesis
    using f1 a2(2,4,6) by (intro exI [of _ "add_flags (size_flags sp) a2"] exI [of _ "fa_flags a1"]) simp
qed

section \<open>Type soundness\<close>

lemma size_flags_cases: "spec_ok sp \<Longrightarrow> size_flags sp \<inter> {SIGNED, NEGATIVE, FORCE_OCTAL, POINTER} = {}"
  using size_cases [of "sp_size sp"] by (auto simp: spec_ok_def size_flags_def sizes_def)

lemma scan_terminated:
  assumes "terminated z mem" "-1 \<le> prec"
  shows "\<exists>s. scan_str z prec mem = Some s \<and> set s \<subseteq> set mem - {z}"
proof -
  let ?s = "takeWhile (\<lambda>c. c \<noteq> z) mem"
  have "?s \<noteq> mem" using assms by (auto simp: terminated_def takeWhile_eq_all_conv)
  then have lt: "length ?s < length mem"
    using length_takeWhile_le [of "\<lambda>c. c \<noteq> z" mem] takeWhile_eq_take [of "\<lambda>c. c \<noteq> z" mem] by (metis le_neq_implies_less take_all order_refl)
  have sub: "set ?s \<subseteq> set mem - {z}" by (auto dest: set_takeWhileD)
  show ?thesis
  proof (cases "0 \<le> prec \<and> nat prec \<le> length ?s")
    case True
    then show ?thesis using sub set_take_subset [of "nat prec" ?s] by (auto simp: scan_str_def Let_def)
  next
    case False
    then show ?thesis using sub lt assms by (auto simp: scan_str_def Let_def terminated_def)
  qed
qed

lemma wide_bytes_convertible: "convertible env ws \<Longrightarrow> 0 \<notin> set ws \<Longrightarrow> \<exists>s. wide_bytes env ws = Some s"
proof (induction ws)
  case (Cons w ws)
  then obtain bs s where "se_wctomb env w = Some bs" "bs \<noteq> []" "wide_bytes env ws = Some s"
    by (auto simp: convertible_def)
  then show ?case by simp
qed simp

text \<open>
  The value of a typed conversion as a function of the arguments behind its own: a result that has
  a text and does not depend on them, and its argument is consumed.
\<close>

definition fine :: "SecEnv \<Rightarrow> (va_arg list \<Rightarrow> (SecConv \<times> va_arg list) option) \<Rightarrow> bool" where
  "fine env f \<longleftrightarrow> (\<exists>cv s. (\<forall>r. f r = Some (cv, r)) \<and> conv_text env cv = Some s)"

lemma conv_wide_flags:
  assumes "fa_flags a = size_flags sp \<union> X" "X \<subseteq> sign_flags"
  shows "fa_flags (conv_wide (sp_type sp) a) \<inter> wide_flags \<noteq> {} \<longleftrightarrow> wide_conv sp"
proof -
  have "SHORT \<notin> X" "LONG \<notin> X" "WIDECHAR \<notin> X" using assms(2) by (auto simp: sign_flags_def)
  then have f: "SHORT \<in> fa_flags a \<longleftrightarrow> SHORT \<in> size_flags sp" "LONG \<in> fa_flags a \<longleftrightarrow> LONG \<in> size_flags sp"
      "WIDECHAR \<in> fa_flags a \<longleftrightarrow> WIDECHAR \<in> size_flags sp"
    unfolding assms(1) by simp_all
  have i: "A \<inter> {LONG, WIDECHAR} \<noteq> {} \<longleftrightarrow> LONG \<in> A \<or> WIDECHAR \<in> A"
      "A \<inter> {SHORT, LONG, WIDECHAR} = {} \<longleftrightarrow> SHORT \<notin> A \<and> LONG \<notin> A \<and> WIDECHAR \<notin> A" for A
    by blast+
  show ?thesis
    unfolding wide_flags_def wide_conv_def conv_wide_def default_wide_def i f
    by (simp add: f)
qed

lemma typed_s_wide:
  assumes "wide_conv sp" "str_typed env sp x" "fa_flags a \<inter> wide_flags \<noteq> {}" "-1 \<le> precision a"
  shows "\<exists>cv s. SecDecodeTypeS a x = Some cv \<and> conv_text env cv = Some s"
proof -
  obtain pt where x: "x = VaWStr pt" and t: "terminated 0 (case pt of None \<Rightarrow> wide_null | Some mem \<Rightarrow> mem)"
      "convertible env (case pt of None \<Rightarrow> wide_null | Some mem \<Rightarrow> mem)"
    using assms(1,2) unfolding str_typed_def by (simp only: if_True) blast
  obtain ws where ws: "scan_str 0 (precision a) (case pt of None \<Rightarrow> wide_null | Some mem \<Rightarrow> mem) = Some ws"
      "set ws \<subseteq> set (case pt of None \<Rightarrow> wide_null | Some mem \<Rightarrow> mem) - {0}"
    using scan_terminated [OF t(1) assms(4)] by blast
  have "convertible env ws" "0 \<notin> set ws" using t(2) ws(2) unfolding convertible_def by blast+
  then obtain s where "wide_bytes env ws = Some s" using wide_bytes_convertible by blast
  then have "conv_text env (Output (a\<lparr>bufferIsWide := True\<rparr>) [] (Wide ws)) =
      Some (field_text (fa_flags a) (fldWidth a) (sign_prefix (fa_flags a) []) (length ws) s)" by simp
  moreover have "SecDecodeTypeS a x = Some (Output (a\<lparr>bufferIsWide := True\<rparr>) [] (Wide ws))"
    using ws(1) assms(3) by (simp add: SecDecodeTypeS_def x)
  ultimately show ?thesis by blast
qed

lemma typed_s_narrow:
  assumes "\<not> wide_conv sp" "str_typed env sp x" "fa_flags a \<inter> wide_flags = {}" "-1 \<le> precision a"
  shows "\<exists>cv s. SecDecodeTypeS a x = Some cv \<and> conv_text env cv = Some s"
proof -
  obtain pt where x: "x = VaStr pt" and t: "case pt of None \<Rightarrow> True | Some mem \<Rightarrow> terminated NUL mem"
    using assms(1,2) unfolding str_typed_def by (simp only: if_False) blast
  have "terminated NUL (case pt of None \<Rightarrow> ''(null)'' @ [NUL, NUL] | Some mem \<Rightarrow> mem)"
    using t by (cases pt) (simp_all add: terminated_def)
  from scan_terminated [OF this assms(4)] obtain s
    where s: "scan_str NUL (precision a) (case pt of None \<Rightarrow> ''(null)'' @ [NUL, NUL] | Some mem \<Rightarrow> mem) = Some s" by blast
  have "SecDecodeTypeS a x = Some (Output a [] (Narrow s))" using s assms(3) by (simp add: SecDecodeTypeS_def x)
  then show ?thesis by simp
qed

lemma conv_wide_precision: "precision (conv_wide ch a) = precision a"
  by (simp add: conv_wide_def default_wide_def add_flags_def)

lemma typed_s:
  assumes "sp_type sp \<in> {CHR ''s'', CHR ''S''}" "is_ptr x" "p \<or> str_typed env sp x"
    and a: "fa_flags a = size_flags sp \<union> X" "X \<subseteq> sign_flags" "-1 \<le> precision a"
  shows "fine env (\<lambda>r. SecConvert env p q (sp_type sp) a (x # r))"
proof (cases p)
  case True
  then show ?thesis using assms(2) unfolding SecConvert_s [OF assms(1)] by (simp add: fine_def)
next
  case False
  then have "\<exists>cv s. SecDecodeTypeS (conv_wide (sp_type sp) a) x = Some cv \<and> conv_text env cv = Some s"
    using assms(3) conv_wide_flags [OF a(1,2)] typed_s_wide typed_s_narrow a(3) conv_wide_precision by metis
  then show ?thesis using False assms(2) unfolding SecConvert_s [OF assms(1)] by (auto simp: fine_def)
qed

lemma typed_c:
  "sp_type sp \<in> {CHR ''c'', CHR ''C''} \<Longrightarrow> fine env (\<lambda>r. SecConvert env p q (sp_type sp) a (VaInt w # r))"
  unfolding SecConvert_c by (cases "se_wctomb env w"; cases p) (simp_all add: fine_def SecDecodeTypeC_def Let_def)

text \<open>
  A public float conversion is handed to the system, which has to be asked for the arguments it is
  given: the flags of a width and a precision by asterisk survive a conversion without them.
\<close>

definition dyn_count :: "dyn \<Rightarrow> nat" where
  "dyn_count d = of_bool (fst d) + of_bool (snd d)"

definition float_typed :: "bool \<Rightarrow> conv_spec \<Rightarrow> dyn \<Rightarrow> bool" where
  "float_typed p sp d \<longleftrightarrow>
     p \<or> sp_type sp \<notin> set ''EFGefg'' \<or> sprintf_typed (float_format (rev (spec_tail sp))) (dyn_count (next_dyn sp d))"

fun floats_typed :: "bool \<Rightarrow> dyn \<Rightarrow> fmt_item list \<Rightarrow> bool" where
  "floats_typed priv d [] = True"
| "floats_typed priv d (Lit c # its) = floats_typed priv d its"
| "floats_typed priv d (Conv sp # its) =
     (float_typed (priv \<and> sp_vis sp \<noteq> VisPublic) sp d \<and> floats_typed priv (next_dyn sp d) its)"

lemma length_dyn_ints: "length (dyn_ints prec a) = dyn_count (dyn_of a)"
  by (simp add: dyn_ints_def dyn_count_def dyn_of_def)

lemma float_defined:
  assumes "sp_type sp \<in> set ''EFGefg''" "precision a \<le> SECUREC_INT_MAX - SECUREC_FLOAT_BUFSIZE_LB" "\<forall>n. se_malloc env n"
  shows "SecConvert env p q (sp_type sp) a (VaDouble d # r) =
    (if p then Some (Private, r)
     else map_option (\<lambda>cv. (cv, r)) (float_output env (float_buffer_len (max (float_bufsize a + float_precision (sp_type sp) a) (fldWidth a)))
            (float_format q) (float_precision (sp_type sp) a) a d))"
proof -
  have "\<not> float_precision (sp_type sp) a > SECUREC_INT_MAX - float_bufsize a"
    using assms(2) by (simp add: float_precision_def float_bufsize_def)
  then show ?thesis
    using assms(3) unfolding SecConvert_f [OF assms(1)] SecDecodeFloat_def Let_def by simp
qed

lemma typed_f:
  assumes "sp_type sp \<in> set ''EFGefg''" "precision a \<le> SECUREC_INT_MAX - SECUREC_FLOAT_BUFSIZE_LB" "\<forall>n. se_malloc env n"
    and "p \<or> sprintf_typed (float_format q) (dyn_count (dyn_of a))"
  shows "fine env (\<lambda>r. SecConvert env p q (sp_type sp) a (VaDouble d # r))"
proof -
  have f: "\<exists>cv s. float_output env n (float_format q) pr a d = Some cv \<and> conv_text env cv = Some s" if "\<not> p" for n pr
    using that assms(4) by (auto simp: float_output_def length_dyn_ints split: option.splits)
  then show ?thesis
    using float_defined [OF assms(1-3), of p q d] by (cases p) (auto simp: fine_def)
qed

lemma int_kind_flags:
  assumes "fa_flags a = size_flags sp \<union> X" "X \<subseteq> sign_flags" "int_kind (sp_type sp) a = (r, ds, pre, a')" "sp_type sp \<in> set ''pXxiduo''"
  shows "fa_flags a' \<inter> {I64, LONGLONG, LONG} \<noteq> {} \<longleftrightarrow> long_conv sp"
proof -
  have "X \<inter> {I64, LONGLONG, LONG} = {}" using assms(2) by (auto simp: sign_flags_def)
  then have "fa_flags a \<inter> {I64, LONGLONG, LONG} = size_flags sp \<inter> {I64, LONGLONG, LONG}" using assms(1) by blast
  moreover have "fa_flags a' \<inter> {I64, LONGLONG, LONG} = (if sp_type sp = CHR ''p'' then insert I64 (fa_flags a \<inter> {I64, LONGLONG, LONG}) else fa_flags a \<inter> {I64, LONGLONG, LONG})"
    using assms(3,4) unfolding list.set by (elim insertE emptyE) (auto simp: int_kind_def add_flags_def split: if_splits)
  ultimately show ?thesis by (simp add: long_conv_def)
qed

lemma read_char_bound: "- 128 \<le> fst (read_char b fs w)"
proof -
  have "- 128 \<le> sint (ucast w :: u8)" using sint_greater_eq [of "ucast w :: u8"] by simp
  moreover have "- 128 \<le> uint (x :: u8)" "- 128 \<le> uint (x :: u8) + 1" for x
    using uint_ge_0 [of x] by linarith+
  ultimately show ?thesis unfolding read_char_def Let_def by simp
qed

lemma read_int_short:
  assumes "fs \<inter> {I64, LONGLONG, LONG} = {}"
  shows "\<exists>l fs'. (\<forall>r. read_int env fs (VaInt w # r) = Some ((l, fs'), r)) \<and> l \<noteq> -(2 ^ 63)"
proof -
  have b: "- (2 ^ 31) \<le> sint w" "- (2 ^ 15) \<le> sint (ucast w :: u16)"
    using sint_greater_eq [of w] sint_greater_eq [of "ucast w :: u16"] by simp_all
  have u: "uint w \<noteq> - 9223372036854775808" "uint (ucast w :: u16) \<noteq> - 9223372036854775808"
    using uint_ge_0 [of w] uint_ge_0 [of "ucast w :: u16"] by linarith+
  have "I64 \<notin> fs \<and> LONGLONG \<notin> fs \<and> LONG \<notin> fs" using assms by blast
  then show ?thesis
    using b u read_char_bound [of "se_char_signed env" fs w] by (cases "read_char (se_char_signed env) fs w") (auto simp: read_int_def)
qed

lemma conv_text_int: "\<exists>s. conv_text env (int_output rd ds pre a fs l) = Some s"
  by (simp add: int_output_def Let_def)

lemma OutputInt_fine:
  assumes "\<forall>r. read_int env (fa_flags a) (x # r) = Some ((l, fs), r)" "p \<or> l \<noteq> -(2 ^ 63)"
  shows "fine env (\<lambda>r. OutputInt env p rd ds pre a (x # r))"
proof (cases p)
  case True
  then show ?thesis using assms(1) by (simp add: OutputInt_def fine_def)
next
  case False
  then have "OutputInt env p rd ds pre a (x # r) = Some (int_output rd ds pre a fs l, r)" for r
    using assms by (simp add: OutputInt_def)
  then show ?thesis using conv_text_int unfolding fine_def by blast
qed

lemma typed_int:
  assumes "sp_type sp \<in> set ''pXxiduo''" "if long_conv sp then \<exists>w. x = VaLong w \<and> (p \<or> sint w \<noteq> -(2 ^ 63)) else \<exists>w. x = VaInt w"
    and "fa_flags a = size_flags sp \<union> X" "X \<subseteq> sign_flags"
  shows "fine env (\<lambda>r. SecConvert env p q (sp_type sp) a (x # r))"
proof -
  obtain rd ds pre a' where k: "int_kind (sp_type sp) a = (rd, ds, pre, a')" by (metis prod_cases4)
  note l = int_kind_flags [OF assms(3,4) k assms(1)]
  have "\<exists>v fs. (\<forall>r. read_int env (fa_flags a') (x # r) = Some ((v, fs), r)) \<and> (p \<or> v \<noteq> -(2 ^ 63))"
  proof (cases "long_conv sp")
    case True
    then obtain w where "x = VaLong w" "p \<or> sint w \<noteq> -(2 ^ 63)" using assms(2) by auto
    moreover have "I64 \<in> fa_flags a' \<or> LONGLONG \<in> fa_flags a' \<or> LONG \<in> fa_flags a'" using l True by blast
    ultimately show ?thesis by (simp add: read_int_def)
  next
    case False
    then show ?thesis using l assms(2) read_int_short by fastforce
  qed
  then show ?thesis unfolding SecConvert_int [OF assms(1)] k prod.case using OutputInt_fine by metis
qed

lemma arg_typed_cases:
  "sp_type sp \<in> {CHR ''c'', CHR ''C''} \<Longrightarrow> arg_typed env p sp a \<longleftrightarrow> (\<exists>w. a = VaInt w)"
  "sp_type sp \<in> {CHR ''s'', CHR ''S''} \<Longrightarrow> arg_typed env p sp a \<longleftrightarrow> is_ptr a \<and> (p \<or> str_typed env sp a)"
  "sp_type sp \<in> set ''EFGefg'' \<Longrightarrow> arg_typed env p sp a \<longleftrightarrow> (\<exists>d. a = VaDouble d)"
  "sp_type sp \<in> set ''pXxiduo'' \<Longrightarrow> arg_typed env p sp a \<longleftrightarrow>
     (if long_conv sp then \<exists>w. a = VaLong w \<and> (p \<or> sint w \<noteq> -(2 ^ 63)) else \<exists>w. a = VaInt w)"
  unfolding list.set by (elim insertE emptyE; simp add: arg_typed_def)+

lemma SecConvert_typed:
  assumes "sp_type sp \<in> set ''cCsSeEfFgGpxXdiuo''" "arg_typed env p sp x" "\<forall>n. se_malloc env n"
    and a: "fa_flags a = size_flags sp \<union> X" "X \<subseteq> sign_flags" "precision a \<le> SECUREC_INT_MAX - SECUREC_FLOAT_BUFSIZE_LB" "-1 \<le> precision a"
    and f: "p \<or> sp_type sp \<notin> set ''EFGefg'' \<or> sprintf_typed (float_format q) (dyn_count (dyn_of a))"
  shows "fine env (\<lambda>r. SecConvert env p q (sp_type sp) a (x # r))"
proof -
  from assms(1) consider "sp_type sp \<in> {CHR ''c'', CHR ''C''}" | "sp_type sp \<in> {CHR ''s'', CHR ''S''}"
    | "sp_type sp \<in> set ''EFGefg''" | "sp_type sp \<in> set ''pXxiduo''"
    unfolding type_groups by blast
  then show ?thesis
  proof cases
    case 1
    then show ?thesis using typed_c assms(2) unfolding arg_typed_cases(1) [OF 1] by blast
  next
    case 2
    then show ?thesis using typed_s [OF 2 _ _ a(1,2,4)] assms(2) unfolding arg_typed_cases(2) [OF 2] by blast
  next
    case 3
    then show ?thesis using typed_f [OF 3 a(3) assms(3)] f assms(2) unfolding arg_typed_cases(3) [OF 3] by blast
  next
    case 4
    then show ?thesis using typed_int [OF 4 _ a(1,2)] assms(2) unfolding arg_typed_cases(4) [OF 4] by blast
  qed
qed

lemma spec_conv_typed:
  assumes "spec_ok sp" "spec_typed env priv sp xs" "\<forall>n. se_malloc env n" "float_typed (priv \<and> sp_vis sp \<noteq> VisPublic) sp d"
  shows "\<exists>cv s. (\<forall>r. spec_conv env priv sp d (xs @ r) = Some (cv, next_dyn sp d, r)) \<and> conv_text env cv = Some s"
proof -
  let ?p = "priv \<and> sp_vis sp \<noteq> VisPublic"
  obtain ws ps x where xs: "xs = ws @ ps @ [x]" "width_typed (sp_width sp) ws" "prec_typed (sp_prec sp) ps" "arg_typed env ?p sp x"
    using assms(2) unfolding spec_typed_def by blast
  obtain a X where a: "\<forall>r. spec_attr sp d (ws @ ps @ r) = Some (a, r)" "fa_flags a = size_flags sp \<union> X" "X \<subseteq> sign_flags"
      "dyn_of a = next_dyn sp d" "precision a \<le> SECUREC_INT_MAX - SECUREC_FLOAT_BUFSIZE_LB" "-1 \<le> precision a"
    using spec_attr_typed [OF xs(2,3) assms(1)] by blast
  have "sp_type sp \<in> set ''cCsSeEfFgGpxXdiuo''" using assms(1) unfolding spec_ok_def by blast
  from SecConvert_typed [OF this xs(4) assms(3) a(2,3,5,6), of "rev (spec_tail sp)"]
  have "fine env (\<lambda>r. SecConvert env ?p (rev (spec_tail sp)) (sp_type sp) a (x # r))"
    using assms(4) unfolding float_typed_def a(4) by blast
  then show ?thesis using a(1,4) xs(1) by (auto simp: fine_def spec_conv_def)
qed

text \<open>Otherwise the float conversion has undefined behaviour, whatever its arguments.\<close>

lemma spec_conv_stale:
  assumes "spec_ok sp" "spec_typed env priv sp xs" "\<forall>n. se_malloc env n" "\<not> float_typed (priv \<and> sp_vis sp \<noteq> VisPublic) sp d"
  shows "spec_conv env priv sp d (xs @ r) = None"
proof -
  let ?p = "priv \<and> sp_vis sp \<noteq> VisPublic"
  have f: "\<not> ?p" "sp_type sp \<in> set ''EFGefg''" "\<not> sprintf_typed (float_format (rev (spec_tail sp))) (dyn_count (next_dyn sp d))"
    using assms(4) unfolding float_typed_def by blast+
  obtain ws ps x where xs: "xs = ws @ ps @ [VaDouble x]" "width_typed (sp_width sp) ws" "prec_typed (sp_prec sp) ps"
    using assms(2) unfolding spec_typed_def arg_typed_cases(3) [OF f(2)] by blast
  obtain a X where a: "\<forall>r. spec_attr sp d (ws @ ps @ r) = Some (a, r)" "dyn_of a = next_dyn sp d"
      "precision a \<le> SECUREC_INT_MAX - SECUREC_FLOAT_BUFSIZE_LB"
    using spec_attr_typed [OF xs(2,3) assms(1)] by blast
  have "SecConvert env ?p (rev (spec_tail sp)) (sp_type sp) a (VaDouble x # r) = None"
    unfolding float_defined [OF f(2) a(3) assms(3)] if_not_P [OF f(1)] float_output_def length_dyn_ints a(2) if_P [OF f(3)] by simp
  then show ?thesis using a(1) xs(1) by (simp add: spec_conv_def)
qed

lemma items_text_typed:
  assumes "typed env priv its args" "list_all item_ok its" "\<forall>n. se_malloc env n" "floats_typed priv d its"
  shows "\<exists>s. items_text env priv its d args = Some s"
  using assms(1,2,4)
proof (induction arbitrary: d)
  case (conv sp xs its args)
  have sp: "spec_ok sp" "float_typed (priv \<and> sp_vis sp \<noteq> VisPublic) sp d" using conv.prems by simp_all
  from spec_conv_typed [OF sp(1) conv.hyps(1) assms(3) sp(2)] obtain cv s
    where c: "spec_conv env priv sp d (xs @ args) = Some (cv, next_dyn sp d, args)" "conv_text env cv = Some s" by blast
  moreover obtain s' where "items_text env priv its (next_dyn sp d) args = Some s'" using conv.IH [of "next_dyn sp d"] conv.prems by auto
  ultimately show ?case by simp
qed auto

lemma vsnprintfp_cong:
  shows "(\<And>k. SecVsnprintfPImpl env dest (Suc k) priv fmt as = SecVsnprintfPImpl env dest (Suc k) priv fmt bs) \<Longrightarrow>
      vsnprintfp_s env dest destMax count priv (Some fmt) as = vsnprintfp_s env dest destMax count priv (Some fmt) bs" (is "PROP ?A \<Longrightarrow> _")
    and "(\<And>k. \<exists>x. SecVsnprintfPImpl env dest (Suc k) priv fmt as = Some x) \<Longrightarrow>
      \<exists>x. vsnprintfp_s env dest destMax count priv (Some fmt) as = Some x" (is "PROP ?B \<Longrightarrow> _")
proof -
  have n: "PROP ?A \<Longrightarrow> SecVsnprintfPImpl env dest n priv fmt as = SecVsnprintfPImpl env dest n priv fmt bs"
      "PROP ?B \<Longrightarrow> \<exists>x. SecVsnprintfPImpl env dest n priv fmt as = Some x" if "n \<noteq> 0" for n
    using that by (cases n; simp)+
  have c: "unat (count + 1) \<noteq> 0" if "count < destMax"
  proof -
    have "unat count < unat destMax" using that by (simp add: word_less_nat_alt)
    moreover have "unat destMax < 2 ^ 64" using unsigned_less [of destMax] by simp
    ultimately have "unat (count + 1) = Suc (unat count)" by (simp add: unat_word_ariths)
    then show ?thesis by simp
  qed
  have d: "destMax \<noteq> 0 \<Longrightarrow> unat destMax \<noteq> 0" by (simp add: unat_eq_zero)
  show "PROP ?A \<Longrightarrow> vsnprintfp_s env dest destMax count priv (Some fmt) as = vsnprintfp_s env dest destMax count priv (Some fmt) bs"
    using n(1) [OF c] n(1) [OF d] by (simp add: vsnprintfp_s_def)
  show "PROP ?B \<Longrightarrow> \<exists>x. vsnprintfp_s env dest destMax count priv (Some fmt) as = Some x"
    using n(2) [OF c] n(2) [OF d] by (auto simp: vsnprintfp_s_def)
qed

section \<open>Privacy\<close>

lemma SecConvert_private:
  assumes "SecConvert env True q ch a args = Some (cv, r)" "ch \<in> set ''cCsSeEfFgGpxXdiuo''"
  shows "cv = Private"
proof -
  from assms(2) consider "ch \<in> {CHR ''c'', CHR ''C''}" | "ch \<in> {CHR ''s'', CHR ''S''}" | "ch \<in> set ''EFGefg''" | "ch \<in> set ''pXxiduo''"
    unfolding type_groups by blast
  then show ?thesis
  proof cases
    case 1
    then show ?thesis using assms(1) unfolding SecConvert_c [OF 1] by (auto split: list.splits va_arg.splits)
  next
    case 2
    then show ?thesis using assms(1) unfolding SecConvert_s [OF 2] by (auto split: list.splits if_split_asm)
  next
    case 3
    then show ?thesis using assms(1) take_double_Some unfolding SecConvert_f [OF 3] SecDecodeFloat_def by auto
  next
    case 4
    then show ?thesis using assms(1) unfolding SecConvert_int [OF 4] by (auto simp: OutputInt_def split: prod.splits option.splits)
  qed
qed

text \<open>The same format with arguments that agree where the format says public.\<close>

inductive low_eq :: "SecEnv \<Rightarrow> fmt_item list \<Rightarrow> va_arg list \<Rightarrow> va_arg list \<Rightarrow> bool" for env where
  empty: "low_eq env [] as bs"
| lit: "low_eq env its as bs \<Longrightarrow> low_eq env (Lit c # its) as bs"
| pub: "sp_vis sp = VisPublic \<Longrightarrow> spec_typed env True sp xs \<Longrightarrow> low_eq env its as bs \<Longrightarrow>
    low_eq env (Conv sp # its) (xs @ as) (xs @ bs)"
| priv: "sp_vis sp \<noteq> VisPublic \<Longrightarrow> spec_typed env True sp xs \<Longrightarrow> spec_typed env True sp ys \<Longrightarrow> low_eq env its as bs \<Longrightarrow>
    low_eq env (Conv sp # its) (xs @ as) (ys @ bs)"

lemma spec_conv_private:
  assumes "spec_ok sp" "spec_typed env True sp xs" "\<forall>n. se_malloc env n" "sp_vis sp \<noteq> VisPublic"
  shows "spec_conv env True sp d (xs @ r) = Some (Private, next_dyn sp d, r)"
proof -
  obtain cv where c: "spec_conv env True sp d (xs @ r) = Some (cv, next_dyn sp d, r)"
    using spec_conv_typed [OF assms(1,2,3), of d] assms(4) by (auto simp: float_typed_def)
  then obtain a r1 where "SecConvert env True (rev (spec_tail sp)) (sp_type sp) a r1 = Some (cv, r)"
    using assms(4) by (auto simp: spec_conv_def bind_eq_Some_conv)
  then have "cv = Private" using SecConvert_private assms(1) unfolding spec_ok_def by blast
  then show ?thesis using c by simp
qed

text \<open>
  Two machines that have written the same and have arguments that agree where the format says
  public end alike, also where a float conversion is undefined.
\<close>

definition same_output :: "SecState \<Rightarrow> SecState \<Rightarrow> bool" where
  "same_output m n \<longleftrightarrow> ss_state m \<in> {STAT_NORMAL, STAT_TYPE} \<and> ss_state n \<in> {STAT_NORMAL, STAT_TYPE} \<and>
     ss_out m = ss_out n \<and> dyn_of (ss_attr m) = dyn_of (ss_attr n)"

lemma loop_conv_low:
  assumes "spec_ok sp" "same_output m n" "snd (ss_out m) \<ge> 0"
    and "spec_conv env True sp (dyn_of (ss_attr m)) (ss_args m) = map_option (\<lambda>(cv, d). (cv, d, as)) c"
    and "spec_conv env True sp (dyn_of (ss_attr m)) (ss_args n) = map_option (\<lambda>(cv, d). (cv, d, bs)) c"
    and IH: "\<And>m n. same_output m n \<Longrightarrow> ss_args m = as \<Longrightarrow> ss_args n = bs \<Longrightarrow> SecLoop env True fmt m = SecLoop env True fmt n"
  shows "SecLoop env True (spec_str sp @ fmt) m = SecLoop env True (spec_str sp @ fmt) n"
proof -
  have st: "ss_state m \<in> {STAT_NORMAL, STAT_TYPE}" "ss_state n \<in> {STAT_NORMAL, STAT_TYPE}" "ss_out n = ss_out m"
      "dyn_of (ss_attr n) = dyn_of (ss_attr m)" using assms(2) by (simp_all add: same_output_def)
  have l: "ends_like env True (spec_str sp @ fmt) m fmt (map_option (\<lambda>(cv, d). (cv, d, as)) c)"
      "ends_like env True (spec_str sp @ fmt) n fmt (map_option (\<lambda>(cv, d). (cv, d, bs)) c)"
    using loop_spec [OF assms(1) _ st(1), of env True fmt] loop_spec [OF assms(1) _ st(2), of env True fmt] assms(3-5) st(3,4) by simp_all
  show ?thesis
  proof (cases c)
    case None
    then show ?thesis using l by (simp add: ends_like_def)
  next
    case (Some x)
    then obtain m' n' where "SecLoop env True (spec_str sp @ fmt) m = SecLoop env True fmt m'" "SecLoop env True (spec_str sp @ fmt) n = SecLoop env True fmt n'"
        "same_output m' n'" "ss_args m' = as" "ss_args n' = bs"
      using l st(3) by (cases x) (auto simp: ends_like_def same_output_def)
    then show ?thesis using IH by simp
  qed
qed

lemma loop_lit_low:
  assumes "same_output m n" "snd (ss_out m) \<ge> 0"
  shows "\<exists>m' n'. SecLoop env priv (item_str (Lit c) @ fmt) m = SecLoop env priv fmt m' \<and> SecLoop env priv (item_str (Lit c) @ fmt) n = SecLoop env priv fmt n' \<and>
    same_output m' n' \<and> ss_args m' = ss_args m \<and> ss_args n' = ss_args n"
proof -
  have l: "\<exists>m'. SecLoop env priv (item_str (Lit c) @ fmt) m = SecLoop env priv fmt m' \<and> ss_state m' = STAT_NORMAL \<and>
      ss_out m' = write_normal c (ss_out m) \<and> ss_args m' = ss_args m \<and> dyn_of (ss_attr m') = dyn_of (ss_attr m)"
    if "snd (ss_out m) \<ge> 0" "ss_state m \<in> {STAT_NORMAL, STAT_TYPE}" for m
    using loop_percent_literal [OF that, of env priv fmt] loop_literal [OF that, of c env priv fmt] by (cases "c = CHR ''%''") auto
  have "snd (ss_out n) \<ge> 0" "ss_state m \<in> {STAT_NORMAL, STAT_TYPE}" "ss_state n \<in> {STAT_NORMAL, STAT_TYPE}"
    using assms by (simp_all add: same_output_def)
  from l [OF assms(2) this(2)] l [OF this(1,3)] obtain m' n'
    where "SecLoop env priv (item_str (Lit c) @ fmt) m = SecLoop env priv fmt m'" "SecLoop env priv (item_str (Lit c) @ fmt) n = SecLoop env priv fmt n'"
      "ss_args m' = ss_args m" "ss_args n' = ss_args n"
      and x: "ss_state m' = STAT_NORMAL" "ss_out m' = write_normal c (ss_out m)" "dyn_of (ss_attr m') = dyn_of (ss_attr m)"
        "ss_state n' = STAT_NORMAL" "ss_out n' = write_normal c (ss_out n)" "dyn_of (ss_attr n') = dyn_of (ss_attr n)" by blast
  moreover have "same_output m' n'" using assms(1) by (simp add: same_output_def x)
  ultimately show ?thesis by blast
qed

lemma loop_stopped_low: "same_output m n \<Longrightarrow> snd (ss_out m) < 0 \<Longrightarrow> SecLoop env priv fmt m = SecLoop env priv fmt n"
  using loop_stopped [of m] loop_stopped [of n] by (simp add: same_output_def)

lemma loop_low:
  assumes "low_eq env its as bs" "list_all item_ok its" "\<forall>n. se_malloc env n"
    and "same_output m n" "ss_args m = as" "ss_args n = bs"
  shows "SecLoop env True (items_str its) m = SecLoop env True (items_str its) n"
  using assms(1,2,4-6)
proof (induction arbitrary: m n)
  case (empty as bs)
  then show ?case by (auto simp: SecLoop.simps same_output_def)
next
  case (lit its as bs c)
  show ?case
  proof (cases "snd (ss_out m) < 0")
    case False
    then obtain m' n' where "SecLoop env True (item_str (Lit c) @ items_str its) m = SecLoop env True (items_str its) m'"
        "SecLoop env True (item_str (Lit c) @ items_str its) n = SecLoop env True (items_str its) n'"
        "same_output m' n'" "ss_args m' = as" "ss_args n' = bs"
      using loop_lit_low [OF lit.prems(2), of env True c "items_str its"] lit.prems(3,4) by auto
    then show ?thesis using lit.IH lit.prems(1) by simp
  qed (rule loop_stopped_low [OF lit.prems(2)])
next
  case (pub sp xs its as bs)
  have ok: "spec_ok sp" "list_all item_ok its" using pub.prems(1) by simp_all
  show ?case
  proof (cases "snd (ss_out m) < 0")
    case False
    then have out: "snd (ss_out m) \<ge> 0" by simp
    have "\<exists>c. \<forall>r. spec_conv env True sp d (xs @ r) = map_option (\<lambda>(cv, d). (cv, d, r)) c" for d
    proof (cases "float_typed (True \<and> sp_vis sp \<noteq> VisPublic) sp d")
      case True
      from spec_conv_typed [OF ok(1) pub.hyps(2) assms(3) this] obtain cv
        where "\<forall>r. spec_conv env True sp d (xs @ r) = Some (cv, next_dyn sp d, r)" by blast
      then show ?thesis by (intro exI [of _ "Some (cv, next_dyn sp d)"]) simp
    next
      case False
      from spec_conv_stale [OF ok(1) pub.hyps(2) assms(3) this] show ?thesis by (intro exI [of _ None]) simp
    qed
    then obtain c where "\<forall>r. spec_conv env True sp (dyn_of (ss_attr m)) (xs @ r) = map_option (\<lambda>(cv, d). (cv, d, r)) c" by blast
    then have "SecLoop env True (spec_str sp @ items_str its) m = SecLoop env True (spec_str sp @ items_str its) n"
      using pub.prems(3,4) by (intro loop_conv_low [OF ok(1) pub.prems(2) out _ _ pub.IH [OF ok(2)]]) simp_all
    then show ?thesis by simp
  qed (rule loop_stopped_low [OF pub.prems(2)])
next
  case (priv sp xs ys its as bs)
  have ok: "spec_ok sp" "list_all item_ok its" using priv.prems(1) by simp_all
  show ?case
  proof (cases "snd (ss_out m) < 0")
    case False
    then have out: "snd (ss_out m) \<ge> 0" by simp
    note p = spec_conv_private [OF ok(1) _ assms(3) priv.hyps(1)]
    have "SecLoop env True (spec_str sp @ items_str its) m = SecLoop env True (spec_str sp @ items_str its) n"
      using priv.prems(3,4) p [OF priv.hyps(2)] p [OF priv.hyps(3)]
      by (intro loop_conv_low [OF ok(1) priv.prems(2) out _ _ priv.IH [OF ok(2)], of _ "Some (Private, next_dyn sp (dyn_of (ss_attr m)))"]) simp_all
    then show ?thesis by simp
  qed (rule loop_stopped_low [OF priv.prems(2)])
qed

lemma vsnprintfp_low:
  assumes "low_eq env its as bs" "list_all item_ok its" "\<forall>n. se_malloc env n"
  shows "vsnprintfp_s env dest destMax count True (Some (items_str its)) as = vsnprintfp_s env dest destMax count True (Some (items_str its)) bs"
proof (rule vsnprintfp_cong(1))
  show "SecVsnprintfPImpl env dest (Suc k) True (items_str its) as = SecVsnprintfPImpl env dest (Suc k) True (items_str its) bs" for k
  proof -
    let ?s = "\<lparr>ps_count = int (Suc k), ps_cur = []\<rparr>"
    have "SecLoop env True (items_str its) (SecState_new ?s as) = SecLoop env True (items_str its) (SecState_new ?s bs)"
      by (rule loop_low [OF assms]) (simp_all add: same_output_def SecState_new_def)
    then show ?thesis by (simp add: SecVsnprintfPImpl_def SecOutputPS_def)
  qed
qed



text \<open>
  The flags of a width by asterisk are not reset: the number of the second conversion is printed
  through a call that passes the width of the first one where a \<open>double\<close> is read.
\<close>

lemma Impl_undefined:
  assumes "spec_ok sp" "spec_ok sp'" "spec_conv env priv sp (False, False) args = Some (cv, d, r)" "conv_text env cv = Some s"
    and "length s \<le> k" "spec_conv env priv sp' d r = None"
  shows "SecVsnprintfPImpl env dest (Suc k) priv (spec_str sp @ spec_str sp' @ fmt) args = None"
proof -
  let ?m = "SecState_new \<lparr>ps_count = int (Suc k), ps_cur = []\<rparr> args"
  have m: "snd (ss_out ?m) \<ge> 0" "ss_state ?m \<in> {STAT_NORMAL, STAT_TYPE}" "dyn_of (ss_attr ?m) = (False, False)" "ss_args ?m = args"
      "stream_at (Suc k) [] (ss_out ?m)"
    using stream_at_new [of "Suc k"] by (simp_all add: SecState_new_def dyn_of_def)
  obtain m' where m': "SecLoop env priv (spec_str sp @ spec_str sp' @ fmt) ?m = SecLoop env priv (spec_str sp' @ fmt) m'" "ss_state m' = STAT_TYPE"
      "ss_out m' = write_conv env cv (ss_out ?m)" "ss_args m' = r" "dyn_of (ss_attr m') = d"
    using loop_spec [OF assms(1) m(1,2), of env priv "spec_str sp' @ fmt"] assms(3) m(3,4) by (auto simp: ends_like_def)
  have "stream_at (Suc k) s (ss_out m')" using write_conv_at [OF m(5) assms(4)] m'(3) by simp
  then have "snd (ss_out m') \<ge> 0" using stream_at_neg assms(5) by fastforce
  then have "SecLoop env priv (spec_str sp' @ fmt) m' = None"
    using loop_spec [OF assms(2), of m' env priv fmt] m' assms(6) by (simp add: ends_like_def)
  then show ?thesis using m'(1) by (simp add: SecVsnprintfPImpl_def SecOutputPS_def)
qed

lemma stale_width_undefined:
  assumes "\<forall>n. se_malloc env n" "sint w \<noteq> -(2 ^ 31)"
  shows "\<exists>n. \<forall>k \<ge> n. SecVsnprintfPImpl env dest (Suc k) priv ''%{public}*d%{public}f'' [VaInt w, VaInt v, VaDouble x] = None"
proof -
  let ?d = "\<lparr>sp_vis = VisPublic, sp_flags = [], sp_width = Star, sp_prec = Absent, sp_size = [], sp_type = CHR ''d''\<rparr>"
  let ?f = "\<lparr>sp_vis = VisPublic, sp_flags = [], sp_width = Absent, sp_prec = Absent, sp_size = [], sp_type = CHR ''f''\<rparr>"
  have ok: "spec_ok ?d" "spec_ok ?f" "spec_str ?d @ spec_str ?f @ [] = ''%{public}*d%{public}f''" by code_simp+
  have fl: "float_typed (priv \<and> sp_vis ?d \<noteq> VisPublic) ?d (False, False)" "\<not> float_typed (priv \<and> sp_vis ?f \<noteq> VisPublic) ?f (next_dyn ?d (False, False))"
    by (simp_all add: float_typed_def next_dyn_def sprintf_typed_def dyn_count_def float_format_def spec_tail_def)
  have t: "spec_typed env priv ?d [VaInt w, VaInt v]"
    unfolding spec_typed_def using assms(2)
    by (intro exI [of _ "[VaInt w]"] exI [of _ "[]"] exI [of _ "VaInt v"]) (simp add: arg_typed_def long_conv_def size_flags_def sizes_def)
  have t': "spec_typed env priv ?f [VaDouble x]" by (rule spec_typed_plain) (simp_all add: arg_typed_def)
  obtain cv s where cv: "\<forall>r. spec_conv env priv ?d (False, False) ([VaInt w, VaInt v] @ r) = Some (cv, next_dyn ?d (False, False), r)" "conv_text env cv = Some s"
    using spec_conv_typed [OF ok(1) t assms(1) fl(1)] by blast
  have "spec_conv env priv ?f (next_dyn ?d (False, False)) ([VaDouble x] @ []) = None"
    by (rule spec_conv_stale [OF ok(2) t' assms(1) fl(2)])
  from Impl_undefined [OF ok(1,2) cv(1) [rule_format] cv(2) _ this]
  have "SecVsnprintfPImpl env dest (Suc k) priv (spec_str ?d @ spec_str ?f @ []) ([VaInt w, VaInt v] @ [VaDouble x] @ []) = None" if "length s \<le> k" for k
    using that by blast
  then show ?thesis unfolding ok(3) by auto
qed

text \<open>
  Arguments that are not public stay private. With privacy on, two calls with the same format
  whose arguments agree on every conversion marked \<open>{public}\<close> return the same value and leave the
  same bytes in the destination: neither the values nor the widths of the other conversions, nor the
  lengths of their strings, can be seen in the log. Allocations have to succeed.
\<close>

theorem format_private:
  assumes "low_eq env its as bs" "list_all item_ok its" "\<forall>n. se_malloc env n"
  shows "vsnprintfp_s env dest destMax count True (Some (items_str its)) as =
    vsnprintfp_s env dest destMax count True (Some (items_str its)) bs"
  by (rule vsnprintfp_low [OF assms])

text \<open>Two private strings, one of them null, in front of the same public number.\<close>

theorem format_private_witness:
  "vsnprintfp_s \<lparr>se_sprintf = \<lambda>n f ws d. None, se_wctomb = \<lambda>w. None, se_malloc = \<lambda>n. True, se_char_signed = True\<rparr>
     (replicate 20 NUL) 20 19 True (Some ''%s%{public}d'') [VaStr (Some (''secret'' @ [NUL])), VaInt 42] =
   vsnprintfp_s \<lparr>se_sprintf = \<lambda>n f ws d. None, se_wctomb = \<lambda>w. None, se_malloc = \<lambda>n. True, se_char_signed = True\<rparr>
     (replicate 20 NUL) 20 19 True (Some ''%s%{public}d'') [VaStr None, VaInt 42]"
proof -
  let ?e = "\<lparr>se_sprintf = \<lambda>n f ws d. None, se_wctomb = \<lambda>w. None, se_malloc = \<lambda>n. True, se_char_signed = True\<rparr>"
  let ?d = "\<lparr>sp_vis = VisPublic, sp_flags = [], sp_width = Absent, sp_prec = Absent, sp_size = [], sp_type = CHR ''d''\<rparr>"
  let ?s = "\<lparr>sp_vis = VisDefault, sp_flags = [], sp_width = Absent, sp_prec = Absent, sp_size = [], sp_type = CHR ''s''\<rparr>"
  have its: "list_all item_ok [Conv ?s, Conv ?d]" "items_str [Conv ?s, Conv ?d] = ''%s%{public}d''" by code_simp+
  have t: "spec_typed ?e True ?d [VaInt 42]" "spec_typed ?e True ?s [VaStr x]" for x
    by (auto intro!: spec_typed_plain simp: arg_typed_def long_conv_def size_flags_def sizes_def)
  have v: "sp_vis ?d = VisPublic" "sp_vis ?s \<noteq> VisPublic" by simp_all
  from low_eq.priv [OF v(2) t(2) t(2) low_eq.pub [OF v(1) t(1) low_eq.empty]]
  have "low_eq ?e [Conv ?s, Conv ?d] ([VaStr (Some (''secret'' @ [NUL]))] @ [VaInt 42] @ []) ([VaStr None] @ [VaInt 42] @ [])" .
  from format_private [OF this its(1), of "replicate 20 NUL" 20 19] show ?thesis unfolding its(2) by simp
qed

section \<open>A conversion that is skipped\<close>

text \<open>
  C8: Without memory the privacy of an argument is lost. A public float conversion whose buffer
  cannot be allocated is skipped and leaves its argument behind; the private conversion after it
  takes that argument, and the public one after that prints the argument of the private one.
\<close>

theorem float_skip_leaks:
  assumes "\<not> se_malloc env 551" "se_sprintf env 513 ''%f'' [] b = Some t"
    and "count < destMax" "destMax \<le> SECUREC_STRING_MAX_LEN" "9 + length t \<le> unat count"
  shows "vsnprintfp_s env dest destMax count True (Some ''%{public}.200f%f%{public}f'') [VaDouble a, VaDouble b, VaDouble c] =
    Some (int (9 + length t), overwrite dest (''<private>'' @ t @ [NUL]))"
proof -
  let ?f = "\<lparr>sp_vis = VisPublic, sp_flags = [], sp_width = Absent, sp_prec = Absent, sp_size = [], sp_type = CHR ''f''\<rparr>"
  let ?its = "[Conv (?f\<lparr>sp_prec := Digits ''200''\<rparr>), Conv (?f\<lparr>sp_vis := VisDefault\<rparr>), Conv ?f]"
  have ok: "list_all item_ok ?its" by code_simp
  have str: "items_str ?its = ''%{public}.200f%f%{public}f''" by code_simp
  have dec: "dec ''200'' = 200" by code_simp
  have ff: "float_format ''f'' = ''%f''" "float_format (rev ''.200f'') = ''%.200f''" by code_simp+
  have c: "SecConvert env p q (CHR ''f'') attr args = SecDecodeFloat env p q (CHR ''f'') attr args" for p q attr args
    by (simp add: SecConvert_def)
  have "items_text env True ?its (False, False) [VaDouble a, VaDouble b, VaDouble c] = Some (''<private>'' @ t)"
    using assms(1,2)
    by (simp add: spec_conv_def spec_attr_def sizes_def add_flags_def fresh_attr_def dyn_of_def dec c SecDecodeFloat_def float_precision_def
        float_bufsize_def float_buffer_len_def float_output_def sprintf_typed_def dyn_ints_def spec_tail_def ff [simplified] PRIVACY_STRING_def field_text_def sign_prefix_def)
  from vsnprintfp_items [OF ok this assms(3,4)] show ?thesis using assms(5) unfolding str by simp
qed

text \<open>Without allocation the second argument is printed as \<open>2.5\<close>.\<close>

theorem float_skip_leaks_witness:
  "vsnprintfp_s \<lparr>se_sprintf = \<lambda>n f ws d. Some (if d = 2 then ''2.5'' else ''1.0''), se_wctomb = \<lambda>w. None, se_malloc = \<lambda>n. False, se_char_signed = True\<rparr>
     (replicate 20 NUL) 20 19 True (Some ''%{public}.200f%f%{public}f'') [VaDouble 1, VaDouble 2, VaDouble 3] =
   Some (12, overwrite (replicate 20 NUL) (''<private>2.5'' @ [NUL]))"
  using float_skip_leaks [of "\<lparr>se_sprintf = \<lambda>n f ws d. Some (if d = 2 then ''2.5'' else ''1.0''), se_wctomb = \<lambda>w. None,
      se_malloc = \<lambda>n. False, se_char_signed = True\<rparr>" 2 "''2.5''" 19 20 "replicate 20 NUL" 1 3]
  by simp

end
