(* ===== verification/Hilog_Socket.thy ===== *)
theory Hilog_Socket
  imports Log_Data
begin

text \<open>
  The datagram socket between programs that log and the daemon, \<open>socket.cpp\<close>,
  \<open>dgram_socket_client.cpp\<close>, \<open>hilog_input_socket_client.cpp\<close>, \<open>dgram_socket_server.cpp\<close> and
  \<open>hilog_input_socket_server.cpp\<close>. What the kernel answers is a parameter.
\<close>

section \<open>The sending side\<close>

text \<open>
  \<open>fdHandler\<close> of the datagram client and \<open>socketHandler\<close> of its base class, which all reads and
  writes use.
\<close>

record SocketClient =
  fdHandler :: int
  socketHandler :: int

definition SocketClient_new :: SocketClient where
  "SocketClient_new = \<lparr>fdHandler = -1, socketHandler = 0\<rparr>"

text \<open>
  The kernel: the results of two calls of \<open>socket\<close>, the descriptor that another thread stored in
  the meantime, and the results of the first and the second \<open>writev\<close>.
\<close>

record SocketEnv =
  sk_socket :: int
  sk_socket2 :: int
  sk_other :: "int option"
  sk_writev :: int
  sk_writev2 :: int

definition GenerateFD :: "SocketEnv \<Rightarrow> int" where
  "GenerateFD env = (if sk_socket env = 0 then sk_socket2 env else sk_socket env)"

definition SetHandler :: "int \<Rightarrow> SocketClient \<Rightarrow> bool \<times> SocketClient" where
  "SetHandler handler s = (if socketHandler s > 0 then (False, s) else (True, s\<lparr>socketHandler := handler\<rparr>))"

definition CloseHandler :: "SocketClient \<Rightarrow> bool \<times> SocketClient" where
  "CloseHandler s = (if socketHandler s > 0 then (True, s\<lparr>socketHandler := -1\<rparr>) else (False, s))"

definition CloseFd :: "SocketClient \<Rightarrow> SocketClient" where
  "CloseFd s = (if fdHandler s \<ge> 0 then s\<lparr>fdHandler := -1\<rparr> else s)"

definition CheckSocket :: "SocketEnv \<Rightarrow> SocketClient \<Rightarrow> int \<times> SocketClient" where
  "CheckSocket env s =
     (if fdHandler s \<ge> 0 then (fdHandler s, s)
      else let fd = GenerateFD env
           in if fd < 0 then (fd, s)
              else case sk_other env of
                     Some f \<Rightarrow> (f, s\<lparr>fdHandler := f\<rparr>)
                   | None \<Rightarrow> (fd, snd (SetHandler fd (s\<lparr>fdHandler := fd\<rparr>))))"

text \<open>
  \<open>WriteLogMessage\<close>: the three parts are one datagram. Besides the return value the result is the
  datagram, when one of the writes succeeded, with the descriptor it was written to.
\<close>

definition WriteLogMessage ::
  "SocketEnv \<Rightarrow> HilogMsg \<Rightarrow> char list \<Rightarrow> u16 \<Rightarrow> char list \<Rightarrow> u16 \<Rightarrow> SocketClient \<Rightarrow> int \<times> (int \<times> HilogMsg) option \<times> SocketClient" where
  "WriteLogMessage env header tag tagLen fmt fmtLen s =
     (let (ret, s1) = CheckSocket env s
      in if ret < 0 then (ret, None, s1)
         else let msg = header\<lparr>m_len := of_nat SIZEOF_HilogMsg + tagLen + fmtLen, m_tagLen := ucast tagLen,
                               m_payload := take (unat tagLen) tag @ take (unat fmtLen) fmt\<rparr>
              in if sk_writev env \<ge> 0 then (sk_writev env, Some (socketHandler s1, msg), s1)
                 else if sk_writev2 env \<ge> 0 then (sk_writev2 env, Some (socketHandler s1, msg), s1)
                 else (sk_writev2 env, None, s1))"

section \<open>The receiving side\<close>

definition MAX_SOCKET_PACKET_LEN :: nat where
  [simp]: "MAX_SOCKET_PACKET_LEN = 5120"

text \<open>
  A datagram is its bytes read as a message, how many they are, and the process that sent it. The
  length in the message decides how many bytes are received; the last of them is overwritten with
  NUL; for a bare header that is the highest byte of the domain. Fewer bytes than a header are
  refused by the handler without being read. A datagram with a larger length than the buffer is
  skipped.
\<close>

record Datagram =
  dg_msg :: HilogMsg
  dg_size :: nat
  dg_pid :: u32

definition cut_payload :: "nat \<Rightarrow> HilogMsg \<Rightarrow> HilogMsg" where
  "cut_payload ret msg =
     (let n = ret - SIZEOF_HilogMsg; bs = take n (m_payload msg)
      in if ret = SIZEOF_HilogMsg then msg\<lparr>m_domain := take_bit 24 (m_domain msg), m_payload := []\<rparr>
         else msg\<lparr>m_payload := bs[n - 1 := NUL]\<rparr>)"

definition RecvPacket :: "Datagram \<Rightarrow> int \<times> HilogMsg" where
  "RecvPacket dg =
     (let packetLen = unat (m_len (dg_msg dg)); ret = min packetLen (dg_size dg)
      in if packetLen > MAX_SOCKET_PACKET_LEN then (0, dg_msg dg)
         else if ret = 0 then (0, dg_msg dg)
         else (int ret, cut_payload ret (dg_msg dg)))"

text \<open>The thread: the handler gets every packet; an error of the socket ends the thread.\<close>

fun ServingThread :: "(u32 \<Rightarrow> HilogMsg \<Rightarrow> int \<Rightarrow> 's \<Rightarrow> 's option) \<Rightarrow> Datagram option list \<Rightarrow> 's \<Rightarrow> 's option" where
  "ServingThread handler [] st = Some st"
| "ServingThread handler (None # dgs) st = Some st"
| "ServingThread handler (Some dg # dgs) st =
     (let (ret, data) = RecvPacket dg
      in if ret > 0
         then (case handler (dg_pid dg) data ret st of None \<Rightarrow> None | Some st' \<Rightarrow> ServingThread handler dgs st')
         else ServingThread handler dgs st)"

section \<open>What arrives\<close>

text \<open>A complete message that ends with NUL is received unchanged.\<close>

lemma RecvPacket_complete:
  assumes "unat (m_len msg) = SIZEOF_HilogMsg + length (m_payload msg)" "unat (m_len msg) \<le> MAX_SOCKET_PACKET_LEN"
    and "m_payload msg \<noteq> []" "last (m_payload msg) = NUL"
  shows "RecvPacket \<lparr>dg_msg = msg, dg_size = unat (m_len msg), dg_pid = pid\<rparr> = (int (unat (m_len msg)), msg)"
proof -
  have "(m_payload msg)[length (m_payload msg) - 1 := NUL] = m_payload msg"
    using assms(3,4) by (metis last_conv_nth list_update_id)
  then show ?thesis using assms(1-3) by (simp add: RecvPacket_def cut_payload_def Let_def)
qed

end
