(* ===== verification/Hilog_Printf.thy ===== *)
theory Hilog_Printf
  imports Log_TimeStamp Format_Spec Hilog_Properties Log_Print Hilog_Socket
begin

text \<open>
  Logging from a program, \<open>hilog_printf.cpp\<close>, \<open>hilog.cpp\<close> and \<open>hilog_ndk.c\<close>: whether a log is
  wanted, its formatting, process flow control, the copy for the sandbox, and sending it. Undefined
  behaviour and uncaught exceptions are faults. A pointer to a callback is a number that identifies
  it; a pointer to a C string is the string in front of its terminator, or \<open>None\<close> when it is null.
  The build is the one with \<open>__RECV_MSG_WITH_UCRED_\<close>: the daemon fills in the process.
\<close>

section \<open>State\<close>

datatype ClientFault = UndefinedBehaviour | UncaughtException

definition SANDBOXLOG_DEFAULT :: int where
  [simp]: "SANDBOXLOG_DEFAULT = 0"

definition PRIVATE_SANDBOX_ONLY :: int where
  [simp]: "PRIVATE_SANDBOX_ONLY = 1"

definition SHARE_SANDBOX_ONLY :: int where
  [simp]: "SHARE_SANDBOX_ONLY = 2"

definition PRIVATE_SANDBOX_WITH_CONSOLE :: int where
  [simp]: "PRIVATE_SANDBOX_WITH_CONSOLE = 3"

definition SHARE_SANDBOX_WITH_CONSOLE :: int where
  [simp]: "SHARE_SANDBOX_WITH_CONSOLE = 4"

definition UNSET_LOGLEVEL :: nat where
  [simp]: "UNSET_LOGLEVEL = 0"

definition PREFER_CLOSE_LOG :: nat where
  [simp]: "PREFER_CLOSE_LOG = 1"

definition PREFER_OPEN_LOG :: nat where
  [simp]: "PREFER_OPEN_LOG = 2"

text \<open>The static variables of \<open>HiLogFlowCtrlProcess\<close>.\<close>

record ProcFlow =
  pf_started :: bool
  processQuota :: u32
  gSumLen :: u32
  gDropped :: u32
  gStartTime :: LogTimeStamp

record ClientState =
  g_registerFunc :: "nat option"
  g_logCallback :: "nat option"
  g_logLevel :: nat
  g_preferStrategy :: nat
  g_hiLogLastFatalMessage :: "char list"
  g_sandboxStatus :: int
  g_sandboxDomains :: "u32 list"
  g_sandboxIsExclude :: bool
  g_privateStatus :: bool
  g_publicStatus :: bool
  g_flow :: ProcFlow
  g_caches :: PropCaches
  g_socket :: SocketClient

definition ClientState_new :: ClientState where
  "ClientState_new =
     \<lparr>g_registerFunc = None, g_logCallback = None, g_logLevel = LOG_LEVEL_MIN, g_preferStrategy = UNSET_LOGLEVEL,
      g_hiLogLastFatalMessage = replicate MAX_LOG_LEN NUL, g_sandboxStatus = SANDBOXLOG_DEFAULT, g_sandboxDomains = [],
      g_sandboxIsExclude = False, g_privateStatus = False, g_publicStatus = False,
      g_flow = \<lparr>pf_started = False, processQuota = 0, gSumLen = 0, gDropped = 0, gStartTime = LogTimeStamp 0 0\<rparr>,
      g_caches = PropCaches_new, g_socket = SocketClient_new\<rparr>"

text \<open>The surroundings of one call.\<close>

record ClientEnv =
  ce_fmt :: SecEnv
  ce_prop :: PropEnv
  ce_realtime :: LogTimeStamp
  ce_monotonic :: LogTimeStamp
  ce_pid :: u32
  ce_tid :: u32
  ce_trace :: "nat \<Rightarrow> int \<times> u64 \<times> u64 \<times> u64"
  ce_progName :: string
  ce_kmsgFd :: int
  ce_kmsgWrite :: "string \<Rightarrow> int"
  ce_sock :: SocketEnv
  ce_localtime :: "u32 \<Rightarrow> tm option"
  ce_wlength :: "string \<Rightarrow> nat"

text \<open>What leaves the program.\<close>

datatype ClientEvent =
    Sent int HilogMsg
  | ToKmsg string
  | ToPrivateSandbox string
  | ToShareSandbox string
  | CalledBack nat nat nat u32 "string option" string

section \<open>Registration and levels\<close>

definition HiLogRegisterGetIdFun :: "nat \<Rightarrow> ClientState \<Rightarrow> int \<times> ClientState" where
  "HiLogRegisterGetIdFun registerFunc st =
     (if g_registerFunc st \<noteq> None then (-1, st) else (0, st\<lparr>g_registerFunc := Some registerFunc\<rparr>))"

definition HiLogUnregisterGetIdFun :: "nat \<Rightarrow> ClientState \<Rightarrow> ClientState" where
  "HiLogUnregisterGetIdFun registerFunc st =
     (if g_registerFunc st \<noteq> Some registerFunc then st else st\<lparr>g_registerFunc := None\<rparr>)"

definition LOG_SetCallback :: "nat option \<Rightarrow> ClientState \<Rightarrow> ClientState" where
  "LOG_SetCallback callback st = st\<lparr>g_logCallback := callback\<rparr>"

definition HiLogSetAppLogLevel :: "nat \<Rightarrow> nat \<Rightarrow> ClientState \<Rightarrow> ClientState" where
  "HiLogSetAppLogLevel level prefer st = st\<lparr>g_logLevel := level, g_preferStrategy := prefer\<rparr>"

definition HiLogSetAppMinLogLevel :: "nat \<Rightarrow> ClientState \<Rightarrow> ClientState" where
  "HiLogSetAppMinLogLevel level st = HiLogSetAppLogLevel level PREFER_CLOSE_LOG st"

definition HilogCloseSocketFd :: "ClientState \<Rightarrow> ClientState" where
  "HilogCloseSocketFd st = st\<lparr>g_socket := CloseFd (g_socket st)\<rparr>"

definition IsAppDomain :: "u32 \<Rightarrow> bool" where
  "IsAppDomain d \<longleftrightarrow> d \<ge> DOMAIN_APP_MIN \<and> d \<le> DOMAIN_APP_MAX"

definition GetFinalLevel :: "PropEnv \<Rightarrow> u32 \<Rightarrow> string \<Rightarrow> PropCaches \<Rightarrow> nat \<times> PropCaches" where
  "GetFinalLevel env d tag pc =
     (let (tagLevel, pc1) = GetTagLevel env tag pc in
      if tagLevel \<noteq> LOG_LEVEL_MIN then (tagLevel, pc1)
      else let (persistTagLevel, pc2) = GetPersistTagLevel env tag pc1 in
      if persistTagLevel \<noteq> LOG_LEVEL_MIN then (persistTagLevel, pc2)
      else let (domainLevel, pc3) = GetDomainLevel env d pc2 in
      if domainLevel \<noteq> LOG_LEVEL_MIN then (domainLevel, pc3)
      else let (persistDomainLevel, pc4) = GetPersistDomainLevel env d pc3 in
      if persistDomainLevel \<noteq> LOG_LEVEL_MIN then (persistDomainLevel, pc4)
      else let (hap, pc5) = (if IsAppDomain d then IsDebuggableHap env pc4 else (False, pc4)) in
      if hap then (LOG_LEVEL_MIN, pc5) else GetGlobalLogLevel env pc5)"

definition HiLogIsLoggable :: "PropEnv \<Rightarrow> u32 \<Rightarrow> string option \<Rightarrow> nat \<Rightarrow> ClientState \<Rightarrow> bool \<times> ClientState" where
  "HiLogIsLoggable env d tag level st =
     (if IsAppDomain d \<and> g_preferStrategy st = PREFER_CLOSE_LOG \<and> level < g_logLevel st then (False, st)
      else if IsAppDomain d \<and> g_preferStrategy st = PREFER_OPEN_LOG \<and> level \<ge> g_logLevel st then (True, st)
      else case tag of
             None \<Rightarrow> (False, st)
           | Some t \<Rightarrow>
               if level \<le> LOG_LEVEL_MIN \<or> level \<ge> LOG_LEVEL_MAX \<or> d \<ge> DOMAIN_OS_MAX then (False, st)
               else let (l, pc) = GetFinalLevel env d t (g_caches st) in (\<not> level < l, st\<lparr>g_caches := pc\<rparr>))"

section \<open>Flow control of a process\<close>

definition HiLogFlowCtrlProcess :: "ClientEnv \<Rightarrow> u32 \<Rightarrow> ProcFlow \<Rightarrow> ClientFault + int \<times> ProcFlow" where
  "HiLogFlowCtrlProcess env len f =
     (case (if pf_started f then Inr f
            else case GetProcessQuota (pv_sys (ce_prop env)) (ce_progName env) of
                   Inl e \<Rightarrow> Inl UncaughtException
                 | Inr q \<Rightarrow> Inr (f\<lparr>pf_started := True, processQuota := of_int q\<rparr>)) of
        Inl e \<Rightarrow> Inl e
      | Inr f1 \<Rightarrow>
          let tsStart = ts_plus (gStartTime f1) (LogTimeStamp 1 0); tsNow = ce_monotonic env
          in Inr (if ts_gt tsNow tsStart
                  then (sint (gDropped f1), f1\<lparr>gDropped := 0, gStartTime := tsNow, gSumLen := len\<rparr>)
                  else if gSumLen f1 > processQuota f1 then (-1, f1\<lparr>gDropped := gDropped f1 + 1\<rparr>)
                  else (0, f1\<lparr>gSumLen := gSumLen f1 + len\<rparr>)))"

definition IsNeedProcFlowCtr :: "PropEnv \<Rightarrow> nat \<Rightarrow> PropCaches \<Rightarrow> bool \<times> PropCaches" where
  "IsNeedProcFlowCtr env t pc =
     (if t \<noteq> LOG_APP then (False, pc)
      else let (on, pc1) = IsProcessSwitchOn env pc
           in if \<not> on then (False, pc1) else let (hap, pc2) = IsDebuggableHap env pc1 in (\<not> hap, pc2))"

section \<open>Formatting\<close>

definition LogToKmsg :: "ClientEnv \<Rightarrow> nat \<Rightarrow> string \<Rightarrow> string \<Rightarrow> int \<times> ClientEvent list" where
  "LogToKmsg env level tag info =
     (if ce_kmsgFd env < 0 then (-1, [])
      else let s = ''<'' @ Num2Str 10 level @ ''>'' @ tag @ '': '' @ info @ [NEWLINE];
               logInfo = (if length s \<le> MAX_LOG_LEN - 1 then s else take (MAX_LOG_LEN - 2) s @ [NEWLINE])
           in (ce_kmsgWrite env logInfo, [ToKmsg logInfo]))"

definition HiLogIsPrivacyOn :: "PropEnv \<Rightarrow> PropCaches \<Rightarrow> bool \<times> PropCaches" where
  "HiLogIsPrivacyOn env pc = (let (dbg, pc1) = IsDebugOn env pc in if dbg then (False, pc1) else IsPrivateSwitchOn env pc1)"

definition PrintTraceId :: "ClientEnv \<Rightarrow> ClientState \<Rightarrow> string" where
  "PrintTraceId env st =
     (case g_registerFunc st of
        None \<Rightarrow> []
      | Some func \<Rightarrow>
          let (ret, chainId, spanId, parentSpanId) = ce_trace env func; hex = (\<lambda>w. Num2Str 16 (unat w))
          in if ret = 0 then ''['' @ hex chainId @ '', '' @ hex spanId @ '', '' @ hex parentSpanId @ ''] ''
             else if ret \<noteq> -1 then ''['' @ hex chainId @ ''] '' else [])"

text \<open>The buffer of a log: the trace behind which the text is formatted. The result is the return value and the buffer.\<close>

definition format_buffer :: "SecEnv \<Rightarrow> string \<Rightarrow> bool \<Rightarrow> string option \<Rightarrow> va_arg list \<Rightarrow> (int \<times> char list) option" where
  "format_buffer env trace priv fmt args =
     (let n = length trace
      in map_option (\<lambda>(ret, d). (ret, trace @ d))
           (vsnprintfp_s env (replicate (MAX_LOG_LEN - n) NUL) (of_nat (MAX_LOG_LEN - n)) (of_nat (MAX_LOG_LEN - n - 1)) priv fmt args))"

section \<open>The sandbox\<close>

definition IsPrivateSandboxEnable :: "ClientState \<Rightarrow> bool" where
  "IsPrivateSandboxEnable st \<longleftrightarrow> g_sandboxStatus st = PRIVATE_SANDBOX_ONLY \<or> g_sandboxStatus st = PRIVATE_SANDBOX_WITH_CONSOLE"

definition IsShareSandboxEnable :: "ClientState \<Rightarrow> bool" where
  "IsShareSandboxEnable st \<longleftrightarrow> g_sandboxStatus st = SHARE_SANDBOX_ONLY \<or> g_sandboxStatus st = SHARE_SANDBOX_WITH_CONSOLE"

definition IsSandboxValidDomain :: "u32 \<Rightarrow> ClientState \<Rightarrow> bool" where
  "IsSandboxValidDomain d st \<longleftrightarrow>
     (if g_sandboxDomains st = [] then True
      else let contained = d \<in> set (g_sandboxDomains st) in if g_sandboxIsExclude st then \<not> contained else contained)"

definition sandbox_format :: LogFormat where
  "sandbox_format = \<lparr>colorful = False, timeFormat = FT_TIME, timeAccuFormat = FA_MSEC, year = False, zone = False, wrap = False\<rparr>"

definition sandbox_content :: "ClientEnv \<Rightarrow> nat \<Rightarrow> nat \<Rightarrow> u32 \<Rightarrow> string \<Rightarrow> string \<Rightarrow> LogContent" where
  "sandbox_content env t level d tag log =
     \<lparr>c_level = of_nat level, c_type = of_nat t, c_pid = ce_pid env, c_tid = ce_tid env, c_domain = d,
      c_tv_sec = tv_sec (ce_realtime env), c_tv_nsec = tv_nsec (ce_realtime env), c_mono_sec = tv_sec (ce_realtime env),
      c_tag = tag, c_log = log\<rparr>"

text \<open>Besides the events and the state the result tells whether the arguments were handed to the formatting.\<close>

definition HiLogPrintSandboxLog ::
  "ClientEnv \<Rightarrow> nat \<Rightarrow> nat \<Rightarrow> u32 \<Rightarrow> string option \<Rightarrow> string option \<Rightarrow> va_arg list \<Rightarrow> ClientState \<Rightarrow>
   ClientFault + bool \<times> ClientEvent list \<times> ClientState" where
  "HiLogPrintSandboxLog env t level d tag fmt ap st =
     (if g_sandboxStatus st = SANDBOXLOG_DEFAULT \<and> IsSandboxValidDomain d st then Inr (False, [], st)
      else let (priv, pc) = HiLogIsPrivacyOn (ce_prop env) (g_caches st)
           in case (format_buffer (ce_fmt env) (PrintTraceId env st) priv fmt ap, tag) of
                (Some (ret, buf), Some tg) \<Rightarrow>
                  let text = LogPrintWithFormat (ce_localtime env) (ce_wlength env) (sandbox_content env t level d tg (c_str buf)) sandbox_format
                  in Inr (True, if IsPrivateSandboxEnable st then [ToPrivateSandbox text]
                                else if IsShareSandboxEnable st then [ToShareSandbox text] else [], st\<lparr>g_caches := pc\<rparr>)
              | _ \<Rightarrow> Inl UndefinedBehaviour)"

section \<open>Printing a log\<close>

text \<open>
  \<open>HiLogPrintVerify\<close>. An argument list that a function has read from must not be read again by
  its caller: after the sandbox formatted the log nothing is left of it.
\<close>

definition HiLogPrintVerify ::
  "ClientEnv \<Rightarrow> nat \<Rightarrow> nat \<Rightarrow> u32 \<Rightarrow> string option \<Rightarrow> string option \<Rightarrow> va_arg list \<Rightarrow> ClientState \<Rightarrow>
   ClientFault + int \<times> va_arg list \<times> ClientEvent list \<times> ClientState" where
  "HiLogPrintVerify env t level d tag fmt ap st =
     (if t \<noteq> LOG_APP \<and> (d < DOMAIN_OS_MIN \<or> d > DOMAIN_OS_MAX) then Inr (-1, ap, [], st)
      else let (ok, st1) = HiLogIsLoggable (ce_prop env) d tag level st
           in if \<not> ok then Inr (-1, ap, [], st1)
              else case HiLogPrintSandboxLog env t level d tag fmt ap st1 of
                     Inl e \<Rightarrow> Inl e
                   | Inr (used, evs, st2) \<Rightarrow>
                       Inr (if t = LOG_APP \<and> (g_sandboxStatus st2 = PRIVATE_SANDBOX_ONLY \<or> g_sandboxStatus st2 = SHARE_SANDBOX_ONLY)
                            then -1 else 1, if used then [] else ap, evs, st2))"

definition kmsg_log :: "ClientEnv \<Rightarrow> nat \<Rightarrow> string \<Rightarrow> string option \<Rightarrow> va_arg list \<Rightarrow> ClientState \<Rightarrow> ClientFault + int \<times> ClientEvent list \<times> ClientState" where
  "kmsg_log env level tag fmt ap st =
     (let (priv, pc) = HiLogIsPrivacyOn (ce_prop env) (g_caches st)
      in case format_buffer (ce_fmt env) [] priv fmt ap of
           None \<Rightarrow> Inl UndefinedBehaviour
         | Some (ret, buf) \<Rightarrow>
             let tmpFmt = (if ret = -1 then buf[MAX_LOG_LEN - 2 := NEWLINE, MAX_LOG_LEN - 1 := NUL] else buf);
                 (r, evs) = LogToKmsg env level tag (c_str tmpFmt)
             in Inr (r, evs, st\<lparr>g_caches := pc\<rparr>))"

definition log_header :: "ClientEnv \<Rightarrow> nat \<Rightarrow> nat \<Rightarrow> u32 \<Rightarrow> HilogMsg" where
  "log_header env t level d =
     \<lparr>m_len = 0, m_version = 0, m_type = of_nat t, m_level = of_nat level, m_tagLen = 0,
      m_tv_sec = tv_sec (ce_realtime env), m_tv_nsec = tv_nsec (ce_realtime env), m_mono_sec = tv_sec (ce_monotonic env),
      m_pid = 0, m_tid = ce_tid env, m_domain = d, m_payload = []\<rparr>"

definition write_message :: "ClientEnv \<Rightarrow> HilogMsg \<Rightarrow> char list \<Rightarrow> nat \<Rightarrow> char list \<Rightarrow> nat \<Rightarrow> ClientState \<Rightarrow> int \<times> ClientEvent list \<times> ClientState" where
  "write_message env header tag tagLen fmt fmtLen st =
     (let (ret, sent, s) = WriteLogMessage (ce_sock env) header tag (of_nat tagLen) fmt (of_nat fmtLen) (g_socket st)
      in (ret, case sent of None \<Rightarrow> [] | Some (fd, msg) \<Rightarrow> [Sent fd msg], st\<lparr>g_socket := s\<rparr>))"

definition P_LIMIT_TAG :: string where
  "P_LIMIT_TAG = ''LOGLIMIT''"

definition drop_notice :: "int \<Rightarrow> string" where
  "drop_notice ret = ''==LOGS OVER PROC QUOTA, '' @ Num2Str 10 (nat ret) @ '' DROPPED==''"

text \<open>The flow control of a log: whether it is dropped, and the notice about logs dropped before.\<close>

definition flow_log :: "ClientEnv \<Rightarrow> nat \<Rightarrow> HilogMsg \<Rightarrow> u32 \<Rightarrow> ClientState \<Rightarrow> ClientFault + int \<times> ClientEvent list \<times> ClientState" where
  "flow_log env t header len st =
     (let (dbg, pc1) = IsDebugOn (ce_prop env) (g_caches st);
          (need, pc2) = (if dbg then (False, pc1) else IsNeedProcFlowCtr (ce_prop env) t pc1);
          st1 = st\<lparr>g_caches := pc2\<rparr>
      in if \<not> need then Inr (0, [], st1)
         else case HiLogFlowCtrlProcess env len (g_flow st1) of
                Inl e \<Rightarrow> Inl e
              | Inr (ret, f) \<Rightarrow>
                  let st2 = st1\<lparr>g_flow := f\<rparr>
                  in if ret > 0
                     then let s = drop_notice ret;
                              (r, evs, st3) = write_message env (header\<lparr>m_level := of_nat LOG_WARN\<rparr>) (P_LIMIT_TAG @ [NUL])
                                (length P_LIMIT_TAG + 1) (s @ [NUL]) (length s + 1) st2
                          in Inr (ret, evs, st3)
                     else Inr (ret, [], st2))"

definition send_log :: "ClientEnv \<Rightarrow> nat \<Rightarrow> nat \<Rightarrow> u32 \<Rightarrow> string \<Rightarrow> string option \<Rightarrow> va_arg list \<Rightarrow> ClientState \<Rightarrow> ClientFault + int \<times> ClientEvent list \<times> ClientState" where
  "send_log env t level d tag fmt ap st =
     (let trace = PrintTraceId env st; (priv, pc) = HiLogIsPrivacyOn (ce_prop env) (g_caches st)
      in case format_buffer (ce_fmt env) trace priv fmt ap of
           None \<Rightarrow> Inl UndefinedBehaviour
         | Some (ret, buf) \<Rightarrow>
             let calls = (case g_logCallback st of None \<Rightarrow> [] | Some cb \<Rightarrow> [CalledBack cb t level d (Some tag) (c_str (drop (length trace) buf))]);
                 tagLen = length (take (MAX_TAG_LEN - 1) tag);
                 logLen = length (c_str (take (MAX_LOG_LEN - 1) buf));
                 header = log_header env t level d;
                 st1 = st\<lparr>g_caches := pc, g_hiLogLastFatalMessage := (if level = LOG_FATAL then buf else g_hiLogLastFatalMessage st)\<rparr>
             in case flow_log env t header (of_nat (tagLen + logLen - length trace)) st1 of
                  Inl e \<Rightarrow> Inl e
                | Inr (r, evs, st2) \<Rightarrow>
                    if r < 0 then Inr (r, calls @ evs, st2)
                    else let (r', evs', st3) = write_message env header (tag @ [NUL]) (tagLen + 1) buf (logLen + 1) st2
                         in Inr (r', calls @ evs @ evs', st3))"

definition HiLogPrintArgs ::
  "ClientEnv \<Rightarrow> nat \<Rightarrow> nat \<Rightarrow> u32 \<Rightarrow> string option \<Rightarrow> string option \<Rightarrow> va_arg list \<Rightarrow> ClientState \<Rightarrow>
   ClientFault + int \<times> ClientEvent list \<times> ClientState" where
  "HiLogPrintArgs env t level d tag fmt ap st =
     (case HiLogPrintVerify env t level d tag fmt ap st of
        Inl e \<Rightarrow> Inl e
      | Inr (ok, ap', evs, st1) \<Rightarrow>
          if ok < 0 then Inr (-1, evs, st1)
          else case tag of
                 None \<Rightarrow> Inl UndefinedBehaviour
               | Some tg \<Rightarrow>
                   (case (if t = LOG_KMSG then kmsg_log env level tg fmt ap' st1 else send_log env t level d tg fmt ap' st1) of
                      Inl e \<Rightarrow> Inl e
                    | Inr (r, evs', st2) \<Rightarrow> Inr (r, evs @ evs', st2)))"

definition HiLogPrint ::
  "ClientEnv \<Rightarrow> nat \<Rightarrow> nat \<Rightarrow> u32 \<Rightarrow> string option \<Rightarrow> string option \<Rightarrow> va_arg list \<Rightarrow> ClientState \<Rightarrow>
   ClientFault + int \<times> ClientEvent list \<times> ClientState" where
  "HiLogPrint env t level d tag fmt ap st = HiLogPrintArgs env t level d tag fmt ap st"

definition HiLogPrintDictNew ::
  "ClientEnv \<Rightarrow> nat \<Rightarrow> nat \<Rightarrow> u32 \<Rightarrow> string option \<Rightarrow> u32 \<Rightarrow> u32 \<Rightarrow> string option \<Rightarrow> va_arg list \<Rightarrow> ClientState \<Rightarrow>
   ClientFault + int \<times> ClientEvent list \<times> ClientState" where
  "HiLogPrintDictNew env t level d tag x y fmt ap st = HiLogPrintArgs env t level d tag fmt ap st"

definition HiLogPrintComm ::
  "ClientEnv \<Rightarrow> nat \<Rightarrow> u32 \<Rightarrow> string option \<Rightarrow> u32 \<Rightarrow> u32 \<Rightarrow> string option \<Rightarrow> va_arg list \<Rightarrow> ClientState \<Rightarrow>
   ClientFault + int \<times> ClientEvent list \<times> ClientState" where
  "HiLogPrintComm env level d tag x y fmt ap st = HiLogPrintArgs env LOG_CORE level d tag fmt ap st"

section \<open>The interfaces of C++ and of the NDK\<close>

record HiLogLabel =
  lb_type :: nat
  lb_domain :: u32
  lb_tag :: "string option"

definition HiLog_Debug :: "ClientEnv \<Rightarrow> HiLogLabel \<Rightarrow> string option \<Rightarrow> va_arg list \<Rightarrow> ClientState \<Rightarrow> ClientFault + int \<times> ClientEvent list \<times> ClientState" where
  "HiLog_Debug env label fmt args st = HiLogPrintArgs env (lb_type label) LOG_DEBUG (lb_domain label) (lb_tag label) fmt args st"

definition HiLog_Info :: "ClientEnv \<Rightarrow> HiLogLabel \<Rightarrow> string option \<Rightarrow> va_arg list \<Rightarrow> ClientState \<Rightarrow> ClientFault + int \<times> ClientEvent list \<times> ClientState" where
  "HiLog_Info env label fmt args st = HiLogPrintArgs env (lb_type label) LOG_INFO (lb_domain label) (lb_tag label) fmt args st"

definition HiLog_Warn :: "ClientEnv \<Rightarrow> HiLogLabel \<Rightarrow> string option \<Rightarrow> va_arg list \<Rightarrow> ClientState \<Rightarrow> ClientFault + int \<times> ClientEvent list \<times> ClientState" where
  "HiLog_Warn env label fmt args st = HiLogPrintArgs env (lb_type label) LOG_WARN (lb_domain label) (lb_tag label) fmt args st"

definition HiLog_Error :: "ClientEnv \<Rightarrow> HiLogLabel \<Rightarrow> string option \<Rightarrow> va_arg list \<Rightarrow> ClientState \<Rightarrow> ClientFault + int \<times> ClientEvent list \<times> ClientState" where
  "HiLog_Error env label fmt args st = HiLogPrintArgs env (lb_type label) LOG_ERROR (lb_domain label) (lb_tag label) fmt args st"

definition HiLog_Fatal :: "ClientEnv \<Rightarrow> HiLogLabel \<Rightarrow> string option \<Rightarrow> va_arg list \<Rightarrow> ClientState \<Rightarrow> ClientFault + int \<times> ClientEvent list \<times> ClientState" where
  "HiLog_Fatal env label fmt args st = HiLogPrintArgs env (lb_type label) LOG_FATAL (lb_domain label) (lb_tag label) fmt args st"

definition OH_LOG_Print ::
  "ClientEnv \<Rightarrow> nat \<Rightarrow> nat \<Rightarrow> u32 \<Rightarrow> string option \<Rightarrow> string option \<Rightarrow> va_arg list \<Rightarrow> ClientState \<Rightarrow>
   ClientFault + int \<times> ClientEvent list \<times> ClientState" where
  "OH_LOG_Print env t level d tag fmt ap st = HiLogPrintArgs env t level d tag fmt ap st"

definition public_s :: string where
  "public_s = ''%{public}s''"

definition OH_LOG_PrintMsg ::
  "ClientEnv \<Rightarrow> nat \<Rightarrow> nat \<Rightarrow> u32 \<Rightarrow> string option \<Rightarrow> string option \<Rightarrow> ClientState \<Rightarrow>
   ClientFault + int \<times> ClientEvent list \<times> ClientState" where
  "OH_LOG_PrintMsg env t level d tag message st =
     OH_LOG_Print env t level d tag (Some public_s) [VaStr (map_option (\<lambda>s. s @ [NUL]) message)] st"

text \<open>
  Tag and message with a length need no terminator: \<open>tag\<close> and \<open>message\<close> are the bytes at the
  pointers. Both are copied into arrays of their size.
\<close>

definition OH_LOG_PrintMsgByLen ::
  "ClientEnv \<Rightarrow> nat \<Rightarrow> nat \<Rightarrow> u32 \<Rightarrow> char list option \<Rightarrow> size_t \<Rightarrow> char list option \<Rightarrow> size_t \<Rightarrow> ClientState \<Rightarrow>
   ClientFault + int \<times> ClientEvent list \<times> ClientState" where
  "OH_LOG_PrintMsgByLen env t level d tag tagLen message messageLen st =
     (case (tag, message) of
        (Some tg, Some msg) \<Rightarrow>
          let copyTagLen = (if unat tagLen < MAX_TAG_LEN - 1 then unat tagLen else MAX_TAG_LEN - 1);
              copyMsgLen = (if unat messageLen < MAX_LOG_LEN - 1 then unat messageLen else MAX_LOG_LEN - 1);
              (e1, newTag) = strncpy_s (copyTagLen + 1) tg copyTagLen;
              (e2, newMessage) = strncpy_s (copyMsgLen + 1) msg copyMsgLen
          in if e1 < 0 \<or> e2 < 0 then Inr (-1, [], st)
             else OH_LOG_Print env t level d (Some (c_str newTag)) (Some public_s) [VaStr (Some newMessage)] st
      | _ \<Rightarrow> Inr (-1, [], st))"

section \<open>Switching the output\<close>

definition set_sandbox_status :: "int \<Rightarrow> ClientState \<Rightarrow> ClientState" where
  "set_sandbox_status t st =
     (if t = PRIVATE_SANDBOX_ONLY \<or> t = PRIVATE_SANDBOX_WITH_CONSOLE then st\<lparr>g_privateStatus := True, g_publicStatus := False\<rparr>
      else if t = SHARE_SANDBOX_ONLY \<or> t = SHARE_SANDBOX_WITH_CONSOLE then st\<lparr>g_publicStatus := True, g_privateStatus := False\<rparr>
      else st\<lparr>g_privateStatus := False, g_publicStatus := False\<rparr>)"

definition InnerSetOutputType :: "int \<Rightarrow> ClientState \<Rightarrow> int \<times> ClientState" where
  "InnerSetOutputType t st =
     (if t < SANDBOXLOG_DEFAULT \<or> t > SHARE_SANDBOX_WITH_CONSOLE then (g_sandboxStatus st, st)
      else (g_sandboxStatus st, set_sandbox_status t (st\<lparr>g_sandboxDomains := [], g_sandboxStatus := t\<rparr>)))"

definition InnerSetOutputTypeByDomainId :: "int \<Rightarrow> u32 list \<Rightarrow> bool \<Rightarrow> ClientState \<Rightarrow> int \<times> ClientState" where
  "InnerSetOutputTypeByDomainId t domains isExclude st =
     (if t < SANDBOXLOG_DEFAULT \<or> t > SHARE_SANDBOX_WITH_CONSOLE then (g_sandboxStatus st, st)
      else (g_sandboxStatus st,
            set_sandbox_status t (st\<lparr>g_sandboxStatus := t, g_sandboxDomains := domains, g_sandboxIsExclude := isExclude\<rparr>)))"

definition InnerGetOutputType :: "ClientState \<Rightarrow> int" where
  "InnerGetOutputType st = g_sandboxStatus st"

text \<open>The results of the sandbox functions for the private and the shared sandbox are arguments.\<close>

definition InnerFlushAppLog :: "bool \<Rightarrow> bool \<Rightarrow> ClientState \<Rightarrow> bool" where
  "InnerFlushAppLog flushPrivate flushShare st =
     (if IsPrivateSandboxEnable st then flushPrivate else if IsShareSandboxEnable st then flushShare else False)"

definition InnerCleanAppLog :: "bool \<Rightarrow> bool \<Rightarrow> ClientState \<Rightarrow> bool" where
  "InnerCleanAppLog cleanPrivate cleanShare st =
     (if IsPrivateSandboxEnable st then cleanPrivate else if IsShareSandboxEnable st then cleanShare else False)"

definition InnerGetAppLogFile :: "string list \<Rightarrow> string list \<Rightarrow> ClientState \<Rightarrow> string list" where
  "InnerGetAppLogFile privateFiles shareFiles st =
     (if IsPrivateSandboxEnable st then privateFiles else if IsShareSandboxEnable st then shareFiles else [])"

definition InnerGetOutputDir :: "ClientState \<Rightarrow> string" where
  "InnerGetOutputDir st =
     (if IsPrivateSandboxEnable st then ''/data/storage/el2/base/files/hiapplog''
      else if IsShareSandboxEnable st then ''/data/storage/el2/log/hiapplog'' else [])"

text \<open>\<open>snprintf_s(buffer, length, length - 1, "%s", s)\<close>: -1 when nothing fits or the text is cut.\<close>

definition snprintf_str :: "nat \<Rightarrow> string \<Rightarrow> int \<times> string" where
  "snprintf_str len s = (if len = 0 then (-1, []) else if length s < len then (int (length s), s) else (-1, take (len - 1) s))"

definition HiLogGetAppLogFile :: "string list \<Rightarrow> string list \<Rightarrow> nat \<Rightarrow> ClientState \<Rightarrow> int \<times> string" where
  "HiLogGetAppLogFile privateFiles shareFiles len st =
     (let result = concat (map (\<lambda>file. file @ '','') (InnerGetAppLogFile privateFiles shareFiles st));
          (n, buffer) = snprintf_str len (butlast result)
      in if n \<le> 0 then (-1, buffer) else (0, buffer))"

definition HiLogGetOutputDir :: "nat \<Rightarrow> ClientState \<Rightarrow> int \<times> string" where
  "HiLogGetOutputDir len st = (let (n, buffer) = snprintf_str len (InnerGetOutputDir st) in if n \<le> 0 then (-1, buffer) else (0, buffer))"

end
