(* ===== verification/Hilog_Base.thy ===== *)
theory Hilog_Base
  imports Hilog_Printf
begin

text \<open>
  The small logging library \<open>hilog_base.c\<close> for programs that must not allocate memory: privacy is
  always on and no level is looked up.
\<close>

section \<open>The socket\<close>

definition INVALID_FD :: int where
  [simp]: "INVALID_FD = -1"

definition INVALID_RESULT :: int where
  [simp]: "INVALID_RESULT = -1"

datatype CasResult = CAS_SUCCESS | CAS_FAIL | CAS_INVALID_PARAM

text \<open>
  The kernel: the results of \<open>socket\<close>, \<open>connect\<close> and \<open>writev\<close>, and the descriptor that another thread
  stored between the read and the exchange.
\<close>

record BaseEnv =
  be_socket :: int
  be_connect :: int
  be_writev :: int
  be_other :: "int option"
  be_fmt :: SecEnv
  be_realtime :: LogTimeStamp
  be_monotonic :: LogTimeStamp
  be_tid :: u32

definition CloseSocket :: "int \<Rightarrow> int" where
  "CloseSocket g_socketFd = (if g_socketFd \<ge> 0 then INVALID_FD else g_socketFd)"

definition GenerateSocketFd :: "BaseEnv \<Rightarrow> int" where
  "GenerateSocketFd env =
     (if be_socket env = INVALID_FD then INVALID_FD
      else if be_connect env = INVALID_RESULT then INVALID_FD else be_socket env)"

definition CASGlobalSocketFd :: "int \<Rightarrow> int \<Rightarrow> CasResult \<times> int" where
  "CASGlobalSocketFd socketFd g_socketFd =
     (if socketFd = INVALID_FD then (CAS_INVALID_PARAM, g_socketFd)
      else if g_socketFd \<noteq> INVALID_FD then (CAS_FAIL, g_socketFd) else (CAS_SUCCESS, socketFd))"

text \<open>
  \<open>SendMessage\<close>: the return value, the datagram with its descriptor, the descriptor that is closed
  again, and the global descriptor.
\<close>

definition SendMessage ::
  "BaseEnv \<Rightarrow> HilogMsg \<Rightarrow> char list \<Rightarrow> u16 \<Rightarrow> char list \<Rightarrow> u16 \<Rightarrow> int \<Rightarrow> int \<times> (int \<times> HilogMsg) option \<times> int option \<times> int" where
  "SendMessage env header tag tagLen fmt fmtLen g_socketFd =
     (let (socketFd, result, g') =
            (if g_socketFd = INVALID_FD
             then let fd = GenerateSocketFd env; (res, g1) = CASGlobalSocketFd fd (case be_other env of None \<Rightarrow> g_socketFd | Some f \<Rightarrow> f)
                  in (fd, res, g1)
             else (g_socketFd, CAS_SUCCESS, g_socketFd))
      in if result = CAS_INVALID_PARAM then (INVALID_RESULT, None, None, g')
         else let msg = header\<lparr>m_tv_sec := tv_sec (be_realtime env), m_tv_nsec := tv_nsec (be_realtime env),
                               m_mono_sec := tv_sec (be_monotonic env), m_len := of_nat SIZEOF_HilogMsg + tagLen + fmtLen,
                               m_tagLen := ucast tagLen, m_payload := take (unat tagLen) tag @ take (unat fmtLen) fmt\<rparr>
              in (be_writev env, if be_writev env \<ge> 0 then Some (socketFd, msg) else None,
                  if result = CAS_FAIL then Some socketFd else None, g'))"

section \<open>Printing a log\<close>

definition HiLogBaseIsLoggable :: "u32 \<Rightarrow> string option \<Rightarrow> nat \<Rightarrow> bool" where
  "HiLogBaseIsLoggable d tag level \<longleftrightarrow> \<not> (level \<le> LOG_LEVEL_MIN \<or> level \<ge> LOG_LEVEL_MAX \<or> tag = None)"

definition HiLogBasePrintArgs ::
  "BaseEnv \<Rightarrow> nat \<Rightarrow> nat \<Rightarrow> u32 \<Rightarrow> string \<Rightarrow> string option \<Rightarrow> va_arg list \<Rightarrow> int \<Rightarrow>
   ClientFault + int \<times> (int \<times> HilogMsg) option \<times> int option \<times> int" where
  "HiLogBasePrintArgs env t level d tag fmt ap g_socketFd =
     (case format_buffer (be_fmt env) [] True fmt ap of
        None \<Rightarrow> Inl UndefinedBehaviour
      | Some (ret, buf) \<Rightarrow>
          let tagLen = length (take (MAX_TAG_LEN - 1) tag); logLen = length (c_str (take (MAX_LOG_LEN - 1) buf));
              header = \<lparr>m_len = 0, m_version = 0, m_type = of_nat t, m_level = of_nat level, m_tagLen = 0, m_tv_sec = 0, m_tv_nsec = 0,
                        m_mono_sec = 0, m_pid = 0, m_tid = be_tid env, m_domain = d, m_payload = []\<rparr>
          in Inr (SendMessage env header (tag @ [NUL]) (of_nat (tagLen + 1)) buf (of_nat (logLen + 1)) g_socketFd))"

definition HiLogBasePrint ::
  "BaseEnv \<Rightarrow> nat \<Rightarrow> nat \<Rightarrow> u32 \<Rightarrow> string option \<Rightarrow> string option \<Rightarrow> va_arg list \<Rightarrow> int \<Rightarrow>
   ClientFault + int \<times> (int \<times> HilogMsg) option \<times> int option \<times> int" where
  "HiLogBasePrint env t level d tag fmt ap g_socketFd =
     (case tag of
        Some tg \<Rightarrow> if HiLogBaseIsLoggable d tag level then HiLogBasePrintArgs env t level d tg fmt ap g_socketFd
                   else Inr (-1, None, None, g_socketFd)
      | None \<Rightarrow> Inr (-1, None, None, g_socketFd))"

end
