(* ===== verification/Client_Props.thy ===== *)
theory Client_Props
  imports Hilog_Base Format_Props Log_Collector
begin

text \<open>
  Properties of logging from a program: a log that is printed arrives in the buffer of the daemon
  with its tag and its formatted text, private arguments do not leave the program, and the levels
  work as documented.
\<close>

section \<open>The buffer of a log\<close>

lemma c_str_stop: "length w \<le> m \<Longrightarrow> c_str (take m (w @ NUL # r)) = c_str w"
proof (induction w arbitrary: m)
  case Nil
  then show ?case by (cases m) simp_all
next
  case (Cons c w)
  then obtain k where "m = Suc k" by (cases m) auto
  then show ?case using Cons by simp
qed

lemma c_str_end: "c_str (w @ NUL # r) = c_str w"
  by (induction w) simp_all

lemma take_c_str: "take (Suc (length (c_str w))) (w @ NUL # r) = c_str w @ [NUL]"
  by (induction w) simp_all

lemma length_Num2Str: "n < radix ^ k \<Longrightarrow> 0 < k \<Longrightarrow> length (Num2Str radix n) \<le> k"
proof (induction k arbitrary: n)
  case (Suc k)
  show ?case
  proof (cases "radix < 2 \<or> n < radix")
    case True
    then show ?thesis by (simp add: Num2Str.simps)
  next
    case False
    then have "0 < k" using Suc.prems(1) by (cases k) auto
    moreover have "n div radix < radix ^ k" using Suc.prems(1) False by (simp add: less_mult_imp_div_less mult.commute)
    ultimately have "length (Num2Str radix (n div radix)) \<le> k" using Suc.IH by simp
    then show ?thesis using False by (simp add: Num2Str.simps)
  qed
qed simp

lemma length_hex: "length (Num2Str 16 (unat (w :: u64))) \<le> 16"
proof -
  have "unat w < 2 ^ 64" using unsigned_less [of w] by simp
  also have "(2 :: nat) ^ 64 = 16 ^ 16" by simp
  finally show ?thesis by (intro length_Num2Str) simp_all
qed

lemma length_PrintTraceId: "length (PrintTraceId env st) \<le> 64"
proof (cases "g_registerFunc st")
  case (Some f)
  obtain ret a b c where t: "ce_trace env f = (ret, a, b, c)" by (metis prod_cases4)
  show ?thesis
    using Some t length_hex [of a] length_hex [of b] length_hex [of c] by (simp add: PrintTraceId_def)
qed (simp add: PrintTraceId_def)

lemma format_buffer_items:
  assumes "list_all item_ok its" "items_text env priv its (False, False) args = Some s" "length trace < MAX_LOG_LEN"
  shows "\<exists>ret r. format_buffer env trace priv (Some (items_str its)) args = Some (ret, take (MAX_LOG_LEN - 1) (trace @ s) @ NUL # r)"
proof -
  obtain k where k: "k = MAX_LOG_LEN - length trace" by simp
  have kb: "0 < k" "k \<le> 4096" using assms(3) k by simp_all
  have u: "unat (of_nat k :: size_t) = k" "unat (of_nat (k - 1) :: size_t) = k - 1"
    by (rule unat_size_small; use kb in simp)+
  have c: "(of_nat (k - 1) :: size_t) < of_nat k" "(of_nat k :: size_t) \<le> SECUREC_STRING_MAX_LEN"
    unfolding word_less_nat_alt word_le_nat_alt u using kb by simp_all
  have t: "take (MAX_LOG_LEN - 1) (trace @ s) = trace @ take (k - 1) s" using assms(3) k by simp
  have f: "format_buffer env trace priv (Some (items_str its)) args = map_option (\<lambda>(ret, d). (ret, trace @ d))
      (vsnprintfp_s env (replicate k NUL) (of_nat k) (of_nat (k - 1)) priv (Some (items_str its)) args)"
    unfolding format_buffer_def Let_def k ..
  show ?thesis
    unfolding f vsnprintfp_items [OF assms(1,2) c] u t by (auto simp: overwrite_def)
qed

section \<open>The message of a log\<close>

text \<open>The datagram for a tag and the buffer of a log.\<close>

definition message_of :: "HilogMsg \<Rightarrow> string \<Rightarrow> char list \<Rightarrow> HilogMsg" where
  "message_of header tag buf =
     (let tagLen = of_nat (length (take (MAX_TAG_LEN - 1) tag) + 1) :: u16;
          fmtLen = of_nat (length (c_str (take (MAX_LOG_LEN - 1) buf)) + 1) :: u16
      in header\<lparr>m_len := of_nat SIZEOF_HilogMsg + tagLen + fmtLen, m_tagLen := ucast tagLen,
                m_payload := take (unat tagLen) (tag @ [NUL]) @ take (unat fmtLen) buf\<rparr>)"

lemma ucast_nat_def: "ucast w = of_nat (unat w)"
  by simp

lemma message_of_eq:
  assumes "length w \<le> MAX_LOG_LEN - 1"
  shows "message_of header tag (w @ NUL # r) =
    header\<lparr>m_len := of_nat (SIZEOF_HilogMsg + (length (take 31 tag) + 1) + (length (c_str w) + 1)),
           m_tagLen := of_nat (length (take 31 tag) + 1),
           m_payload := take (length (take 31 tag) + 1) (tag @ [NUL]) @ c_str w @ [NUL]\<rparr>"
proof -
  let ?tl = "length (take 31 tag) + 1" and ?ll = "length (c_str w) + 1"
  have c: "c_str (take (MAX_LOG_LEN - 1) (w @ NUL # r)) = c_str w" using assms by (rule c_str_stop)
  have l: "length (c_str w) \<le> MAX_LOG_LEN - 1" using assms length_c_str_le [of w] by linarith
  have u: "unat (of_nat ?tl :: u16) = ?tl" "unat (of_nat ?ll :: u16) = ?ll" using l by (intro unat_u16_small; simp)+
  have t: "take ?ll (w @ NUL # r) = c_str w @ [NUL]" using take_c_str by simp
  have tl: "MAX_TAG_LEN - 1 = 31" by simp
  have x: "(ucast (of_nat ?tl :: u16) :: 6 word) = of_nat ?tl" by (metis of_nat_unat u(1))
  show ?thesis unfolding message_of_def Let_def c tl u t x by simp
qed

lemma message_of_accepted:
  assumes "length w \<le> MAX_LOG_LEN - 1" "NUL \<notin> set tag" "msg = message_of header tag (w @ NUL # r)"
  shows "unat (m_len msg) = SIZEOF_HilogMsg + length (m_payload msg)" "m_payload msg \<noteq> []" "last (m_payload msg) = NUL"
    "unat (m_len msg) \<le> MAX_SOCKET_PACKET_LEN" "unat (CONTENT_LEN msg) = length (c_str w) + 1" "msg_accepted msg"
    "d_tag (HilogData_of_msg msg) = take 31 tag" "d_content (HilogData_of_msg msg) = c_str w"
proof -
  let ?tl = "length (take 31 tag)" and ?c = "c_str w"
  have l: "length ?c \<le> 4095" using assms(1) length_c_str_le [of w] by simp
  have tl: "?tl \<le> 31" by simp
  have m: "m_len msg = of_nat (SIZEOF_HilogMsg + (?tl + 1) + (length ?c + 1))" "m_tagLen msg = of_nat (?tl + 1)"
    "m_payload msg = take (?tl + 1) (tag @ [NUL]) @ ?c @ [NUL]"
    unfolding assms(3) message_of_eq [OF assms(1)] by simp_all
  have pl: "length (take (?tl + 1) (tag @ [NUL])) = ?tl + 1" by simp
  have len: "unat (m_len msg) = SIZEOF_HilogMsg + (?tl + 1) + (length ?c + 1)"
    unfolding m(1) using l tl by (intro unat_u16_small) simp
  have tag: "unat (m_tagLen msg) = ?tl + 1" unfolding m(2) using tl by (intro unat_u6_small) simp
  have "CONTENT_LEN msg = of_nat (SIZEOF_HilogMsg + (?tl + 1) + (length ?c + 1)) - of_nat SIZEOF_HilogMsg - of_nat (?tl + 1)"
    unfolding CONTENT_LEN_def ucast_nat_def len tag ..
  also have "\<dots> = of_nat (length ?c + 1)" by simp
  finally have cw: "CONTENT_LEN msg = of_nat (length ?c + 1)" .
  show cl: "unat (CONTENT_LEN msg) = length ?c + 1" unfolding cw using l by (intro unat_size_small) simp
  show "unat (m_len msg) = SIZEOF_HilogMsg + length (m_payload msg)" unfolding len m(3) length_append pl by simp
  show "m_payload msg \<noteq> []" "last (m_payload msg) = NUL" unfolding m(3) by simp_all
  show "unat (m_len msg) \<le> MAX_SOCKET_PACKET_LEN" unfolding len using l tl by simp
  show acc: "msg_accepted msg" using cl tag l tl by (auto simp: msg_accepted_def)
  have "take ?tl (m_payload msg) = take ?tl tag" unfolding m(3) by simp
  also have "\<dots> = take 31 tag" by (cases "length tag \<le> 31") simp_all
  finally have "take ?tl (m_payload msg) = take 31 tag" .
  moreover have "NUL \<notin> set (take 31 tag)" using assms(2) in_set_takeD by metis
  ultimately show "d_tag (HilogData_of_msg msg) = take 31 tag"
    unfolding HilogData_of_msg_accepted(8) [OF acc] tag by (simp only: add_diff_cancel_right' c_str_no_NUL not_False_eq_True)
  have "drop (?tl + 1) (m_payload msg) = ?c @ [NUL]" unfolding m(3) using pl by (metis append_eq_conv_conj)
  then show "d_content (HilogData_of_msg msg) = ?c"
    unfolding HilogData_of_msg_accepted(9) [OF acc] CONTENT_PTR_def tag cl by (simp add: c_str_no_NUL)
qed

section \<open>Printing\<close>

lemma HiLogIsLoggable_frame:
  assumes "HiLogIsLoggable env d tag level st = (ok, st1)"
  shows "\<exists>pc. st1 = st\<lparr>g_caches := pc\<rparr>"
proof -
  have "st1 = st \<or> (\<exists>pc. st1 = st\<lparr>g_caches := pc\<rparr>)"
    using assms by (auto simp: HiLogIsLoggable_def Let_def split: if_splits option.splits prod.splits)
  then show ?thesis by (elim disjE) (rule exI [where x = "g_caches st"], simp_all)
qed

text \<open>The flow control of the process does not apply: debugging is on, or it is not asked for the type.\<close>

definition flow_free :: "ClientEnv \<Rightarrow> nat \<Rightarrow> PropCaches \<Rightarrow> bool" where
  "flow_free env t pc \<longleftrightarrow> (let (dbg, pc1) = IsDebugOn (ce_prop env) pc in dbg \<or> \<not> fst (IsNeedProcFlowCtr (ce_prop env) t pc1))"

lemma flow_free_os: "t \<noteq> LOG_APP \<Longrightarrow> flow_free env t pc"
  by (simp add: flow_free_def IsNeedProcFlowCtr_def split: prod.splits)

lemma flow_log_free:
  "flow_free env t (g_caches st) \<Longrightarrow> \<exists>pc. flow_log env t header len st = Inr (0, [], st\<lparr>g_caches := pc\<rparr>)"
  by (auto simp: flow_log_def flow_free_def Let_def split: prod.splits)

definition callbacks :: "nat option \<Rightarrow> nat \<Rightarrow> nat \<Rightarrow> u32 \<Rightarrow> string \<Rightarrow> string \<Rightarrow> ClientEvent list" where
  "callbacks cb t level d tag s = (case cb of None \<Rightarrow> [] | Some f \<Rightarrow> [CalledBack f t level d (Some tag) s])"

text \<open>A log that is free of flow control is sent on an open socket, behind the callback.\<close>

lemma send_log_sent:
  assumes "format_buffer (ce_fmt env) (PrintTraceId env st) (fst (HiLogIsPrivacyOn (ce_prop env) (g_caches st))) fmt args = Some (ret, buf)"
    and "flow_free env t (snd (HiLogIsPrivacyOn (ce_prop env) (g_caches st)))" "fdHandler (g_socket st) \<ge> 0" "sk_writev (ce_sock env) \<ge> 0"
  shows "\<exists>st'. send_log env t level d tag fmt args st =
    Inr (sk_writev (ce_sock env),
         callbacks (g_logCallback st) t level d tag (c_str (drop (length (PrintTraceId env st)) buf)) @
         [Sent (socketHandler (g_socket st)) (message_of (log_header env t level d) tag buf)], st')"
proof -
  obtain priv pc where p: "HiLogIsPrivacyOn (ce_prop env) (g_caches st) = (priv, pc)" by fastforce
  let ?st1 = "st\<lparr>g_caches := pc, g_hiLogLastFatalMessage := (if level = LOG_FATAL then buf else g_hiLogLastFatalMessage st)\<rparr>"
  let ?len = "of_nat (length (take (MAX_TAG_LEN - 1) tag) + length (c_str (take (MAX_LOG_LEN - 1) buf)) - length (PrintTraceId env st)) :: u32"
  obtain pc2 where f: "flow_log env t (log_header env t level d) ?len ?st1 = Inr (0, [], ?st1\<lparr>g_caches := pc2\<rparr>)"
    using flow_log_free [of env t ?st1] assms(2) p by auto
  have fmt: "format_buffer (ce_fmt env) (PrintTraceId env st) priv fmt args = Some (ret, buf)" using assms(1) p by simp
  have w: "WriteLogMessage (ce_sock env) h (tag @ [NUL]) (of_nat (length (take (MAX_TAG_LEN - 1) tag) + 1)) buf
      (of_nat (length (c_str (take (MAX_LOG_LEN - 1) buf)) + 1)) (g_socket st) =
      (sk_writev (ce_sock env), Some (socketHandler (g_socket st), message_of h tag buf), g_socket st)" for h
    unfolding WriteLogMessage_def CheckSocket_def message_of_def Let_def using assms(3,4) by simp
  have s: "g_socket (?st1\<lparr>g_caches := pc2\<rparr>) = g_socket st" by simp
  show ?thesis
    unfolding send_log_def Let_def p prod.case fmt option.case f sum.case write_message_def s w callbacks_def by simp
qed

lemma HiLogPrintArgs_sent:
  assumes ok: "HiLogIsLoggable (ce_prop env) d (Some tag) level st = (True, st1)"
    and its: "list_all item_ok its"
      "items_text (ce_fmt env) (fst (HiLogIsPrivacyOn (ce_prop env) (g_caches st1))) its (False, False) args = Some s"
    and st: "g_sandboxStatus st = SANDBOXLOG_DEFAULT" "g_sandboxDomains st = []" "fdHandler (g_socket st) \<ge> 0"
    and t: "flow_free env t (snd (HiLogIsPrivacyOn (ce_prop env) (g_caches st1)))" "t \<noteq> LOG_KMSG" "IsValidDomain t d"
    and w: "sk_writev (ce_sock env) \<ge> 0"
  shows "\<exists>st' r. HiLogPrintArgs env t level d (Some tag) (Some (items_str its)) args st =
    Inr (sk_writev (ce_sock env), callbacks (g_logCallback st) t level d tag (c_str (take (MAX_LOG_LEN - 1 - length (PrintTraceId env st)) s)) @
      [Sent (socketHandler (g_socket st)) (message_of (log_header env t level d) tag
      (take (MAX_LOG_LEN - 1) (PrintTraceId env st @ s) @ NUL # r))], st')"
proof -
  obtain pc where st1: "st1 = st\<lparr>g_caches := pc\<rparr>" using HiLogIsLoggable_frame [OF ok] by blast
  have tr: "PrintTraceId env st1 = PrintTraceId env st" unfolding st1 by (simp add: PrintTraceId_def cong: option.case_cong)
  have sb: "HiLogPrintSandboxLog env t level d (Some tag) (Some (items_str its)) args st1 = Inr (False, [], st1)"
    using st by (simp add: HiLogPrintSandboxLog_def IsSandboxValidDomain_def st1)
  have dom: "\<not> (t \<noteq> LOG_APP \<and> (d < DOMAIN_OS_MIN \<or> d > DOMAIN_OS_MAX))" 
    using t(3) unfolding IsValidDomain_def by (auto simp only: not_less split: if_splits)
  have v: "HiLogPrintVerify env t level d (Some tag) (Some (items_str its)) args st = Inr (1, args, [], st1)"
    unfolding HiLogPrintVerify_def ok if_not_P [OF dom] Let_def prod.case sb sum.case using st(1) by (simp add: st1)
  have "length (PrintTraceId env st1) < MAX_LOG_LEN" using length_PrintTraceId [of env st1] by simp
  then obtain ret r where f: "format_buffer (ce_fmt env) (PrintTraceId env st1) (fst (HiLogIsPrivacyOn (ce_prop env) (g_caches st1)))
      (Some (items_str its)) args = Some (ret, take (MAX_LOG_LEN - 1) (PrintTraceId env st1 @ s) @ NUL # r)"
    using format_buffer_items [OF its] by blast
  have fd: "fdHandler (g_socket st1) \<ge> 0" and sh: "socketHandler (g_socket st1) = socketHandler (g_socket st)"
    using st(3) by (simp_all add: st1)
  have "length (PrintTraceId env st) \<le> MAX_LOG_LEN - 1" using length_PrintTraceId [of env st] by simp
  then have cb: "c_str (drop (length (PrintTraceId env st)) (take (MAX_LOG_LEN - 1) (PrintTraceId env st @ s) @ NUL # r)) =
      c_str (take (MAX_LOG_LEN - 1 - length (PrintTraceId env st)) s)"
    by (simp add: c_str_end)
  have st1': "g_logCallback st1 = g_logCallback st" by (simp add: st1)
  obtain st' where "send_log env t level d tag (Some (items_str its)) args st1 = Inr (sk_writev (ce_sock env),
      callbacks (g_logCallback st) t level d tag (c_str (take (MAX_LOG_LEN - 1 - length (PrintTraceId env st)) s)) @
      [Sent (socketHandler (g_socket st)) (message_of (log_header env t level d) tag
        (take (MAX_LOG_LEN - 1) (PrintTraceId env st @ s) @ NUL # r))], st')"
    using send_log_sent [OF f t(1) fd w] unfolding tr sh st1' cb by blast
  then show ?thesis unfolding HiLogPrintArgs_def v using t(2) by (intro exI) simp
qed

section \<open>From the program to the buffer\<close>

lemma InsertLogToBuffer_room:
  assumes "accepts msg" "buffer_wf b"
    and "unat (sizeByType b ! ConvertBufType (unat (m_type msg))) + MAX_LOG_LEN < unat (limits ! ConvertBufType (unat (m_type msg)))"
  shows "\<exists>n b'. InsertLogToBuffer limits msg b = (n, b') \<and>
    hilogDataList b' = hilogDataList b @ [(next_node b, HilogData_of_msg msg)]"
proof -
  let ?t = "ConvertBufType (unat (m_type msg))"
  have c: "unat (CONTENT_LEN msg) \<le> MAX_LOG_LEN" using assms(1) by (simp add: accepts_def msg_accepted_def)
  have lim: "unat (limits ! ?t) < 2 ^ 64" using unsigned_less [of "limits ! ?t"] by simp
  have "unat (CONTENT_LEN msg + sizeByType b ! ?t) = unat (CONTENT_LEN msg) + unat (sizeByType b ! ?t)"
    using c assms(3) lim by (intro unat_plus_simple [THEN iffD1]) (simp add: no_olen_add_nat)
  then have "\<not> CONTENT_LEN msg + sizeByType b ! ?t \<ge> limits ! ?t"
    using c assms(3) unfolding word_le_nat_alt by linarith
  then show ?thesis
    unfolding InsertLogToBuffer_def Insert_accepted [OF assms(1)] Let_def
    by (simp add: Insert_append_effect(2) [OF assms(2,1)])
qed

lemma onDataRecv_stored:
  assumes "accepts data" "unat (m_len data) \<ge> SIZEOF_HilogMsg" "IsValidDomain (unat (m_type data)) (m_domain data)"
    and "\<not> flowControl c" "\<not> countEnable c" "buffer_wf (cs_buffer st)"
    and "unat (sizeByType (cs_buffer st) ! ConvertBufType (unat (m_type data))) + MAX_LOG_LEN
         < unat (limits ! ConvertBufType (unat (m_type data)))"
  shows "\<exists>st'. onDataRecv cmdline qf limits c pid data (int (unat (m_len data))) st = Some st' \<and>
    hilogDataList (cs_buffer st') = hilogDataList (cs_buffer st) @ [(next_node (cs_buffer st), HilogData_of_msg (data\<lparr>m_pid := pid\<rparr>))]"
proof -
  have "accepts (data\<lparr>m_pid := pid\<rparr>)" using assms(1) by (simp add: accepts_def msg_accepted_def CONTENT_LEN_def)
  then obtain n b' where i: "InsertLogToBuffer limits (data\<lparr>m_pid := pid\<rparr>) (cs_buffer st) = (n, b')"
    and b': "hilogDataList b' = hilogDataList (cs_buffer st) @ [(next_node (cs_buffer st), HilogData_of_msg (data\<lparr>m_pid := pid\<rparr>))]"
    using InsertLogToBuffer_room [of "data\<lparr>m_pid := pid\<rparr>" "cs_buffer st" limits] assms(6,7) by auto
  have len: "\<not> (int (unat (m_len data)) < int SIZEOF_HilogMsg \<or> int (unat (m_len data)) \<noteq> int (unat (m_len data)))"
    unfolding of_nat_less_iff using assms(2) leD by blast
  show ?thesis
    unfolding onDataRecv_def if_not_P [OF len] Let_def CountReceived_def using assms(3-5) i b' by (cases "n = 0") simp_all
qed

text \<open>The daemon stores a message that a program sent.\<close>

lemma message_of_received:
  assumes "length w \<le> MAX_LOG_LEN - 1" "NUL \<notin> set tag" "t < LOG_TYPE_MAX" "level < LOG_LEVEL_MAX" "IsValidDomain t d"
    and "\<not> flowControl c" "\<not> countEnable c" "buffer_wf (cs_buffer cst)"
    and room: "unat (sizeByType (cs_buffer cst) ! ConvertBufType t) + MAX_LOG_LEN < unat (limits ! ConvertBufType t)"
    and msg: "msg = message_of (log_header env t level d) tag (w @ NUL # r)"
  shows "\<exists>cst' x. ServingThread (onDataRecv cmdline qf limits c) [Some \<lparr>dg_msg = msg, dg_size = unat (m_len msg), dg_pid = pid\<rparr>] cst = Some cst' \<and>
    hilogDataList (cs_buffer cst') = hilogDataList (cs_buffer cst) @ [(next_node (cs_buffer cst), x)] \<and>
    d_tag x = take 31 tag \<and> d_content x = c_str w \<and> unat (d_type x) = t \<and> unat (d_level x) = level \<and> d_domain x = d \<and> d_pid x = pid"
proof -
  note m = message_of_accepted [OF assms(1,2) msg]
  note m' = message_of_accepted [OF assms(1,2), of "msg\<lparr>m_pid := pid\<rparr>" "(log_header env t level d)\<lparr>m_pid := pid\<rparr>" r]
  have pid: "msg\<lparr>m_pid := pid\<rparr> = message_of ((log_header env t level d)\<lparr>m_pid := pid\<rparr>) tag (w @ NUL # r)"
    unfolding msg message_of_def Let_def by simp
  have f: "m_type msg = of_nat t" "m_level msg = of_nat level" "m_domain msg = d"
    unfolding msg message_of_def log_header_def Let_def by simp_all
  have ft: "unat (m_type msg) = t" unfolding f(1) using assms(3) by (simp add: unat_of_nat)
  have fl: "unat (m_level msg) = level" unfolding f(2) using assms(4) by (simp add: unat_of_nat)
  have acc: "accepts msg" "accepts (msg\<lparr>m_pid := pid\<rparr>)" using m(6) m'(6) [OF pid] ft assms(3) by (simp_all add: accepts_def)
  have r: "RecvPacket \<lparr>dg_msg = msg, dg_size = unat (m_len msg), dg_pid = pid\<rparr> = (int (unat (m_len msg)), msg)"
    by (rule RecvPacket_complete [OF m(1,4,2,3)])
  have len: "SIZEOF_HilogMsg \<le> unat (m_len msg)" "0 < int (unat (m_len msg))" using m(1) by simp_all
  obtain cst' where o: "onDataRecv cmdline qf limits c pid msg (int (unat (m_len msg))) cst = Some cst'"
    "hilogDataList (cs_buffer cst') = hilogDataList (cs_buffer cst) @ [(next_node (cs_buffer cst), HilogData_of_msg (msg\<lparr>m_pid := pid\<rparr>))]"
    using onDataRecv_stored [OF acc(1) len(1), unfolded ft f(3), OF assms(5-8) room] by blast
  have s: "ServingThread (onDataRecv cmdline qf limits c) [Some \<lparr>dg_msg = msg, dg_size = unat (m_len msg), dg_pid = pid\<rparr>] cst = Some cst'"
    using len(2) o(1) by (simp only: ServingThread.simps r Let_def prod.case if_True option.case Datagram.select_convs)
  have lv: "d_level (HilogData_of_msg (msg\<lparr>m_pid := pid\<rparr>)) = ucast (m_level msg)"
    using HilogData_of_msg_accepted(4) [OF m'(6) [OF pid]] by simp
  have "unat (ucast (m_level msg) :: 4 word) = unat (m_level msg)" by (rule unat_ucast_up) simp
  then show ?thesis
    using s o(2) m'(7,8) [OF pid] of_msg_fields [OF acc(2)] ft fl f(3) lv by (intro exI conjI) simp_all
qed

text \<open>
  C3: A log that a program prints arrives in the buffer of the daemon, and nothing else is sent. The
  log has a well-formed format with arguments for which its text is defined, a tag, a level that is
  loggable, and a valid domain for its type, any type but the kernel's. When the program has its
  socket open, writes succeed, the sandbox is off and the flow control of the process does not apply,
  as for every type but \<open>LOG_APP\<close>, \<open>HiLogPrintArgs\<close> calls the registered callback, if any, with the
  formatted text and then sends exactly one datagram. When the daemon has flow control and
  statistics off and room in the buffer of the type, receiving that datagram appends exactly one log:
  with the first 31 characters of the tag, the trace and the formatted text up to 4095 characters,
  the type, level and domain of the call and the process the kernel reports.
\<close>

theorem client_to_buffer:
  assumes "HiLogIsLoggable (ce_prop env) d (Some tag) level st = (True, st1)" "list_all item_ok its"
    and "items_text (ce_fmt env) (fst (HiLogIsPrivacyOn (ce_prop env) (g_caches st1))) its (False, False) args = Some s"
    and "g_sandboxStatus st = SANDBOXLOG_DEFAULT" "g_sandboxDomains st = []" "fdHandler (g_socket st) \<ge> 0"
    and "flow_free env t (snd (HiLogIsPrivacyOn (ce_prop env) (g_caches st1)))"
    and "t \<noteq> LOG_KMSG" "t < LOG_TYPE_MAX" "level < LOG_LEVEL_MAX" "IsValidDomain t d" "NUL \<notin> set tag" "sk_writev (ce_sock env) \<ge> 0"
    and "\<not> flowControl c" "\<not> countEnable c" "buffer_wf (cs_buffer cst)"
    and "unat (sizeByType (cs_buffer cst) ! ConvertBufType t) + MAX_LOG_LEN < unat (limits ! ConvertBufType t)"
  shows "\<exists>msg st' cst' x.
    HiLogPrintArgs env t level d (Some tag) (Some (items_str its)) args st =
      Inr (sk_writev (ce_sock env),
           callbacks (g_logCallback st) t level d tag (c_str (take (MAX_LOG_LEN - 1 - length (PrintTraceId env st)) s)) @
           [Sent (socketHandler (g_socket st)) msg], st') \<and>
    ServingThread (onDataRecv cmdline qf limits c) [Some \<lparr>dg_msg = msg, dg_size = unat (m_len msg), dg_pid = pid\<rparr>] cst = Some cst' \<and>
    hilogDataList (cs_buffer cst') = hilogDataList (cs_buffer cst) @ [(next_node (cs_buffer cst), x)] \<and>
    d_tag x = take 31 tag \<and> d_content x = c_str (take (MAX_LOG_LEN - 1) (PrintTraceId env st @ s)) \<and>
    unat (d_type x) = t \<and> unat (d_level x) = level \<and> d_domain x = d \<and> d_pid x = pid"
proof -
  let ?w = "take (MAX_LOG_LEN - 1) (PrintTraceId env st @ s)"
  have w: "length ?w \<le> MAX_LOG_LEN - 1" by simp
  obtain st' r where p: "HiLogPrintArgs env t level d (Some tag) (Some (items_str its)) args st =
      Inr (sk_writev (ce_sock env),
        callbacks (g_logCallback st) t level d tag (c_str (take (MAX_LOG_LEN - 1 - length (PrintTraceId env st)) s)) @
        [Sent (socketHandler (g_socket st)) (message_of (log_header env t level d) tag (?w @ NUL # r))], st')"
    using HiLogPrintArgs_sent [OF assms(1-8,11,13)] by blast
  show ?thesis
    using p message_of_received [OF w assms(12,9,10,11,14-17) refl] by blast
qed

text \<open>A program with an open socket 5, on a system where no parameter is set.\<close>

definition demo_fmt :: SecEnv where
  "demo_fmt = \<lparr>se_sprintf = \<lambda>n f ws d. None, se_wctomb = \<lambda>w. None, se_malloc = \<lambda>n. True, se_char_signed = True\<rparr>"

definition demo_prop :: PropEnv where
  "demo_prop =
     \<lparr>pv_sys = \<lparr>GetSystemCommitId = 1, FindParameter = \<lambda>_. -1, GetParameterCommitId = \<lambda>_. 0, GetParameterValue = \<lambda>_. None\<rparr>,
      pv_lock = \<lambda>_. True, pv_hap = None\<rparr>"

definition demo_client :: ClientEnv where
  "demo_client =
     \<lparr>ce_fmt = demo_fmt, ce_prop = demo_prop,
      ce_realtime = LogTimeStamp 100 0, ce_monotonic = LogTimeStamp 10 0, ce_pid = 7, ce_tid = 8, ce_trace = \<lambda>_. (0, 1, 2, 3),
      ce_progName = ''prog'', ce_kmsgFd = -1, ce_kmsgWrite = \<lambda>_. 0,
      ce_sock = \<lparr>sk_socket = 5, sk_socket2 = 6, sk_other = None, sk_writev = 50, sk_writev2 = 0\<rparr>,
      ce_localtime = \<lambda>_. None, ce_wlength = length\<rparr>"

definition demo_client_state :: ClientState where
  "demo_client_state = ClientState_new\<lparr>g_registerFunc := Some 1, g_socket := \<lparr>fdHandler = 5, socketHandler = 5\<rparr>\<rparr>"

definition demo_items :: "fmt_item list" where
  "demo_items = [Lit (CHR ''a''),
      Conv \<lparr>sp_vis = VisPublic, sp_flags = ''0'', sp_width = Digits ''5'', sp_prec = Absent, sp_size = [], sp_type = CHR ''d''\<rparr>,
      Conv \<lparr>sp_vis = VisDefault, sp_flags = [], sp_width = Absent, sp_prec = Absent, sp_size = [], sp_type = CHR ''s''\<rparr>]"

lemma demo_levels:
  "(\<lambda>(l, pc). (l, fst (HiLogIsPrivacyOn demo_prop pc))) (GetFinalLevel demo_prop 0xD002D00 ''tag'' PropCaches_new) = (LOG_LEVEL_MIN, True)"
proof -
  have v: "getValue conv lk (pv_sys demo_prop) (CacheData_new x t s) = (x, (CacheData_new x t s)\<lparr>m_sysCommit := 1\<rparr>)"
    for conv :: "string \<Rightarrow> 'a \<Rightarrow> 'a" and lk x t s
    by (simp add: getValue_def CacheData_new_def demo_prop_def Let_def)
  show ?thesis
    by (simp add: GetFinalLevel_def GetTagLevel_def GetPersistTagLevel_def GetDomainLevel_def GetPersistDomainLevel_def
        GetLevel_def levelValue_def v PropCaches_new_def IsAppDomain_def GetGlobalLogLevel_def GetGlobalLevel_def
        GetPersistGlobalLevel_def HiLogIsPrivacyOn_def IsDebugOn_def IsOnceDebugOn_def IsPersistDebugOn_def
        IsPrivateSwitchOn_def switchValue_def)
qed

lemma demo_client_prop [simp]: "ce_prop demo_client = demo_prop"
  by (simp add: demo_client_def)

lemma demo_loggable:
  "\<exists>pc. HiLogIsLoggable demo_prop 0xD002D00 (Some ''tag'') LOG_INFO demo_client_state =
     (True, demo_client_state\<lparr>g_caches := pc\<rparr>) \<and> fst (HiLogIsPrivacyOn demo_prop pc)"
proof -
  have c: "g_caches demo_client_state = PropCaches_new" "\<not> IsAppDomain 0xD002D00"
    by (simp_all add: demo_client_state_def ClientState_new_def IsAppDomain_def)
  show ?thesis
    using demo_levels unfolding HiLogIsLoggable_def c by (cases "GetFinalLevel demo_prop 0xD002D00 ''tag'' PropCaches_new") (auto simp: c)
qed

lemma demo_items_facts:
  "list_all item_ok demo_items" "items_str demo_items = ''a%{public}05d%s''"
  "items_text (ce_fmt demo_client) True demo_items (False, False) [VaInt 42, VaStr (Some (''secret'' @ [NUL]))] = Some ''a00042<private>''"
  by code_simp+

definition demo_quiet :: LogCollector where
  "demo_quiet = \<lparr>countEnable = False, flowControl = False, debug = False\<rparr>"

lemma demo_client_state_facts:
  "g_sandboxStatus demo_client_state = SANDBOXLOG_DEFAULT" "g_sandboxDomains demo_client_state = []"
  "fdHandler (g_socket demo_client_state) \<ge> 0"
  by (simp_all add: demo_client_state_def ClientState_new_def)

lemma demo_trace: "PrintTraceId demo_client demo_client_state = ''[1, 2, 3] ''"
  by code_simp

lemma demo_room: "unat (sizeByType demo_new ! ConvertBufType LOG_CORE) + MAX_LOG_LEN < unat (replicate 6 65536 ! ConvertBufType LOG_CORE :: size_t)"
proof -
  have "sizeByType demo_new ! 3 = 77" by code_simp
  then show ?thesis by (simp add: ConvertBufType_def)
qed

lemma demo_valid:
  "IsValidDomain LOG_CORE 0xD002D00" "NUL \<notin> set ''tag''" "sk_writev (ce_sock demo_client) \<ge> 0"
  "\<not> flowControl demo_quiet" "\<not> countEnable demo_quiet"
  by code_simp+

text \<open>The log of the program with the private string replaced, in a new buffer.\<close>

theorem client_to_buffer_witness:
  "\<exists>msg st' cst' x.
     HiLogPrintArgs demo_client LOG_CORE LOG_INFO 0xD002D00 (Some ''tag'') (Some ''a%{public}05d%s'')
       [VaInt 42, VaStr (Some (''secret'' @ [NUL]))] demo_client_state = Inr (50, [Sent 5 msg], st') \<and>
     ServingThread (onDataRecv (\<lambda>_. None) (\<lambda>_. 0) (replicate 6 65536) demo_quiet)
       [Some \<lparr>dg_msg = msg, dg_size = unat (m_len msg), dg_pid = 1234\<rparr>] \<lparr>cs_domainMap = [], cs_buffer = demo_new\<rparr> = Some cst' \<and>
     hilogDataList (cs_buffer cst') = hilogDataList demo_new @ [(next_node demo_new, x)] \<and>
     d_tag x = ''tag'' \<and> d_content x = ''[1, 2, 3] a00042<private>'' \<and> d_pid x = 1234"
proof -
  obtain pc where l: "HiLogIsLoggable (ce_prop demo_client) 0xD002D00 (Some ''tag'') LOG_INFO demo_client_state =
      (True, demo_client_state\<lparr>g_caches := pc\<rparr>)" "fst (HiLogIsPrivacyOn (ce_prop demo_client) pc)"
    using demo_loggable by auto
  have f: "items_text (ce_fmt demo_client) (fst (HiLogIsPrivacyOn (ce_prop demo_client) (g_caches (demo_client_state\<lparr>g_caches := pc\<rparr>))))
      demo_items (False, False) [VaInt 42, VaStr (Some (''secret'' @ [NUL]))] = Some ''a00042<private>''"
    using l(2) demo_items_facts(3) by simp
  let ?cst = "\<lparr>cs_domainMap = [], cs_buffer = demo_new\<rparr>"
  have fr: "flow_free demo_client LOG_CORE pc'" for pc' by (rule flow_free_os) simp
  have t: "LOG_CORE \<noteq> LOG_KMSG" "LOG_CORE < LOG_TYPE_MAX" "LOG_INFO < LOG_LEVEL_MAX" by simp_all
  have b: "buffer_wf (cs_buffer ?cst)" using demo_new_wf(1) by simp
  have r: "unat (sizeByType (cs_buffer ?cst) ! ConvertBufType LOG_CORE) + MAX_LOG_LEN < unat (replicate 6 65536 ! ConvertBufType LOG_CORE :: size_t)"
    unfolding CollectorState.select_convs by (rule demo_room)
  have c: "c_str (take (MAX_LOG_LEN - 1) (''[1, 2, 3] '' @ ''a00042<private>'')) = ''[1, 2, 3] a00042<private>''" by simp
  have tag: "take 31 ''tag'' = ''tag''" by simp
  have e: "callbacks (g_logCallback demo_client_state) t' lv d tg s' @ y = y" "socketHandler (g_socket demo_client_state) = 5"
      "sk_writev (ce_sock demo_client) = 50" for t' lv d tg s' y
    by (simp_all add: demo_client_state_def ClientState_new_def callbacks_def demo_client_def)
  from client_to_buffer [OF l(1) demo_items_facts(1) f demo_client_state_facts fr t demo_valid b r, of "\<lambda>_. None" "\<lambda>_. 0" 1234,
      unfolded demo_items_facts(2) demo_trace c tag CollectorState.select_convs e]
  obtain msg st' cst' x where x:
    "HiLogPrintArgs demo_client LOG_CORE LOG_INFO 0xD002D00 (Some ''tag'') (Some ''a%{public}05d%s'')
       [VaInt 42, VaStr (Some (''secret'' @ [NUL]))] demo_client_state = Inr (50, [Sent 5 msg], st')"
    "ServingThread (onDataRecv (\<lambda>_. None) (\<lambda>_. 0) (replicate 6 65536) demo_quiet)
       [Some \<lparr>dg_msg = msg, dg_size = unat (m_len msg), dg_pid = 1234\<rparr>] ?cst = Some cst'"
    "hilogDataList (cs_buffer cst') = hilogDataList demo_new @ [(next_node demo_new, x)]"
    "d_tag x = ''tag''" "d_content x = ''[1, 2, 3] a00042<private>''" "d_pid x = 1234" by (elim exE conjE)
  show ?thesis by (intro exI conjI) (rule x)+
qed

section \<open>Private arguments\<close>

lemma format_buffer_low:
  assumes "low_eq env its as bs" "list_all item_ok its" "\<forall>n. se_malloc env n"
  shows "format_buffer env trace True (Some (items_str its)) as = format_buffer env trace True (Some (items_str its)) bs"
  by (simp add: format_buffer_def vsnprintfp_low [OF assms])



section \<open>The sandbox\<close>

lemma public_s_needs_argument: "SecOutputPS env st priv public_s [] = None"
  by code_simp

lemma format_buffer_no_argument:
  assumes "length trace \<le> 64"
  shows "format_buffer env trace priv (Some public_s) [] = None"
proof -
  obtain k where k: "k = MAX_LOG_LEN - length trace" by simp
  have kb: "0 < k" "k \<le> 4096" using assms k by simp_all
  have u: "unat (of_nat k :: size_t) = k" "unat (of_nat (k - 1) :: size_t) = k - 1"
    by (rule unat_size_small; use kb in simp)+
  have c: "(of_nat (k - 1) :: size_t) < of_nat k" "(of_nat k :: size_t) \<le> SECUREC_STRING_MAX_LEN" "(of_nat k :: size_t) \<noteq> 0"
    "\<not> (of_nat (k - 1) :: size_t) > SECUREC_STRING_MAX_LEN - 1"
    unfolding word_less_nat_alt word_le_nat_alt u unat_eq_zero [symmetric] using kb by simp_all
  show ?thesis
    unfolding format_buffer_def Let_def k [symmetric] vsnprintfp_s_def using c
    by (simp add: SecVsnprintfPImpl_def public_s_needs_argument)
qed

text \<open>
  C38: With the sandbox active for a log, the arguments are read twice. The function that writes to
  the sandbox formats the log with the caller's \<open>va_list\<close>, and \<open>HiLogPrintArgs\<close> formats it again
  with the same list, which is indeterminate by then: whenever the log also goes to the daemon or
  to the kernel, \<open>OH_LOG_PrintMsg\<close> has undefined behaviour, whatever the message.
\<close>

theorem sandbox_reuses_arguments:
  assumes "HiLogIsLoggable (ce_prop env) d (Some tag) level st = (True, st1)"
    and "t = LOG_APP \<or> DOMAIN_OS_MIN \<le> d \<and> d \<le> DOMAIN_OS_MAX"
    and "\<not> (g_sandboxStatus st = SANDBOXLOG_DEFAULT \<and> IsSandboxValidDomain d st)"
    and "\<not> (t = LOG_APP \<and> (g_sandboxStatus st = PRIVATE_SANDBOX_ONLY \<or> g_sandboxStatus st = SHARE_SANDBOX_ONLY))"
  shows "OH_LOG_PrintMsg env t level d (Some tag) message st = Inl UndefinedBehaviour"
proof -
  obtain pc where st1: "st1 = st\<lparr>g_caches := pc\<rparr>" using HiLogIsLoggable_frame [OF assms(1)] by blast
  have same: "IsSandboxValidDomain d st1 = IsSandboxValidDomain d st" "g_sandboxStatus st1 = g_sandboxStatus st"
    unfolding st1 IsSandboxValidDomain_def by simp_all
  have sb: "\<not> (g_sandboxStatus st1 = SANDBOXLOG_DEFAULT \<and> IsSandboxValidDomain d st1)"
    using assms(3) by (simp add: same)
  let ?ap = "[VaStr (map_option (\<lambda>s. s @ [NUL]) message)]"
  have none: "format_buffer (ce_fmt env) (PrintTraceId env st') priv (Some public_s) [] = None"
    "format_buffer (ce_fmt env) [] priv (Some public_s) [] = None" for st' priv
    using format_buffer_no_argument length_PrintTraceId by simp_all
  obtain priv pc1 where p: "HiLogIsPrivacyOn (ce_prop env) (g_caches st1) = (priv, pc1)" by fastforce
  note sandbox = HiLogPrintSandboxLog_def if_not_P [OF sb] Let_def p prod.case
  show ?thesis
  proof (cases "format_buffer (ce_fmt env) (PrintTraceId env st1) priv (Some public_s) ?ap")
    case None
    then have "HiLogPrintSandboxLog env t level d (Some tag) (Some public_s) ?ap st1 = Inl UndefinedBehaviour"
      unfolding sandbox by simp
    then show ?thesis unfolding OH_LOG_PrintMsg_def OH_LOG_Print_def HiLogPrintArgs_def HiLogPrintVerify_def assms(1)
      using assms(2) by auto
  next
    case (Some x)
    obtain ret buf where "x = (ret, buf)" by fastforce
    with Some obtain evs where u: "HiLogPrintSandboxLog env t level d (Some tag) (Some public_s) ?ap st1 = Inr (True, evs, st1\<lparr>g_caches := pc1\<rparr>)"
      unfolding sandbox by simp
    have "HiLogPrintVerify env t level d (Some tag) (Some public_s) ?ap st = Inr (1, [], evs, st1\<lparr>g_caches := pc1\<rparr>)"
      unfolding HiLogPrintVerify_def assms(1) Let_def prod.case u sum.case using assms(2,4) by (auto simp: same)
    then show ?thesis unfolding OH_LOG_PrintMsg_def OH_LOG_Print_def HiLogPrintArgs_def
      by (simp add: kmsg_log_def send_log_def Let_def none split: prod.split)
  qed
qed

theorem sandbox_reuses_arguments_witness:
  "OH_LOG_PrintMsg demo_client LOG_CORE LOG_INFO 0xD002D00 (Some ''tag'') (Some ''hello'')
     (snd (InnerSetOutputType PRIVATE_SANDBOX_WITH_CONSOLE demo_client_state)) = Inl UndefinedBehaviour"
proof -
  let ?st = "snd (InnerSetOutputType PRIVATE_SANDBOX_WITH_CONSOLE demo_client_state)"
  have c: "g_caches ?st = PropCaches_new" "g_sandboxStatus ?st = 3"
    by (simp_all add: InnerSetOutputType_def set_sandbox_status_def demo_client_state_def ClientState_new_def)
  have d: "\<not> IsAppDomain 0xD002D00" by (simp add: IsAppDomain_def)
  obtain pc where "HiLogIsLoggable (ce_prop demo_client) 0xD002D00 (Some ''tag'') LOG_INFO ?st = (True, ?st\<lparr>g_caches := pc\<rparr>)"
    using demo_levels unfolding HiLogIsLoggable_def c(1)
    by (cases "GetFinalLevel demo_prop 0xD002D00 ''tag'' PropCaches_new") (auto simp: d c(1))
  from sandbox_reuses_arguments [OF this, of LOG_CORE] show ?thesis using c(2) by simp
qed

section \<open>Levels\<close>

text \<open>
  C39: The strategies of \<open>OH_LOG_SetLogLevel\<close> work as documented. For a valid level and a domain of
  applications a log is wanted when its level reaches the larger (\<open>PREFER_CLOSE_LOG\<close>) or the
  smaller (\<open>PREFER_OPEN_LOG\<close>) of the level the program set and the level of the system, and without
  a strategy when it reaches the level of the system.
\<close>

theorem loggable_strategy:
  assumes "LOG_LEVEL_MIN < level" "level < LOG_LEVEL_MAX" "IsAppDomain d"
  shows "let system = fst (GetFinalLevel env d tag (g_caches st));
             loggable = (\<lambda>prefer. fst (HiLogIsLoggable env d (Some tag) level (HiLogSetAppLogLevel new prefer st)))
         in (loggable PREFER_CLOSE_LOG \<longleftrightarrow> max new system \<le> level) \<and> (loggable PREFER_OPEN_LOG \<longleftrightarrow> min new system \<le> level) \<and>
            (loggable UNSET_LOGLEVEL \<longleftrightarrow> system \<le> level)"
proof -
  have "d < DOMAIN_OS_MAX" using assms(3) by (auto simp: IsAppDomain_def intro: le_less_trans)
  then have d: "\<not> d \<ge> DOMAIN_OS_MAX" by (simp only: not_le)
  obtain l pc where g: "GetFinalLevel env d tag (g_caches st) = (l, pc)" by fastforce
  show ?thesis
    unfolding HiLogIsLoggable_def HiLogSetAppLogLevel_def Let_def using assms(1,2) d by (auto simp: g assms(3))
qed

theorem loggable_strategy_witness:
  "fst (HiLogIsLoggable demo_prop 7 (Some ''tag'') LOG_INFO (HiLogSetAppLogLevel LOG_WARN PREFER_CLOSE_LOG ClientState_new)) =
   (max LOG_WARN (fst (GetFinalLevel demo_prop 7 ''tag'' (g_caches ClientState_new))) \<le> LOG_INFO)"
  using loggable_strategy [of LOG_INFO 7 demo_prop "''tag''" ClientState_new LOG_WARN] by (simp add: IsAppDomain_def Let_def)

section \<open>The socket\<close>

text \<open>
  C40: After \<open>HilogCloseSocketFd\<close> a program writes its logs to the descriptor it closed. The next log
  opens a new socket, but \<open>SetHandler\<close> refuses it because the base class still holds the old
  descriptor, and it is the old one that \<open>WriteV\<close> uses.
\<close>

theorem close_socket_misdirects:
  assumes "0 < socketHandler s" "fdHandler s = socketHandler s" "GenerateFD env \<ge> 0" "sk_other env = None" "sk_writev env \<ge> 0"
  shows "\<exists>msg s'. WriteLogMessage env header tag tagLen fmt fmtLen (CloseFd s) = (sk_writev env, Some (socketHandler s, msg), s') \<and>
    fdHandler s' = GenerateFD env"
  unfolding WriteLogMessage_def CheckSocket_def CloseFd_def SetHandler_def Let_def using assms by simp

theorem close_socket_misdirects_witness:
  "\<exists>msg s'. WriteLogMessage \<lparr>sk_socket = 9, sk_socket2 = 0, sk_other = None, sk_writev = 40, sk_writev2 = 0\<rparr>
     (log_header demo_client LOG_CORE LOG_INFO 0xD002D00) (''tag'' @ [NUL]) 4 (''log'' @ [NUL]) 4 (CloseFd \<lparr>fdHandler = 5, socketHandler = 5\<rparr>) =
     (40, Some (5, msg), s') \<and> fdHandler s' = 9"
  using close_socket_misdirects [of "\<lparr>fdHandler = 5, socketHandler = 5\<rparr>"
      "\<lparr>sk_socket = 9, sk_socket2 = 0, sk_other = None, sk_writev = 40, sk_writev2 = 0\<rparr>"
      "log_header demo_client LOG_CORE LOG_INFO 0xD002D00" "''tag'' @ [NUL]" 4 "''log'' @ [NUL]" 4]
  by (simp add: GenerateFD_def)

end
