(* ===== verification/Spec2Isabelle.thy ===== *)
theory Spec2Isabelle
  imports Hilog_Prelude Hilog_Common Log_TimeStamp Kv_Map Log_Utils Log_Domains Log_Data Log_Filter
    Log_Stats Log_Buffer Log_Buffer_Inv Log_Buffer_Spec Flow_Control Log_Collector Log_Print Log_Compress
    Log_Persister_Rotator Rotator_Window Log_Persister Persister_Props Hilog_Properties Log_Kmsg Hilog_Cmd Stats_Report Service_Controller
    Service_Props Sec_Format Format_Text Format_Machine Format_Spec Format_Digits Format_Props Hilog_Socket Hilog_Printf Hilog_Base Client_Props
begin

text \<open>
  A verification development of hilog, the logging system of OpenHarmony.

  \<^bold>\<open>The program.\<close> A program logs through the client library (\<open>frameworks/libhilog\<close>, the NDK and
  C++ interfaces): it decides whether the level is wanted, formats the text with privacy marks,
  applies the flow control of the process and sends a datagram. The daemon \<open>hilogd\<close>
  (\<open>services/hilogd\<close>) receives datagrams (\<open>log_collector.cpp\<close>), applies the flow control of
  domains, and inserts into a bounded buffer (\<open>log_buffer.cpp\<close>) from which readers with filters
  take logs: clients over a socket (\<open>service_controller.cpp\<close>) and persist jobs that compress and
  rotate files (\<open>log_persister.cpp\<close>, \<open>log_compress.cpp\<close>, \<open>log_persister_rotator.cpp\<close>). Kernel logs are
  read by a thread (\<open>log_kmsg.cpp\<close>) into a buffer of their own; statistics are kept and reported
  (\<open>log_stats.cpp\<close>, \<open>log_ioctl.cpp\<close>).

  \<^bold>\<open>Conventions.\<close> A structure or class is a record, an operation a function that takes the state and
  returns the new one, its name that of the source. Machine integers are words of their width, byte
  counts wrap, and enumerators that meet raw numbers are numbers. Undefined behaviour, uncaught
  exceptions and errors are values: \<open>None\<close> or the left side of a sum, as each theory says. What is not
  in the sources is a parameter: the kernel and the file system, clocks, the parameter service, the
  regular expression engine, zlib and zstd, the float formatting of the C library.

  \<^bold>\<open>Theories, their sources, and what their lemmas show.\<close>

  \<^item> \<open>Hilog_Prelude\<close>, \<open>Hilog_Common\<close>: types, the bounded copies of the C library, constants
    (\<open>hilog_common.h\<close>, \<open>hilog_base.h\<close>, \<open>log_c.h\<close>).
  \<^item> \<open>Log_TimeStamp\<close>, \<open>Kv_Map\<close>, \<open>Log_Utils\<close>, \<open>Log_Domains\<close> (\<open>log_timestamp.h\<close>, \<open>log_utils.h\<close>,
    \<open>log_utils.cpp\<close>, \<open>log_domains.cpp\<close>): arithmetic of time stamps against nanoseconds, key tables under
    the locale \<open>kv_table\<close>, round trips of masks and numbers (C21), the search for the process above the
    shells and its end (C22).
  \<^item> \<open>Log_Data\<close>, \<open>Log_Filter\<close> (\<open>hilog_base.h\<close>, \<open>log_data.h\<close>, \<open>log_filter.h\<close>): wire format and stored
    form of a log, and the filter as a conjunction of its parts (C18).
  \<^item> \<open>Log_Buffer\<close>, \<open>Log_Buffer_Inv\<close>, \<open>Log_Buffer_Spec\<close> (\<open>log_buffer.cpp\<close>): nodes with identities and
    readers with iterators. No iterator dangles in any reachable state (C1), the counters are the sums
    of the kept logs (C11) except after clearing one type (C13), the effects of \<open>Insert\<close> and \<open>Delete\<close> on
    the list and on every reader (C9, C12), the bound on the size (C10), and the contract of a reader,
    the locale \<open>log_cursor\<close>, interpreted on \<open>Query\<close> (C2); the placement of a tail reader (C14).
  \<^item> \<open>Flow_Control\<close>, \<open>Log_Collector\<close> (\<open>flow_control.cpp\<close>, \<open>log_collector.cpp\<close>): the quota of a domain
    (C15, C16) and where stored logs come from (C17).
  \<^item> \<open>Log_Stats\<close>, \<open>Hilog_Cmd\<close>, \<open>Stats_Report\<close> (\<open>log_stats.cpp\<close>, \<open>hilog_cmd.h\<close>, \<open>log_ioctl.cpp\<close>): the
    tables agree with each other and with what was counted (C19, C20), and the client reads back the
    report that the daemon sends (C37).
  \<^item> \<open>Log_Print\<close> (\<open>log_print.cpp\<close>): the printed lines of a log (C30).
  \<^item> \<open>Log_Compress\<close>, \<open>Log_Persister_Rotator\<close>, \<open>Rotator_Window\<close>, \<open>Log_Persister\<close>, \<open>Persister_Props\<close>: the
    locale \<open>compressor\<close>, interpreted on the three compressors, and the chunks they feed (C29); the window
    of files a job keeps (C23); no log is lost between buffer and file (C24, C28) except in two cases
    (C25, C26); ids and paths of jobs are unique (C27).
  \<^item> \<open>Hilog_Properties\<close> (\<open>properties.cpp\<close>): the cache of a property is transparent (C31).
  \<^item> \<open>Log_Kmsg\<close> (\<open>kmsg_parser.cpp\<close>, \<open>log_kmsg.cpp\<close>): what becomes of a kernel log (C32), and the calls of
    \<open>Start\<close> and \<open>Stop\<close> from several threads with the reading thread as a step relation (C33).
  \<^item> \<open>Service_Controller\<close>, \<open>Service_Props\<close> (\<open>service_controller.cpp\<close>, \<open>cmd_executor.cpp\<close>): the handlers of
    all requests; what an unprivileged client sees (C34), a complete answer (C35), refused commands
    (C36).
  \<^item> \<open>Sec_Format\<close>, \<open>Format_Text\<close>, \<open>Format_Machine\<close>, \<open>Format_Spec\<close>, \<open>Format_Props\<close>, \<open>Format_Digits\<close>
    (\<open>vsnprintf_s_p.c\<close>, \<open>output_p.inl\<close>): the state machine of the formatting refines a specification by
    parts of the format (C5), is type sound (C6), makes the digits of the division (C7), and loses
    privacy without memory (C8).
  \<^item> \<open>Hilog_Socket\<close>, \<open>Hilog_Printf\<close>, \<open>Hilog_Base\<close>, \<open>Client_Props\<close> (\<open>dgram_socket_client.cpp\<close>,
    \<open>hilog_input_socket_client.cpp\<close>, \<open>hilog_input_socket_server.cpp\<close>, \<open>hilog_printf.cpp\<close>, \<open>hilog.cpp\<close>,
    \<open>hilog_ndk.c\<close>, \<open>hilog_base.c\<close>): a log goes from the program to the buffer (C3), private arguments do
    not leave the program (C4), the sandbox (C38), the strategies of levels (C39), the socket (C40).

  \<^bold>\<open>Bounds and loops.\<close> Loops are structural recursion over the data they consume or functions with a
  termination proof. The loops that wait for others are functions over the list of what happens in
  each turn: the retries of a kernel insertion, the thread of a persist job, the wait of an output
  request; there \<open>None\<close>, or a value that says so, is a loop that has not ended within the list, and C35
  gives a length that suffices. \<open>GetPPidByPid\<close> is a \<open>partial_function\<close>, because a ring of shells never
  ends; C22 shows when it returns. The inner loop of zlib ends because its output is bounded; that
  of zstd is given by the finitely many outputs of the library.

  \<^bold>\<open>Concurrency.\<close> The lock of the buffer makes its operations atomic, and the state of the daemon
  changes by whole operations: C1 and C11 hold for every sequence of them, C27 for every sequence of
  steps of the jobs. The handlers are given one request at a time, with what other threads do to the
  buffer in each turn as a parameter. Only \<open>Start\<close> and \<open>Stop\<close> of the kernel log, of which one has no lock,
  are interleaved step by step; reads and writes of their shared status are taken to be atomic.

  \<^bold>\<open>Not modelled.\<close> The command line tool, which parses options and prints texts; the log files
  inside the sandbox of an application, which are calls of the operating system; the bindings for
  other languages, which convert the values of their runtimes; the ports to other platforms; the
  creation and polling of sockets; the start of the daemon; the printing of the statistics on the
  console of the daemon. Allocations with \<open>new\<close> succeed, and so do writes to open files; allocations of the
  formatting are a parameter.
\<close>

end
